(* ===== verification/Prelude.thy ===== *)
theory Prelude
  imports Main "HOL-Library.Word" "HOL-Library.Monad_Syntax" "HOL-Library.Sublist"
begin

text \<open>
  Shared vocabulary of the development: the machine integers of the C sources, byte packing
  (the target is little endian, the network big endian), fixed-size C buffers written by
  \<open>memcpy\<close>-like overlays, and the generic list and word facts the components share.
  Facts that describe buffer operations are collected in \<open>buf_simps\<close>; facts on reading
  words as numbers in \<open>unat_simps\<close>.
\<close>

unbundle bit_operations_syntax

named_theorems buf_simps \<open>lengths and contents of C buffers\<close>
named_theorems unat_simps \<open>words read as natural numbers\<close>

type_synonym u8 = "8 word"
type_synonym u16 = "16 word"
type_synonym u32 = "32 word"
type_synonym u64 = "64 word"

section \<open>C integers\<close>

text \<open>A C \<open>int\<close> on this target: the two's complement reading of 32 bits.\<close>

definition c_int :: "int \<Rightarrow> int" where
  "c_int i = signed_take_bit 31 i"

definition int_of_u32 :: "u32 \<Rightarrow> int" where
  "int_of_u32 w = sint w"

text \<open>Truth value of a comparison, as C arithmetic sees it.\<close>

definition c_bool :: "bool \<Rightarrow> u32" where
  "c_bool b = (if b then 1 else 0)"

section \<open>Byte packing\<close>

definition be32 :: "u32 \<Rightarrow> u8 list" where
  "be32 w = [ucast (drop_bit 24 w), ucast (drop_bit 16 w), ucast (drop_bit 8 w), ucast w]"

definition be16 :: "u16 \<Rightarrow> u8 list" where
  "be16 w = [ucast (drop_bit 8 w), ucast w]"

definition le32 :: "u32 \<Rightarrow> u8 list" where
  "le32 w = [ucast w, ucast (drop_bit 8 w), ucast (drop_bit 16 w), ucast (drop_bit 24 w)]"

definition get_le32 :: "u8 list \<Rightarrow> nat \<Rightarrow> u32" where
  "get_le32 bs off =
     ucast (bs ! off) OR push_bit 8 (ucast (bs ! (off + 1)))
       OR push_bit 16 (ucast (bs ! (off + 2))) OR push_bit 24 (ucast (bs ! (off + 3)))"

definition get_be32 :: "u8 list \<Rightarrow> nat \<Rightarrow> u32" where
  "get_be32 bs off =
     push_bit 24 (ucast (bs ! off)) OR push_bit 16 (ucast (bs ! (off + 1)))
       OR push_bit 8 (ucast (bs ! (off + 2))) OR ucast (bs ! (off + 3))"

definition get_be16 :: "u8 list \<Rightarrow> nat \<Rightarrow> u16" where
  "get_be16 bs off = push_bit 8 (ucast (bs ! off)) OR ucast (bs ! (off + 1))"

lemma length_be32 [simp]: "length (be32 w) = 4"
  by (simp add: be32_def)

lemma length_be16 [simp]: "length (be16 w) = 2"
  by (simp add: be16_def)

lemma length_le32 [simp]: "length (le32 w) = 4"
  by (simp add: le32_def)

lemma bytes_of_word32:
  fixes w :: u32
  shows "push_bit 24 (ucast (ucast (drop_bit 24 w) :: u8)) OR push_bit 16 (ucast (ucast (drop_bit 16 w) :: u8))
           OR push_bit 8 (ucast (ucast (drop_bit 8 w) :: u8)) OR ucast (ucast w :: u8) = w"
proof (rule bit_word_eqI)
  fix n assume n: "n < LENGTH(32)"
  consider "n < 8" | "8 \<le> n" "n < 16" | "16 \<le> n" "n < 24" | "24 \<le> n" by linarith
  then show "bit (push_bit 24 (ucast (ucast (drop_bit 24 w) :: u8)) OR push_bit 16 (ucast (ucast (drop_bit 16 w) :: u8))
           OR push_bit 8 (ucast (ucast (drop_bit 8 w) :: u8)) OR ucast (ucast w :: u8) :: u32) n = bit w n"
    using n by cases (auto simp: bit_simps)
qed

lemma get_be32_be32 [buf_simps]: "get_be32 (be32 w) 0 = w"
  using bytes_of_word32 [of w] by (simp add: get_be32_def be32_def)

lemma get_be16_be16 [buf_simps]: "get_be16 (be16 w) 0 = w"
  unfolding get_be16_def be16_def
  by (rule bit_word_eqI) (auto simp: bit_simps)

lemma get_le32_le32 [buf_simps]: "get_le32 (le32 w) 0 = w"
  using bytes_of_word32 [of w] by (simp add: get_le32_def le32_def or.commute or.left_commute or.assoc)

section \<open>Fixed-size buffers\<close>

text \<open>
  \<open>overlay xs buf\<close> is the buffer after the first \<open>length xs\<close> cells were
  overwritten by \<open>xs\<close>; \<open>put xs off buf\<close> writes at an offset. Neither changes the
  length of the buffer: what would not fit is cut off, so a model that relies on a copy
  fitting states so with its own guard.
\<close>

definition overlay :: "'a list \<Rightarrow> 'a list \<Rightarrow> 'a list" where
  "overlay xs buf = take (length buf) xs @ drop (length xs) buf"

definition put :: "'a list \<Rightarrow> nat \<Rightarrow> 'a list \<Rightarrow> 'a list" where
  "put xs off buf = take off buf @ overlay xs (drop off buf)"

lemma length_overlay [simp, buf_simps]: "length (overlay xs buf) = length buf"
  by (simp add: overlay_def)

lemma length_put [simp, buf_simps]: "length (put xs off buf) = length buf"
  by (simp add: put_def)

lemma overlay_Nil [simp]: "overlay [] buf = buf"
  by (simp add: overlay_def)

lemma nth_overlay: "i < length buf \<Longrightarrow> overlay xs buf ! i = (if i < length xs then xs ! i else buf ! i)"
  by (auto simp: overlay_def nth_append min_def)

lemma nth_put: "i < length buf \<Longrightarrow>
    put xs off buf ! i = (if off \<le> i \<and> i < off + length xs then xs ! (i - off) else buf ! i)"
  by (auto simp: put_def nth_append nth_overlay min_def)

lemma take_overlay: "length xs \<le> length buf \<Longrightarrow> take (length xs) (overlay xs buf) = xs"
  by (simp add: overlay_def)

lemma get_le32_put_same [buf_simps]:
  "off + 4 \<le> length buf \<Longrightarrow> get_le32 (put (le32 w) off buf) off = w"
  using get_le32_le32 [of w] by (simp add: get_le32_def nth_put numeral_eq_Suc)

lemma get_le32_put_other [buf_simps]:
  "off + 4 \<le> length buf \<Longrightarrow> o2 + length xs \<le> off \<or> off + 4 \<le> o2 \<Longrightarrow>
     get_le32 (put xs o2 buf) off = get_le32 buf off"
  by (auto simp: get_le32_def nth_put)

section \<open>Lists\<close>

lemma nth_list_update_neq_le: "i \<noteq> j \<Longrightarrow> (xs[i := x]) ! j = xs ! j"
  by simp

lemma map_nth_upt: "map ((!) xs) [0..<length xs] = xs"
  by (rule map_nth)

lemma takeWhile_length_le: "length (takeWhile P xs) \<le> length xs"
  by (induction xs) auto

lemma dropWhile_length_le: "length (dropWhile P xs) \<le> length xs"
  by (induction xs) auto

section \<open>Words as numbers\<close>

lemma unat_u8_less [unat_simps]: "unat (w :: u8) < 256"
  using unsigned_less [of w] by simp

lemma unat_u16_less [unat_simps]: "unat (w :: u16) < 65536"
  using unsigned_less [of w] by simp

lemma unat_u32_less [unat_simps]: "unat (w :: u32) < 4294967296"
  using unsigned_less [of w] by simp

lemma unat_plus_nowrap32 [unat_simps]:
  "unat (a :: u32) + unat b < 4294967296 \<Longrightarrow> unat (a + b) = unat a + unat b"
  by (simp add: unat_word_ariths)

lemma unat_minus_nowrap: "b \<le> a \<Longrightarrow> unat (a - b) = unat a - unat (b :: 'a::len word)"
  by (rule unat_sub)

lemma unat_and_not_mask [unat_simps]:
  "unat (w AND NOT (mask n)) = unat (w :: 'a::len word) div 2 ^ n * 2 ^ n"
proof -
  have "unat (w AND NOT (mask n)) = push_bit n (drop_bit n (unat w))"
    by (rule bit_eqI) (auto simp: bit_simps dest: bit_imp_le_length)
  then show ?thesis by (simp add: push_bit_eq_mult drop_bit_eq_div)
qed

lemma unat_drop_bit_u32 [unat_simps]: "unat (drop_bit n (w :: u32)) = unat w div 2 ^ n"
  by (simp add: unat_drop_bit_eq drop_bit_nat_def)

lemma unat_byte [unat_simps]: "unat (ucast (drop_bit n (v :: u32)) :: u8) = unat v div 2 ^ n mod 256"
  by (simp add: unsigned_ucast_eq unat_drop_bit_u32 take_bit_eq_mod)

lemma unat_low_byte [unat_simps]: "unat (ucast (v :: u32) :: u8) = unat v mod 256"
  using unat_byte [of 0 v] by simp

lemma three_digits:
  fixes v :: nat
  assumes "v < 16777216"
  shows "v div 65536 mod 256 * 65536 + v div 256 mod 256 * 256 + v mod 256 = v"
proof -
  have "v div 65536 mod 256 = v div 65536" using assms by simp
  moreover have "v div 256 div 256 = v div 65536" by (simp add: div_mult2_eq [symmetric])
  moreover have "v div 256 div 256 * 256 + v div 256 mod 256 = v div 256" by (rule div_mult_mod_eq)
  moreover have "v div 256 * 256 + v mod 256 = v" by (rule div_mult_mod_eq)
  ultimately show ?thesis by linarith
qed

end
