(* ===== verification/C_Strings.thy ===== *)
theory C_Strings
  imports Prelude
begin

text \<open>
  The string functions of the C library the sources call, on \<open>char list\<close>. A C string
  is the characters before the terminating NUL, so a model string holds no NUL; a buffer that
  may hold one is read through \<open>cstr\<close>. A destination buffer of size \<open>cap\<close> receives
  at most \<open>cap - 1\<close> characters (\<open>snprintf\<close>, \<open>fgets\<close>, the copy loops of the
  sources).
\<close>

named_theorems str_simps \<open>lengths of C string operations\<close>

abbreviation NUL :: char where "NUL \<equiv> CHR 0x00"
abbreviation CR :: char where "CR \<equiv> CHR 0x0D"
abbreviation LF :: char where "LF \<equiv> CHR 0x0A"
abbreviation CRLF :: string where "CRLF \<equiv> [CHR 0x0D, CHR 0x0A]"

definition cstr :: "string \<Rightarrow> string" where
  "cstr s = takeWhile (\<lambda>c. c \<noteq> NUL) s"

lemma length_cstr_le: "length (cstr s) \<le> length s"
  by (simp add: cstr_def takeWhile_length_le)

text \<open>The bytes of a string, as they go out on a socket.\<close>

definition bytes_of :: "string \<Rightarrow> u8 list" where
  "bytes_of s = map of_char s"

lemma unat_of_char [simp]: "unat (of_char c :: u8) = of_char c"
proof -
  have "unat (of_nat (of_char c) :: u8) = of_char c"
    using nat_of_char_less_256 [of c] by (simp only: unat_of_nat) simp
  then show ?thesis by (simp only: of_nat_of_char)
qed

lemma length_bytes_of [simp, str_simps]: "length (bytes_of s) = length s"
  by (simp add: bytes_of_def)

lemma bytes_of_append [simp]: "bytes_of (s @ t) = bytes_of s @ bytes_of t"
  by (simp add: bytes_of_def)

section \<open>Searching\<close>

definition starts_with :: "string \<Rightarrow> string \<Rightarrow> bool" where
  "starts_with s pat \<longleftrightarrow> take (length pat) s = pat"

text \<open>\<open>strstr\<close>: the rest of the string from the first occurrence on.\<close>

fun strstr :: "string \<Rightarrow> string \<Rightarrow> string option" where
  "strstr [] pat = (if pat = [] then Some [] else None)"
| "strstr (c # cs) pat = (if starts_with (c # cs) pat then Some (c # cs) else strstr cs pat)"

text \<open>\<open>strchr\<close> for a character other than NUL.\<close>

fun strchr :: "string \<Rightarrow> char \<Rightarrow> string option" where
  "strchr [] c = None"
| "strchr (x # xs) c = (if x = c then Some (x # xs) else strchr xs c)"

lemma starts_with_length: "starts_with s pat \<Longrightarrow> length pat \<le> length s"
  by (metis starts_with_def length_take min.cobounded1)

lemma strstr_SomeD: "strstr s pat = Some t \<Longrightarrow> starts_with t pat \<and> suffix t s"
  by (induction s) (auto simp: starts_with_def suffix_def split: if_splits)

lemma strstr_split: "strstr s pat = Some t \<Longrightarrow> \<exists>pre. s = pre @ t"
  using strstr_SomeD by (auto simp: suffix_def)

lemma strstr_length: "strstr s pat = Some t \<Longrightarrow> length pat \<le> length t \<and> length t \<le> length s"
  using strstr_SomeD starts_with_length suffix_length_le by blast

lemma strstr_None: "strstr s pat = None \<Longrightarrow> pre @ pat @ post \<noteq> s"
proof (induction s arbitrary: pre)
  case Nil
  then show ?case by (auto split: if_splits)
next
  case (Cons c cs)
  show ?case
  proof
    assume eq: "pre @ pat @ post = c # cs"
    from Cons.prems have ns: "\<not> starts_with (c # cs) pat" and rec: "strstr cs pat = None"
      by (auto split: if_splits)
    have "pre \<noteq> []"
    proof
      assume "pre = []"
      with eq have "c # cs = pat @ post" by simp
      then have "take (length pat) (c # cs) = pat" by (metis append_eq_conv_conj)
      with ns show False by (simp add: starts_with_def)
    qed
    with eq obtain pre' where "pre' @ pat @ post = cs" by (cases pre) auto
    with Cons.IH [OF rec] show False by blast
  qed
qed

lemma strchr_SomeD: "strchr s c = Some t \<Longrightarrow> \<exists>pre post. s = pre @ t \<and> t = c # post \<and> c \<notin> set pre"
proof (induction s)
  case (Cons x xs)
  show ?case
  proof (cases "x = c")
    case True
    with Cons.prems show ?thesis by auto
  next
    case False
    with Cons.prems Cons.IH obtain pre post where "xs = pre @ t" "t = c # post" "c \<notin> set pre" by auto
    with False show ?thesis by (intro exI [of _ "x # pre"] exI [of _ post]) auto
  qed
qed simp

definition ends_with :: "string \<Rightarrow> string \<Rightarrow> bool" where
  "ends_with s sfx \<longleftrightarrow> length sfx \<le> length s \<and> drop (length s - length sfx) s = sfx"

section \<open>Character classes\<close>

definition isspace :: "char \<Rightarrow> bool" where
  "isspace c \<longleftrightarrow> c \<in> {CHR '' '', CHR 0x09, CHR 0x0A, CHR 0x0B, CHR 0x0C, CHR 0x0D}"

definition isdigit :: "char \<Rightarrow> bool" where
  "isdigit c \<longleftrightarrow> (of_char c :: nat) \<in> {48..57}"

definition digit_val :: "char \<Rightarrow> nat" where
  "digit_val c = of_char c - 48"

definition tolower :: "char \<Rightarrow> char" where
  "tolower c = (if (of_char c :: nat) \<in> {65..90} then char_of (of_char c + 32 :: nat) else c)"

text \<open>\<open>strncasecmp(s, t, length t) == 0\<close>.\<close>

definition caseless_prefix :: "string \<Rightarrow> string \<Rightarrow> bool" where
  "caseless_prefix s t \<longleftrightarrow> map tolower (take (length t) s) = map tolower t"

lemma caseless_prefix_length: "caseless_prefix s t \<Longrightarrow> length t \<le> length s"
  unfolding caseless_prefix_def by (metis length_map length_take min.cobounded1)

section \<open>Numbers to text\<close>

fun dec :: "nat \<Rightarrow> string" where
  "dec n = (if n < 10 then [char_of (48 + n)] else dec (n div 10) @ [char_of (48 + n mod 10)])"

declare dec.simps [simp del]

definition dec_int :: "int \<Rightarrow> string" where
  "dec_int i = (if i < 0 then CHR ''-'' # dec (nat (- i)) else dec (nat i))"

definition hex_digit :: "nat \<Rightarrow> char" where
  "hex_digit n = ''0123456789abcdef'' ! (n mod 16)"

text \<open>\<open>%0wx\<close> for a value that fits in \<open>w\<close> digits.\<close>

definition hex_fixed :: "nat \<Rightarrow> nat \<Rightarrow> string" where
  "hex_fixed w n = map (\<lambda>i. hex_digit (n div 16 ^ i)) (rev [0..<w])"

text \<open>\<open>%0wX\<close>, with capital digits.\<close>

definition hex_fixed_upper :: "nat \<Rightarrow> nat \<Rightarrow> string" where
  "hex_fixed_upper w n = map (\<lambda>i. ''0123456789ABCDEF'' ! (n div 16 ^ i mod 16)) (rev [0..<w])"

fun hex :: "nat \<Rightarrow> string" where
  "hex n = (if n < 16 then [hex_digit n] else hex (n div 16) @ [hex_digit n])"

declare hex.simps [simp del]

lemma length_hex_fixed [simp, str_simps]: "length (hex_fixed w n) = w"
  by (simp add: hex_fixed_def)

lemma length_dec_le: "n < 10 ^ k \<Longrightarrow> 0 < k \<Longrightarrow> length (dec n) \<le> k"
proof (induction k arbitrary: n)
  case (Suc k)
  show ?case
  proof (cases "n < 10")
    case True
    then show ?thesis by (simp add: dec.simps)
  next
    case False
    with Suc.prems have "0 < k" by (cases k) auto
    moreover from Suc.prems have "n div 10 < 10 ^ k" by (simp add: div_less_iff_less_mult mult.commute)
    ultimately have "length (dec (n div 10)) \<le> k" using Suc.IH by blast
    with False show ?thesis by (subst dec.simps) simp
  qed
qed simp

lemma length_dec_u32: "length (dec (unat (w :: u32))) \<le> 10"
  by (rule length_dec_le) (use unat_u32_less [of w] in auto)

lemma dec_nonempty: "dec n \<noteq> []"
  by (subst dec.simps) simp

section \<open>Text to numbers\<close>

definition read_digits :: "string \<Rightarrow> nat" where
  "read_digits s = foldl (\<lambda>a c. 10 * a + digit_val c) 0 (takeWhile isdigit s)"

text \<open>
  \<open>strtoul(s, NULL, 10)\<close> with the 32-bit \<open>unsigned long\<close> of the target: leading
  white space, an optional sign, digits; saturation at \<open>ULONG_MAX\<close>; a minus sign negates
  modulo \<open>2 ^ 32\<close>.
\<close>

definition sat_u32 :: "nat \<Rightarrow> u32" where
  "sat_u32 n = (if n < 2 ^ 32 then word_of_nat n else - 1)"

definition strtoul :: "string \<Rightarrow> u32" where
  "strtoul s =
     (case dropWhile isspace s of
        [] \<Rightarrow> 0
      | c # cs \<Rightarrow>
          if c = CHR ''-'' then (if read_digits cs < 2 ^ 32 then - sat_u32 (read_digits cs) else - 1)
          else if c = CHR ''+'' then sat_u32 (read_digits cs)
          else sat_u32 (read_digits (c # cs)))"

text \<open>\<open>atoi\<close>, which is \<open>strtol\<close> on this target: saturation at both ends of \<open>long\<close>.\<close>

definition clamp_long :: "int \<Rightarrow> int" where
  "clamp_long i = max (- (2 ^ 31)) (min (2 ^ 31 - 1) i)"

definition atoi :: "string \<Rightarrow> int" where
  "atoi s =
     (case dropWhile isspace s of
        [] \<Rightarrow> 0
      | c # cs \<Rightarrow>
          if c = CHR ''-'' then clamp_long (- int (read_digits cs))
          else if c = CHR ''+'' then clamp_long (int (read_digits cs))
          else clamp_long (int (read_digits (c # cs))))"

text \<open>One \<open>%u\<close> of \<open>sscanf\<close>: the value and the rest of the input, if a digit was there.\<close>

definition scan_u :: "string \<Rightarrow> (u32 \<times> string) option" where
  "scan_u s =
     (let t = dropWhile isspace s;
          d = (case t of c # cs \<Rightarrow> if c = CHR ''-'' \<or> c = CHR ''+'' then cs else t | [] \<Rightarrow> [])
      in if takeWhile isdigit d = [] then None else Some (strtoul t, dropWhile isdigit d))"

text \<open>\<open>sscanf(s, "%u-%u", &a, &b)\<close>: how many items were assigned, and their values.\<close>

definition scan_pair :: "string \<Rightarrow> nat \<times> u32 \<times> u32" where
  "scan_pair s =
     (case scan_u s of
        None \<Rightarrow> (0, 0, 0)
      | Some (a, rest) \<Rightarrow>
          (case rest of
             [] \<Rightarrow> (1, a, 0)
           | c # cs \<Rightarrow>
               if c = CHR ''-''
               then (case scan_u cs of None \<Rightarrow> (1, a, 0) | Some (b, _) \<Rightarrow> (2, a, b))
               else (1, a, 0)))"

text \<open>\<open>%Ns\<close> of \<open>sscanf\<close>: the field (at most \<open>n\<close> characters) and the rest.\<close>

definition scan_s :: "nat \<Rightarrow> string \<Rightarrow> string \<times> string" where
  "scan_s n s =
     (let t = dropWhile isspace s; w = take n (takeWhile (\<lambda>c. \<not> isspace c) t)
      in (w, drop (length w) t))"

lemma length_scan_s [str_simps]: "length (fst (scan_s n s)) \<le> n"
  by (simp add: scan_s_def Let_def)

section \<open>Formatting into a buffer\<close>

text \<open>
  \<open>snprintf(buf, cap, ...)\<close> stores \<open>trunc cap s\<close> and returns the length of the
  untruncated text \<open>s\<close>. Sending that many bytes from the buffer is in bounds only when
  the text did not exceed it: \<open>send_fmt\<close> is the memory the caller reads.
\<close>

definition trunc :: "nat \<Rightarrow> string \<Rightarrow> string" where
  "trunc cap s = take (cap - 1) s"

definition fmt_buf :: "nat \<Rightarrow> string \<Rightarrow> string option" where
  "fmt_buf cap s =
     (if length s < cap then Some s
      else if length s = cap then Some (trunc cap s @ [NUL])
      else None)"

lemma length_trunc [str_simps]: "length (trunc cap s) \<le> cap - 1"
  by (simp add: trunc_def)

lemma trunc_id: "length s < cap \<Longrightarrow> trunc cap s = s"
  by (simp add: trunc_def)

lemma fmt_buf_fits: "length s < cap \<Longrightarrow> fmt_buf cap s = Some s"
  by (simp add: fmt_buf_def)

end
