(* ===== verification/Os.thy ===== *)
theory Os
  imports C_Strings
begin

text \<open>
  The operating system under the program. The kernel is not part of the repository, so it is a
  parameter: a function from the calls made so far, with their results, and the next call to
  the result of that call. Quantifying over it quantifies over every behaviour of the kernel,
  the devices and the peers. The state every function threads is the history of calls; what a
  program did is read off it.
\<close>

named_theorems os_simps \<open>one step of the history\<close>

text \<open>An internet address, both fields as the code sees them after \<open>ntohl\<close> and \<open>ntohs\<close>.\<close>

record sockaddr =
  s_addr :: u32
  sin_port :: u16

text \<open>An I2C message (\<open>struct i2c_msg\<close>): address, flags, and the bytes it points to.\<close>

record i2c_msg =
  i2c_addr :: u16
  i2c_flags :: u16
  i2c_len :: u16
  i2c_buf :: "u8 list"

text \<open>
  The Fullhan driver's own message, as \<open>fh_mpi.c\<close> declares it, and what an \<open>ioctl\<close> passes: nothing, a
  number, an array of words or bytes, the messages of a transfer, or the messages of a Fullhan transfer with
  the number of them it claims.
\<close>

record fh_i2c_msg =
  slave_addr :: u16
  msg_pad1 :: u16
  addr_len :: u16
  msg_pad2 :: u16
  msg_buf :: "u8 list"
  msg_pad3 :: u32
  data_len :: u16
  msg_pad4 :: u16

datatype ioarg =
    Arg_none
  | Arg_val u32
  | Arg_words "u32 list"
  | Arg_bytes "u8 list"
  | Arg_i2c "i2c_msg list"
  | Arg_fh_i2c "fh_i2c_msg list" u32

text \<open>The access modes of \<open>open\<close> on this target.\<close>

definition O_RDONLY :: nat where "O_RDONLY = 0"
definition O_WRONLY :: nat where "O_WRONLY = 1"
definition O_RDWR :: nat where "O_RDWR = 2"

datatype syscall =
    Open string nat
  | Close int
  | Ioctl int u32 ioarg
  | Write int "u8 list"
  | Read int nat
  | Mmap int u32 u32
  | Munmap int u32
  | Peek int nat
  | Poke int nat u32
  | Fetch int nat nat
  | Socket_stream
  | Socket_dgram
  | Bind int sockaddr
  | Listen int
  | Accept int
  | Getsockname int
  | Getpeername int
  | Setsockopt int
  | Set_nonblock int
  | Recv int nat
  | Send int "u8 list"
  | Sendto int "u8 list" sockaddr
  | Random
  | Srandom u32
  | Getpid
  | Clock_us
  | Time
  | Usleep nat
  | Getenv string
  | Slurp string
  | Readlink string
  | Pipe
  | Start_thread string
  | Signal nat string
  | Pending_signal
  | Print string
  | Perror string

text \<open>
  Memory the program maps is not its own either: \<open>Peek\<close> and \<open>Poke\<close> are one volatile access to a
  32-bit register at a byte offset of a mapping, \<open>Fetch\<close> is reading a range of bytes of it. A mapping
  is named by the address \<open>mmap\<close> returned. \<open>Signal\<close> installs a handler, and \<open>Pending_signal\<close> stands where
  a signal handler may have run: its result is the signal delivered since the last look, or 0. \<open>Slurp\<close> is a
  file read from its start to its end, \<open>Pipe\<close> answers with the two descriptors.

  A result: the return value, \<open>errno\<close> when it is negative, and what the call stored for
  the caller (bytes of a buffer, words of an \<open>ioctl\<close> argument, an address, a string).
\<close>

record reply =
  rv :: int
  err :: int
  rbytes :: "u8 list"
  rwords :: "u32 list"
  raddr :: sockaddr
  rtext :: "string option"

type_synonym hist = "(syscall \<times> reply) list"
type_synonym kernel = "hist \<Rightarrow> syscall \<Rightarrow> reply"

definition sys :: "kernel \<Rightarrow> syscall \<Rightarrow> hist \<Rightarrow> reply \<times> hist" where
  "sys k c h = (k h c, h @ [(c, k h c)])"

definition sys_h :: "kernel \<Rightarrow> syscall \<Rightarrow> hist \<Rightarrow> hist" where
  "sys_h k c h = snd (sys k c h)"

lemma sys_simps [os_simps]:
  "fst (sys k c h) = k h c" "snd (sys k c h) = h @ [(c, k h c)]" "sys_h k c h = h @ [(c, k h c)]"
  by (simp_all add: sys_def sys_h_def)

text \<open>An \<open>ioctl\<close> on an array of words: the return value and the array after the call.\<close>

definition ioctl_words :: "kernel \<Rightarrow> int \<Rightarrow> u32 \<Rightarrow> u32 list \<Rightarrow> hist \<Rightarrow> int \<times> u32 list \<times> hist" where
  "ioctl_words k fd req ws h =
     (let (r, h) = sys k (Ioctl fd req (Arg_words ws)) h in (rv r, overlay (rwords r) ws, h))"

definition ioctl_bytes :: "kernel \<Rightarrow> int \<Rightarrow> u32 \<Rightarrow> u8 list \<Rightarrow> hist \<Rightarrow> int \<times> u8 list \<times> hist" where
  "ioctl_bytes k fd req bs h =
     (let (r, h) = sys k (Ioctl fd req (Arg_bytes bs)) h in (rv r, overlay (rbytes r) bs, h))"

text \<open>An \<open>ioctl\<close> whose argument the caller does not read back.\<close>

definition ioctl_r :: "kernel \<Rightarrow> int \<Rightarrow> u32 \<Rightarrow> ioarg \<Rightarrow> hist \<Rightarrow> int \<times> hist" where
  "ioctl_r k fd req a h = (let (r, h) = sys k (Ioctl fd req a) h in (rv r, h))"

lemma ioctl_words_eq [os_simps]:
  "ioctl_words k fd req ws h =
     (let c = Ioctl fd req (Arg_words ws) in (rv (k h c), overlay (rwords (k h c)) ws, h @ [(c, k h c)]))"
  by (simp add: ioctl_words_def sys_def Let_def)

lemma ioctl_bytes_eq [os_simps]:
  "ioctl_bytes k fd req bs h =
     (let c = Ioctl fd req (Arg_bytes bs) in (rv (k h c), overlay (rbytes (k h c)) bs, h @ [(c, k h c)]))"
  by (simp add: ioctl_bytes_def sys_def Let_def)

lemma ioctl_eq [os_simps]:
  "ioctl_r k fd req a h = (rv (k h (Ioctl fd req a)), h @ [(Ioctl fd req a, k h (Ioctl fd req a))])"
  by (simp add: ioctl_r_def sys_def)

section \<open>Reading a history\<close>

text \<open>The calls a program added to a history.\<close>

definition calls :: "hist \<Rightarrow> syscall list" where
  "calls h = map fst h"

lemma calls_append [simp]: "calls (h @ h') = calls h @ calls h'"
  by (simp add: calls_def)

lemma calls_Cons [simp]: "calls (p # h) = fst p # calls h"
  by (simp add: calls_def)

lemma calls_Nil [simp]: "calls [] = []"
  by (simp add: calls_def)

text \<open>The size an \<open>ioctl\<close> request code declares for its argument (\<open>_IOC_SIZE\<close>).\<close>

definition ioc_size :: "u32 \<Rightarrow> nat" where
  "ioc_size req = unat (drop_bit 16 req AND 0x3FFF)"

definition arg_size :: "ioarg \<Rightarrow> nat" where
  "arg_size a =
     (case a of Arg_none \<Rightarrow> 0 | Arg_val _ \<Rightarrow> 4 | Arg_words ws \<Rightarrow> 4 * length ws
      | Arg_bytes bs \<Rightarrow> length bs | Arg_i2c ms \<Rightarrow> 8
      | Arg_fh_i2c ms n \<Rightarrow> 8)"

text \<open>The bytes that reached the peer of a stream socket: what each \<open>send\<close> accepted.\<close>

fun wire :: "int \<Rightarrow> hist \<Rightarrow> u8 list" where
  "wire fd [] = []"
| "wire fd ((Send fd' d, r) # h) =
     (if fd' = fd \<and> 0 < rv r then take (nat (rv r)) d else []) @ wire fd h"
| "wire fd (_ # h) = wire fd h"

lemma wire_append [simp]: "wire fd (h @ h') = wire fd h @ wire fd h'"
  by (induction fd h rule: wire.induct) auto

lemma wire_single [simp]:
  "wire fd [(Send fd' d, r)] = (if fd' = fd \<and> 0 < rv r then take (nat (rv r)) d else [])"
  by simp

text \<open>
  The part of a history that concerns nothing but a stream socket: it holds only
  \<open>send\<close> calls on that descriptor.
\<close>

definition only_sends :: "int \<Rightarrow> hist \<Rightarrow> bool" where
  "only_sends fd h \<longleftrightarrow> (\<forall>c \<in> set (calls h). \<exists>d. c = Send fd d)"

lemma only_sends_Nil [simp]: "only_sends fd []"
  by (simp add: only_sends_def)

lemma only_sends_append [simp]: "only_sends fd (h @ h') \<longleftrightarrow> only_sends fd h \<and> only_sends fd h'"
  by (auto simp: only_sends_def)

lemma only_sends_Cons [simp]: "only_sends fd (p # h) \<longleftrightarrow> (\<exists>d. fst p = Send fd d) \<and> only_sends fd h"
  by (auto simp: only_sends_def)

definition EINTR :: int where "EINTR = 4"
definition EAGAIN :: int where "EAGAIN = 11"

section \<open>Concrete kernels\<close>

text \<open>
  Results and kernels the examples run on: a result with nothing but a value, a result of an
  \<open>ioctl\<close> that stores words, and a kernel whose sockets take at most \<open>n\<close> bytes at a time.
\<close>

definition ok_reply :: "int \<Rightarrow> reply" where
  "ok_reply v = \<lparr>rv = v, err = 0, rbytes = [], rwords = [], raddr = \<lparr>s_addr = 0, sin_port = 0\<rparr>, rtext = None\<rparr>"

definition words_reply :: "u32 list \<Rightarrow> reply" where
  "words_reply ws = (ok_reply 0)\<lparr>rwords := ws\<rparr>"

definition k_chunk :: "nat \<Rightarrow> kernel" where
  "k_chunk n h c = ok_reply (case c of Send fd d \<Rightarrow> int (min n (length d)) | _ \<Rightarrow> 0)"

lemma ok_reply_simps [simp]:
  "rv (ok_reply v) = v" "err (ok_reply v) = 0" "rbytes (ok_reply v) = []" "rwords (ok_reply v) = []"
  "rv (words_reply ws) = 0" "rwords (words_reply ws) = ws" "rbytes (words_reply ws) = []" "err (words_reply ws) = 0"
  by (simp_all add: ok_reply_def words_reply_def)

end
