(* ===== verification/Rtsp_Io.thy ===== *)
theory Rtsp_Io
  imports Os
begin

text \<open>
  The state of \<open>majestic/rtsp_server.c\<close> and the bottom of its call graph: how bytes
  leave the process (\<open>send_all\<close>, \<open>reply\<close>, \<open>track_send\<close>) and how a client's
  descriptors are released (\<open>track_close\<close>, \<open>session_reset\<close>, \<open>client_reset\<close>). The C code passes
  pointers to one client and one of its tracks; the model passes the records and returns them
  updated. Not returning, and reading or writing outside a buffer, are \<open>None\<close>.
\<close>

section \<open>Constants and state\<close>

definition RTSP_MAX_CLIENTS :: nat where "RTSP_MAX_CLIENTS = 8"
definition RTSP_STREAM_COUNT :: nat where "RTSP_STREAM_COUNT = 2"
definition RTSP_TRACK_VIDEO :: nat where "RTSP_TRACK_VIDEO = 0"
definition RTSP_TRACK_METADATA :: nat where "RTSP_TRACK_METADATA = 1"
definition RTSP_TRACK_COUNT :: nat where "RTSP_TRACK_COUNT = 2"
definition RX_CAP :: nat where "RX_CAP = 4096"
definition RTP_MAX_PAYLOAD :: nat where "RTP_MAX_PAYLOAD = 1200"

lemmas rtsp_consts =
  RTSP_MAX_CLIENTS_def RTSP_STREAM_COUNT_def RTSP_TRACK_VIDEO_def RTSP_TRACK_METADATA_def
  RTSP_TRACK_COUNT_def RX_CAP_def RTP_MAX_PAYLOAD_def

definition SERVER_NAME :: string where "SERVER_NAME = ''OpenIPC.org RTSP Server/0.1''"

record rtsp_track =
  active :: bool
  interleaved :: bool
  rtp_channel :: u8
  rtcp_channel :: u8
  rtp_fd :: int
  rtcp_fd :: int
  rtp_addr :: sockaddr
  rtcp_addr :: sockaddr
  ssrc :: u32
  rtp_seq :: u16

record rtsp_client =
  tcp_fd :: int
  loopback :: bool
  stream_id :: nat
  has_session :: bool
  session_id :: u32
  playing :: bool
  waiting_for_sps :: bool
  next_metadata_us :: u64
  tracks :: "rtsp_track list"
  rxbuf :: string

text \<open>
  The callback installed by \<open>rtsp_server_on_idr_request\<close>: no callback, or the one function
  of the repository that is ever installed, \<open>venc_request_idr\<close> with the encoder's descriptor.
\<close>

datatype idr_callback = No_callback | Venc_request_idr int

record rtsp_server =
  listen_fd :: int
  request_idr :: idr_callback
  clients :: "rtsp_client list"
  stream_on :: "bool list"
  fps :: "u32 list"
  sps :: "u8 list list"
  sps_len :: "nat list"
  pps :: "u8 list list"
  pps_len :: "nat list"
  video_ts_base :: "u32 list"
  metadata_ts_base :: u32
  auth_enabled :: bool
  auth_user :: string
  auth_pass :: string
  shadow_path :: string

definition no_addr :: sockaddr where
  "no_addr = \<lparr>s_addr = 0, sin_port = 0\<rparr>"

text \<open>A track after \<open>memset(t, 0, ...)\<close> with both descriptors closed.\<close>

definition track0 :: rtsp_track where
  "track0 = \<lparr>active = False, interleaved = False, rtp_channel = 0, rtcp_channel = 0,
     rtp_fd = -1, rtcp_fd = -1, rtp_addr = no_addr, rtcp_addr = no_addr, ssrc = 0, rtp_seq = 0\<rparr>"

definition client_init :: rtsp_client where
  "client_init = \<lparr>tcp_fd = -1, loopback = False, stream_id = 0, has_session = False,
     session_id = 0, playing = False, waiting_for_sps = False, next_metadata_us = 0,
     tracks = replicate RTSP_TRACK_COUNT track0, rxbuf = []\<rparr>"

section \<open>Sending\<close>

text \<open>
  \<open>send_all\<close> retries on \<open>EINTR\<close> for as long as the kernel says so (not returning is
  \<open>None\<close>), gives up silently on any other error, and goes on after a partial send. A
  kernel that claims to have sent more than it was given would run the pointer out of the
  buffer, which is \<open>None\<close> as well.
\<close>

partial_function (option) send_all :: "kernel \<Rightarrow> int \<Rightarrow> u8 list \<Rightarrow> hist \<Rightarrow> hist option" where
  "send_all k fd data h =
     (if data = [] then Some h
      else let (r, h) = sys k (Send fd data) h in
        if rv r \<le> 0 then
          if rv r < 0 \<and> err r = EINTR then send_all k fd data h else Some h
        else if nat (rv r) \<le> length data then send_all k fd (drop (nat (rv r)) data) h
        else None)"

text \<open>\<open>reply\<close>: the response head formatted into a 512-byte buffer and sent.\<close>

definition reply_text :: "string \<Rightarrow> string \<Rightarrow> string \<Rightarrow> string" where
  "reply_text cseq status extra =
     ''RTSP/1.0 '' @ status @ CRLF @ ''CSeq: '' @ cseq @ CRLF @ ''Server: '' @ SERVER_NAME @ CRLF
       @ extra @ CRLF"

definition send_reply :: "kernel \<Rightarrow> rtsp_client \<Rightarrow> string \<Rightarrow> string \<Rightarrow> string \<Rightarrow> hist \<Rightarrow> hist option" where
  "send_reply k c cseq status extra h =
     do {
       buf \<leftarrow> fmt_buf 512 (reply_text cseq status extra);
       send_all k (tcp_fd c) (bytes_of buf) h
     }"

definition track_frame :: "rtsp_track \<Rightarrow> bool \<Rightarrow> u8 list \<Rightarrow> u8 list" where
  "track_frame t rtcp data =
     [0x24, if rtcp then rtcp_channel t else rtp_channel t,
      word_of_nat (length data div 256), word_of_nat (length data)] @ data"

definition track_send :: "kernel \<Rightarrow> rtsp_client \<Rightarrow> rtsp_track \<Rightarrow> bool \<Rightarrow> u8 list \<Rightarrow> hist \<Rightarrow> hist option" where
  "track_send k c t rtcp data h =
     (if interleaved t then
        if length data > 4 + 12 + RTP_MAX_PAYLOAD - 4 then Some h
        else send_all k (tcp_fd c) (track_frame t rtcp data) h
      else if rtcp then Some (sys_h k (Sendto (rtcp_fd t) data (rtcp_addr t)) h)
      else Some (sys_h k (Sendto (rtp_fd t) data (rtp_addr t)) h))"

section \<open>Releasing a client\<close>

definition close_if_open :: "kernel \<Rightarrow> int \<Rightarrow> hist \<Rightarrow> hist" where
  "close_if_open k fd h = (if fd \<ge> 0 then sys_h k (Close fd) h else h)"

definition track_close :: "kernel \<Rightarrow> rtsp_track \<Rightarrow> hist \<Rightarrow> rtsp_track \<times> hist" where
  "track_close k t h = (track0, close_if_open k (rtcp_fd t) (close_if_open k (rtp_fd t) h))"

fun tracks_close :: "kernel \<Rightarrow> rtsp_track list \<Rightarrow> hist \<Rightarrow> rtsp_track list \<times> hist" where
  "tracks_close k [] h = ([], h)"
| "tracks_close k (t # ts) h =
     (let (t', h) = track_close k t h; (ts', h) = tracks_close k ts h in (t' # ts', h))"

definition session_reset :: "kernel \<Rightarrow> rtsp_client \<Rightarrow> hist \<Rightarrow> rtsp_client \<times> hist" where
  "session_reset k c h =
     (let (ts, h) = tracks_close k (tracks c) h
      in (c\<lparr>tracks := ts, has_session := False, playing := False, waiting_for_sps := False\<rparr>, h))"

definition client_reset :: "kernel \<Rightarrow> rtsp_client \<Rightarrow> hist \<Rightarrow> rtsp_client \<times> hist" where
  "client_reset k c h =
     (let (c, h) = session_reset k c h in (client_init, close_if_open k (tcp_fd c) h))"


section \<open>What \<open>send_all\<close> puts on the wire\<close>

text \<open>
  The documented behaviour of \<open>send\<close> the code relies on: it never reports more bytes than it
  was given, and it does not fail with \<open>EINTR\<close> for ever.
\<close>

definition eintr :: "kernel \<Rightarrow> hist \<Rightarrow> syscall \<Rightarrow> bool" where
  "eintr k h c \<longleftrightarrow> rv (k h c) < 0 \<and> err (k h c) = EINTR"

fun retry :: "kernel \<Rightarrow> syscall \<Rightarrow> nat \<Rightarrow> hist \<Rightarrow> hist" where
  "retry k c 0 h = h"
| "retry k c (Suc n) h = retry k c n (sys_h k c h)"

definition send_bounded :: "kernel \<Rightarrow> bool" where
  "send_bounded k \<longleftrightarrow> (\<forall>h fd d. rv (k h (Send fd d)) \<le> int (length d))"

definition send_responsive :: "kernel \<Rightarrow> bool" where
  "send_responsive k \<longleftrightarrow> (\<forall>h fd d. \<exists>n. \<not> eintr k (retry k (Send fd d) n h) (Send fd d))"

lemma send_all_Nil [simp]: "send_all k fd [] h = Some h"
  by (simp add: send_all.simps)

lemma send_all_eintr:
  "data \<noteq> [] \<Longrightarrow> eintr k h (Send fd data) \<Longrightarrow>
     send_all k fd data h = send_all k fd data (sys_h k (Send fd data) h)"
  by (subst send_all.simps) (auto simp: eintr_def sys_def sys_h_def)

lemma send_all_done:
  "data \<noteq> [] \<Longrightarrow> rv (k h (Send fd data)) \<le> 0 \<Longrightarrow> \<not> eintr k h (Send fd data) \<Longrightarrow>
     send_all k fd data h = Some (sys_h k (Send fd data) h)"
  by (subst send_all.simps) (auto simp: eintr_def sys_def sys_h_def)

lemma send_all_more:
  "data \<noteq> [] \<Longrightarrow> 0 < rv (k h (Send fd data)) \<Longrightarrow> send_all k fd data h =
     (if nat (rv (k h (Send fd data))) \<le> length data
      then send_all k fd (drop (nat (rv (k h (Send fd data)))) data) (sys_h k (Send fd data) h)
      else None)"
  by (subst send_all.simps) (auto simp: sys_def sys_h_def)

lemma send_all_returns:
  assumes "send_bounded k" and "send_responsive k"
  shows "\<exists>h'. send_all k fd data h = Some h'"
proof (induction data arbitrary: h rule: length_induct)
  case (1 data)
  have step: "\<not> eintr k (retry k (Send fd data) n h) (Send fd data) \<Longrightarrow> \<exists>h'. send_all k fd data h = Some h'" for n h
  proof (induction n arbitrary: h)
    case 0
    show ?case
    proof (cases "data = [] \<or> rv (k h (Send fd data)) \<le> 0")
      case True
      with 0 show ?thesis by (cases "data = []") (auto simp: send_all_done)
    next
      case False
      with assms(1) have "nat (rv (k h (Send fd data))) \<le> length data"
        by (auto simp: send_bounded_def nat_le_iff)
      with False 1 show ?thesis by (simp add: send_all_more)
    qed
  next
    case (Suc n)
    show ?case
    proof (cases "data \<noteq> [] \<and> eintr k h (Send fd data)")
      case True
      with Suc show ?thesis by (simp add: send_all_eintr)
    next
      case False
      then show ?thesis
      proof (cases "data = [] \<or> rv (k h (Send fd data)) \<le> 0")
        case True
        with False show ?thesis by (cases "data = []") (auto simp: send_all_done)
      next
        case pos: False
        with assms(1) have "nat (rv (k h (Send fd data))) \<le> length data"
          by (auto simp: send_bounded_def nat_le_iff)
        with pos 1 show ?thesis by (simp add: send_all_more)
      qed
    qed
  qed
  from assms(2) obtain n where "\<not> eintr k (retry k (Send fd data) n h) (Send fd data)"
    unfolding send_responsive_def by blast
  then show ?case by (rule step)
qed

text \<open>
  The accepted part of the data is always a prefix of it, and only the last call can have
  failed: either everything went out or the history ends in the failing call.
\<close>

definition failed_last :: "kernel \<Rightarrow> int \<Rightarrow> hist \<Rightarrow> bool" where
  "failed_last k fd cs \<longleftrightarrow>
     (\<exists>h0 d. cs \<noteq> [] \<and> d \<noteq> [] \<and> last cs = (Send fd d, k h0 (Send fd d)) \<and>
        rv (k h0 (Send fd d)) \<le> 0 \<and> \<not> eintr k h0 (Send fd d))"

definition sent_prefix :: "kernel \<Rightarrow> int \<Rightarrow> u8 list \<Rightarrow> hist \<Rightarrow> hist \<Rightarrow> bool" where
  "sent_prefix k fd data h h' \<longleftrightarrow>
     (\<exists>n cs. h' = h @ cs \<and> only_sends fd cs \<and> wire fd cs = take n data \<and>
        (take n data = data \<or> failed_last k fd cs))"

lemma failed_last_Cons: "failed_last k fd cs \<Longrightarrow> failed_last k fd (p # cs)"
  unfolding failed_last_def by auto

lemma send_all_prefix: "send_all k fd data h = Some h' \<Longrightarrow> sent_prefix k fd data h h'"
proof (erule send_all.raw_induct [where P = "\<lambda>k fd data h h'. sent_prefix k fd data h h'", rotated])
  fix f :: "kernel \<Rightarrow> int \<Rightarrow> u8 list \<Rightarrow> hist \<Rightarrow> hist option" and k :: kernel and fd :: int and data :: "u8 list" and h h' :: hist
  let ?r = "k h (Send fd data)"
  let ?p = "(Send fd data, ?r)"
  assume IH: "\<And>k fd data h h'. f k fd data h = Some h' \<Longrightarrow> sent_prefix k fd data h h'"
  assume eq: "(if data = [] then Some h
      else let (r, h) = sys k (Send fd data) h in
        if rv r \<le> 0 then
          if rv r < 0 \<and> err r = EINTR then f k fd data h else Some h
        else if nat (rv r) \<le> length data then f k fd (drop (nat (rv r)) data) h
        else None) = Some h'"
  consider (nil) "data = []" | (again) "data \<noteq> []" "rv ?r < 0" "err ?r = EINTR"
    | (stop) "data \<noteq> []" "rv ?r \<le> 0" "\<not> eintr k h (Send fd data)"
    | (more) "data \<noteq> []" "0 < rv ?r" unfolding eintr_def by linarith
  then show "sent_prefix k fd data h h'"
  proof cases
    case nil
    with eq show ?thesis by (auto simp: sent_prefix_def)
  next
    case again
    with eq have "f k fd data (h @ [?p]) = Some h'" by (simp add: sys_def)
    from IH [OF this] obtain n cs where "h' = (h @ [?p]) @ cs" "only_sends fd cs" "wire fd cs = take n data"
      "take n data = data \<or> failed_last k fd cs"
      unfolding sent_prefix_def by blast
    with again show ?thesis unfolding sent_prefix_def
      by (intro exI [of _ n] exI [of _ "?p # cs"]) (auto dest: failed_last_Cons)
  next
    case stop
    with eq have "h' = h @ [?p]" by (auto simp: sys_def eintr_def split: if_splits)
    moreover from stop have "failed_last k fd [?p]" by (auto simp: failed_last_def)
    ultimately show ?thesis using stop unfolding sent_prefix_def
      by (intro exI [of _ 0] exI [of _ "[?p]"]) auto
  next
    case more
    let ?m = "nat (rv ?r)"
    from more eq have le: "?m \<le> length data" and "f k fd (drop ?m data) (h @ [?p]) = Some h'"
      by (auto simp: sys_def split: if_splits)
    from IH [OF this(2)] obtain n cs where *: "h' = (h @ [?p]) @ cs" "only_sends fd cs" "wire fd cs = take n (drop ?m data)"
      "take n (drop ?m data) = drop ?m data \<or> failed_last k fd cs"
      unfolding sent_prefix_def by blast
    have "wire fd (?p # cs) = take (?m + n) data"
      using more * by (simp add: take_add)
    moreover have "take n (drop ?m data) = drop ?m data \<Longrightarrow> take (?m + n) data = data"
      by (simp add: take_add)
    ultimately show ?thesis using * unfolding sent_prefix_def
      by (intro exI [of _ "?m + n"] exI [of _ "?p # cs"]) (auto dest: failed_last_Cons)
  qed
qed

text \<open>
  A peer that reads: the only failure of \<open>send\<close> is an interrupted call. Then \<open>send_all\<close> puts
  the whole data on the wire.
\<close>

definition send_reliable :: "kernel \<Rightarrow> bool" where
  "send_reliable k \<longleftrightarrow> send_bounded k \<and> send_responsive k \<and>
     (\<forall>h fd d. d \<noteq> [] \<longrightarrow> rv (k h (Send fd d)) \<le> 0 \<longrightarrow> eintr k h (Send fd d))"

lemma send_all_reliable:
  assumes "send_reliable k"
  shows "\<exists>cs. send_all k fd data h = Some (h @ cs) \<and> only_sends fd cs \<and> wire fd cs = data"
proof -
  from assms obtain h' where h': "send_all k fd data h = Some h'"
    using send_all_returns unfolding send_reliable_def by blast
  from send_all_prefix [OF this] obtain n cs where
    cs: "h' = h @ cs" "only_sends fd cs" "wire fd cs = take n data" "take n data = data \<or> failed_last k fd cs"
    unfolding sent_prefix_def by blast
  from assms have "\<not> failed_last k fd cs" unfolding send_reliable_def failed_last_def by blast
  with cs h' show ?thesis by auto
qed

lemma only_sends_wire_other: "only_sends fd cs \<Longrightarrow> fd' \<noteq> fd \<Longrightarrow> wire fd' cs = []"
  by (induction fd' cs rule: wire.induct) auto

section \<open>Properties\<close>

lemma k_chunk_reliable: "0 < n \<Longrightarrow> send_reliable (k_chunk n)"
  by (auto simp: send_reliable_def send_bounded_def send_responsive_def eintr_def k_chunk_def
      intro!: exI [of _ 0])

text \<open>C19: \<open>send_all\<close> returns whenever the kernel keeps to the documented behaviour of \<open>send\<close>; what
  reached the peer is a prefix of the data, nothing else was called, and the prefix is the whole
  data unless the last call failed with something other than \<open>EINTR\<close>.\<close>
theorem send_all_correct:
  assumes "send_bounded k" and "send_responsive k"
  shows "\<exists>h'. send_all k fd data h = Some h' \<and> sent_prefix k fd data h h'"
  using send_all_returns [OF assms] send_all_prefix by blast

lemma send_all_correct_witness:
  "\<exists>h'. send_all (k_chunk 3) 5 [1, 2, 3, 4, 5] [] = Some h' \<and> sent_prefix (k_chunk 3) 5 [1, 2, 3, 4, 5] [] h'"
  by (rule send_all_correct) (use k_chunk_reliable [of 3] in \<open>simp_all add: send_reliable_def\<close>)

text \<open>
  A peer that stops reading: the first \<open>send\<close> takes \<open>n\<close> bytes, the second finds the socket
  buffer full (the sockets are non-blocking), later ones take everything.
\<close>

definition k_stall :: "nat \<Rightarrow> kernel" where
  "k_stall n h c =
     (if length h = 0 then ok_reply (int n)
      else if length h = 1 then (ok_reply (- 1))\<lparr>err := EAGAIN\<rparr>
      else ok_reply (case c of Send fd d \<Rightarrow> int (length d) | _ \<Rightarrow> 0))"

text \<open>C20: On an interleaved track a full socket buffer cuts a frame in the middle: the rest of the frame
  is dropped and the next frame follows directly, so the peer takes the beginning of the second
  frame for the end of the first.\<close>
theorem track_send_stall_splices:
  assumes "interleaved t" and "0 < n" and "n < 4 + length a"
    and "length a \<le> 1212" and "length b \<le> 1212"
  shows "\<exists>h1 h2. track_send (k_stall n) c t False a [] = Some h1 \<and> track_send (k_stall n) c t False b h1 = Some h2 \<and>
           wire (tcp_fd c) h2 = take n (track_frame t False a) @ track_frame t False b"
proof -
  let ?k = "k_stall n" and ?fd = "tcp_fd c" and ?A = "track_frame t False a" and ?B = "track_frame t False b"
  have la: "length ?A = 4 + length a" by (simp add: track_frame_def)
  then have ne: "?A \<noteq> []" "drop n ?A \<noteq> []" "?B \<noteq> []" using assms(3) by (auto simp: track_frame_def)
  define h0 where "h0 = sys_h ?k (Send ?fd ?A) []"
  define h1 where "h1 = sys_h ?k (Send ?fd (drop n ?A)) h0"
  define h2 where "h2 = sys_h ?k (Send ?fd ?B) h1"
  have "send_all ?k ?fd ?A [] = send_all ?k ?fd (drop n ?A) h0"
    using ne assms(2,3) la by (simp add: send_all_more k_stall_def h0_def)
  also have "\<dots> = Some h1"
    unfolding h1_def using ne
    by (intro send_all_done) (simp_all add: h0_def k_stall_def sys_h_def sys_def eintr_def EAGAIN_def EINTR_def)
  finally have "track_send ?k c t False a [] = Some h1" using assms by (simp add: track_send_def RTP_MAX_PAYLOAD_def)
  moreover have "send_all ?k ?fd ?B h1 = Some h2"
    using ne by (simp add: send_all_more k_stall_def h0_def h1_def h2_def sys_h_def sys_def)
  then have "track_send ?k c t False b h1 = Some h2" using assms by (simp add: track_send_def RTP_MAX_PAYLOAD_def)
  moreover have "wire ?fd h2 = take n ?A @ ?B"
    using assms(2) ne(3) by (simp add: h0_def h1_def h2_def k_stall_def sys_h_def sys_def EAGAIN_def)
  ultimately show ?thesis by blast
qed

lemma track_send_stall_splices_witness:
  "\<exists>h1 h2. track_send (k_stall 6) (client_init\<lparr>tcp_fd := 9\<rparr>) (track0\<lparr>interleaved := True\<rparr>) False [1, 2, 3, 4] [] = Some h1 \<and>
     track_send (k_stall 6) (client_init\<lparr>tcp_fd := 9\<rparr>) (track0\<lparr>interleaved := True\<rparr>) False [5, 6] h1 = Some h2 \<and>
     wire (tcp_fd (client_init\<lparr>tcp_fd := 9\<rparr>)) h2 =
       take 6 (track_frame (track0\<lparr>interleaved := True\<rparr>) False [1, 2, 3, 4]) @ track_frame (track0\<lparr>interleaved := True\<rparr>) False [5, 6]"
  by (rule track_send_stall_splices) simp_all

end
