(* ===== verification/Rtp.thy ===== *)
theory Rtp
  imports Rtsp_Io
begin

text \<open>
  RTP packetisation in \<open>majestic/rtsp_server.c\<close>: the 12-byte header (\<open>rtp_send\<close>), the RTCP BYE
  (\<open>send_bye\<close>), the media clock, and an H.264 NAL unit as one packet or as FU-A fragments
  (\<open>send_video_nal\<close>). Against it stand an abstract packet list, which the code is shown to
  send in order, and a reference receiver, which recovers the NAL unit from the payloads.
\<close>

definition FU_A_DATA :: nat where "FU_A_DATA = RTP_MAX_PAYLOAD - 2"
definition PT_H264 :: u8 where "PT_H264 = 96"
definition PT_METADATA :: u8 where "PT_METADATA = 107"
definition METADATA_INTERVAL_US :: u64 where "METADATA_INTERVAL_US = 1000000"
definition NAL_SEI :: u8 where "NAL_SEI = 6"
definition NAL_SPS :: u8 where "NAL_SPS = 7"
definition NAL_PPS :: u8 where "NAL_PPS = 8"
definition NAL_FU_A :: u8 where "NAL_FU_A = 28"

lemmas rtp_consts = FU_A_DATA_def PT_H264_def PT_METADATA_def METADATA_INTERVAL_US_def
  NAL_SEI_def NAL_SPS_def NAL_PPS_def NAL_FU_A_def

section \<open>Packets\<close>

definition rtp_header :: "rtsp_track \<Rightarrow> u8 \<Rightarrow> bool \<Rightarrow> u32 \<Rightarrow> u8 list" where
  "rtp_header t pt marker ts =
     [0x80, (if marker then 0x80 else 0) OR pt] @ be16 (rtp_seq t) @ be32 ts @ be32 (ssrc t)"

text \<open>
  The packet buffer holds 12 + 1200 bytes; a longer payload would be copied past its end.
\<close>

definition rtp_send ::
  "kernel \<Rightarrow> rtsp_client \<Rightarrow> rtsp_track \<Rightarrow> u8 \<Rightarrow> bool \<Rightarrow> u32 \<Rightarrow> u8 list \<Rightarrow> u8 list \<Rightarrow> hist
     \<Rightarrow> (rtsp_track \<times> hist) option" where
  "rtp_send k c t pt marker ts pfx payload h =
     (if length pfx + length payload > RTP_MAX_PAYLOAD then None
      else do {
        let pkt = rtp_header t pt marker ts @ pfx @ payload;
        let t = t\<lparr>rtp_seq := rtp_seq t + 1\<rparr>;
        h \<leftarrow> track_send k c t False pkt h;
        Some (t, h)
      })"

definition bye_packet :: "rtsp_track \<Rightarrow> u8 list" where
  "bye_packet t = [0x81, 0xcb, 0x00, 0x05] @ be32 (ssrc t) @ [13] @ bytes_of ''session ended'' @ [0, 0]"

definition send_bye :: "kernel \<Rightarrow> rtsp_client \<Rightarrow> rtsp_track \<Rightarrow> hist \<Rightarrow> hist option" where
  "send_bye k c t h = track_send k c t True (bye_packet t) h"

text \<open>The 90 kHz media clock of a microsecond time stamp, in 64-bit arithmetic and cut to 32 bits.\<close>

definition media_ts :: "u64 \<Rightarrow> u32 \<Rightarrow> u32" where
  "media_ts us base = ucast ((us + ucast base) * 9 div 100)"

section \<open>One NAL unit\<close>

definition nal_type :: "u8 list \<Rightarrow> u8" where
  "nal_type nal = nal ! 0 AND 0x1f"

definition fu_indicator :: "u8 list \<Rightarrow> u8" where
  "fu_indicator nal = (nal ! 0 AND 0xe0) OR NAL_FU_A"

text \<open>
  The fragmentation loop: \<open>off\<close> runs from 1 in steps of \<open>FU_A_DATA\<close>; \<open>fu1\<close> is the second
  byte of the FU header, whose start bit is set on entry and cleared after the first packet,
  and whose end bit is set for the last chunk.
\<close>

function fu_loop ::
  "kernel \<Rightarrow> rtsp_client \<Rightarrow> u8 list \<Rightarrow> u32 \<Rightarrow> bool \<Rightarrow> nat \<Rightarrow> u8 \<Rightarrow> rtsp_track \<Rightarrow> hist
     \<Rightarrow> (rtsp_track \<times> hist) option" where
  "fu_loop k c nal ts is_last off fu1 t h =
     (if off < length nal then
        let chunk = (if length nal - off < FU_A_DATA then length nal - off else FU_A_DATA);
            fin = (off + chunk = length nal);
            fu1 = (if fin then fu1 OR 0x40 else fu1)
        in (case rtp_send k c t PT_H264 (is_last \<and> fin) ts [fu_indicator nal, fu1]
                   (take chunk (drop off nal)) h of
              None \<Rightarrow> None
            | Some (t, h) \<Rightarrow> fu_loop k c nal ts is_last (off + FU_A_DATA) (fu1 AND 0x7f) t h)
      else Some (t, h))"
  by pat_completeness auto
termination
  by (relation "measure (\<lambda>(k, c, nal, ts, is_last, off, fu1, t, h). length nal - off)")
     (auto simp: FU_A_DATA_def RTP_MAX_PAYLOAD_def)

declare fu_loop.simps [simp del]

definition send_video_nal ::
  "kernel \<Rightarrow> rtsp_client \<Rightarrow> u8 list \<Rightarrow> u32 \<Rightarrow> bool \<Rightarrow> hist \<Rightarrow> (rtsp_client \<times> hist) option" where
  "send_video_nal k c nal ts is_last h =
     (let t = tracks c ! RTSP_TRACK_VIDEO in
      do {
        (t, h) \<leftarrow> (if length nal \<le> RTP_MAX_PAYLOAD
                   then rtp_send k c t PT_H264 is_last ts [] nal h
                   else fu_loop k c nal ts is_last 1 (0x80 OR nal_type nal) t h);
        Some (c\<lparr>tracks := (tracks c)[RTSP_TRACK_VIDEO := t]\<rparr>, h)
      })"

section \<open>The abstract packet list\<close>

text \<open>The payloads a NAL unit is cut into, with the marker bit of each.\<close>

fun chunks :: "nat \<Rightarrow> 'a list \<Rightarrow> 'a list list" where
  "chunks n [] = []"
| "chunks n (x # xs) = (if n = 0 then [x # xs] else take n (x # xs) # chunks n (drop n (x # xs)))"

definition fu_payload :: "u8 list \<Rightarrow> bool \<Rightarrow> bool \<Rightarrow> u8 list \<Rightarrow> u8 list" where
  "fu_payload nal start fin chunk =
     [fu_indicator nal,
      (if start then 0x80 else 0) OR (if fin then 0x40 else 0) OR nal_type nal] @ chunk"

fun fu_payloads :: "u8 list \<Rightarrow> bool \<Rightarrow> u8 list list \<Rightarrow> u8 list list" where
  "fu_payloads nal start [] = []"
| "fu_payloads nal start (c # cs) = fu_payload nal start (cs = []) c # fu_payloads nal False cs"

definition nal_payloads :: "u8 list \<Rightarrow> u8 list list" where
  "nal_payloads nal =
     (if length nal \<le> RTP_MAX_PAYLOAD then [nal]
      else fu_payloads nal True (chunks FU_A_DATA (drop 1 nal)))"

text \<open>
  Sending a list of payloads as consecutive packets of one access-unit part: the marker only on
  the last, and only when asked for.
\<close>

fun send_payloads ::
  "kernel \<Rightarrow> rtsp_client \<Rightarrow> u32 \<Rightarrow> bool \<Rightarrow> u8 list list \<Rightarrow> rtsp_track \<Rightarrow> hist
     \<Rightarrow> (rtsp_track \<times> hist) option" where
  "send_payloads k c ts is_last [] t h = Some (t, h)"
| "send_payloads k c ts is_last (p # ps) t h =
     do {
       h \<leftarrow> track_send k c t False (rtp_header t PT_H264 (is_last \<and> ps = []) ts @ p) h;
       send_payloads k c ts is_last ps (t\<lparr>rtp_seq := rtp_seq t + 1\<rparr>) h
     }"

section \<open>The receiver\<close>

text \<open>
  A receiver for single NAL unit packets and FU-A fragments (RFC 6184): the NAL units completed
  so far and the fragments of the one in progress.
\<close>

definition receive :: "u8 list list \<times> u8 list option \<Rightarrow> u8 list \<Rightarrow> u8 list list \<times> u8 list option" where
  "receive st p =
     (let (out, cur) = st in
      if p = [] then st
      else if nal_type p \<noteq> NAL_FU_A then (out @ [p], None)
      else if length p < 2 then (out, None)
      else
        let cur = (if bit (p ! 1) 7 then Some [(p ! 0 AND 0xe0) OR (p ! 1 AND 0x1f)] else cur) in
        case cur of
          None \<Rightarrow> (out, None)
        | Some acc \<Rightarrow>
            let acc = acc @ drop 2 p in
            if bit (p ! 1) 6 then (out @ [acc], None) else (out, Some acc))"

definition receive_all :: "u8 list list \<Rightarrow> u8 list list" where
  "receive_all ps = fst (foldl receive ([], None) ps)"


section \<open>Library: chunks and header bits\<close>

lemma chunks_eq_Nil [simp]: "chunks n xs = [] \<longleftrightarrow> xs = []"
  by (cases xs) auto

lemma chunks_unfold: "xs \<noteq> [] \<Longrightarrow> 0 < n \<Longrightarrow> chunks n xs = take n xs # chunks n (drop n xs)"
  by (cases xs) auto

lemma concat_chunks [simp]: "0 < n \<Longrightarrow> concat (chunks n xs) = xs"
  by (induction n xs rule: chunks.induct) auto

lemma chunks_length: "0 < n \<Longrightarrow> c \<in> set (chunks n xs) \<Longrightarrow> 0 < length c \<and> length c \<le> n"
  by (induction n xs rule: chunks.induct) auto

lemma nal_type_mask: "nal_type nal = take_bit 5 (nal ! 0)"
proof -
  have "(0x1f :: u8) = mask 5" by (simp add: mask_eq_exp_minus_1)
  then show ?thesis by (simp add: nal_type_def take_bit_eq_mask)
qed

lemma bit_nal_type: "bit (nal_type nal) i \<longleftrightarrow> i < 5 \<and> bit (nal ! 0) i"
  by (simp add: nal_type_mask bit_simps)

lemma bit_e0: "bit (0xe0 :: u8) i \<longleftrightarrow> i \<in> {5, 6, 7}"
proof -
  have "i < 8 \<Longrightarrow> bit (0xe0 :: u8) i \<longleftrightarrow> i \<in> {5, 6, 7}"
    by (simp add: less_Suc_eq numeral_eq_Suc) auto
  then show ?thesis using bit_imp_le_length [of "0xe0 :: u8" i] by fastforce
qed

lemma bit_1f: "bit (0x1f :: u8) i \<longleftrightarrow> i \<in> {0, 1, 2, 3, 4}"
proof -
  have "i < 8 \<Longrightarrow> bit (0x1f :: u8) i \<longleftrightarrow> i \<in> {0, 1, 2, 3, 4}"
    by (simp add: less_Suc_eq numeral_eq_Suc) auto
  then show ?thesis using bit_imp_le_length [of "0x1f :: u8" i] by fastforce
qed

lemma bit_80: "bit (0x80 :: u8) i \<longleftrightarrow> i = 7"
proof -
  have "i < 8 \<Longrightarrow> bit (0x80 :: u8) i \<longleftrightarrow> i = 7"
    by (simp add: less_Suc_eq numeral_eq_Suc) auto
  then show ?thesis using bit_imp_le_length [of "0x80 :: u8" i] by fastforce
qed

lemma bit_40: "bit (0x40 :: u8) i \<longleftrightarrow> i = 6"
proof -
  have "i < 8 \<Longrightarrow> bit (0x40 :: u8) i \<longleftrightarrow> i = 6"
    by (simp add: less_Suc_eq numeral_eq_Suc) auto
  then show ?thesis using bit_imp_le_length [of "0x40 :: u8" i] by fastforce
qed

lemma bit_7f: "bit (0x7f :: u8) i \<longleftrightarrow> i \<in> {0, 1, 2, 3, 4, 5, 6}"
proof -
  have "i < 8 \<Longrightarrow> bit (0x7f :: u8) i \<longleftrightarrow> i \<in> {0, 1, 2, 3, 4, 5, 6}"
    by (simp add: less_Suc_eq numeral_eq_Suc) auto
  then show ?thesis using bit_imp_le_length [of "0x7f :: u8" i] by fastforce
qed

lemma bit_28: "bit (28 :: u8) i \<longleftrightarrow> i \<in> {2, 3, 4}"
proof -
  have "i < 8 \<Longrightarrow> bit (28 :: u8) i \<longleftrightarrow> i \<in> {2, 3, 4}"
    by (simp add: less_Suc_eq numeral_eq_Suc) auto
  then show ?thesis using bit_imp_le_length [of "28 :: u8" i] by fastforce
qed


lemmas byte_bits = bit_e0 bit_1f bit_80 bit_40 bit_7f bit_28

text \<open>The second FU byte, as the loop computes it and as the receiver reads it.\<close>

lemma fu_byte_bits:
  "bit ((if st then 0x80 else 0) OR (if fin then 0x40 else 0) OR nal_type nal) 7 = st"
  "bit ((if st then 0x80 else 0) OR (if fin then 0x40 else 0) OR nal_type nal) 6 = fin"
  by (auto simp: bit_simps byte_bits bit_nal_type simp del: bit_numeral_word_iff)

lemma fu_byte_type:
  "((if st then 0x80 else 0) OR (if fin then 0x40 else 0) OR nal_type nal) AND 0x1f = nal_type nal"
  by (rule bit_word_eqI) (auto simp: bit_simps byte_bits bit_nal_type simp del: bit_numeral_word_iff)

lemma fu_byte_clear: "((if st then 0x80 else 0) OR nal_type nal) AND 0x7f = nal_type nal"
  by (rule bit_word_eqI) (auto simp: bit_simps byte_bits bit_nal_type simp del: bit_numeral_word_iff)

lemma fu_header_back: "(fu_indicator nal AND 0xe0) OR nal_type nal = nal ! 0"
proof (rule bit_word_eqI)
  fix i assume "i < LENGTH(8)"
  then have "i \<in> {0, 1, 2, 3, 4} \<or> i \<in> {5, 6, 7}" by auto
  then show "bit ((fu_indicator nal AND 0xe0) OR nal_type nal) i = bit (nal ! 0) i"
    by (auto simp: fu_indicator_def NAL_FU_A_def bit_simps byte_bits bit_nal_type simp del: bit_numeral_word_iff)
qed

lemma fu_indicator_type: "fu_indicator nal AND 0x1f = NAL_FU_A"
  unfolding fu_indicator_def NAL_FU_A_def
  by (rule bit_word_eqI) (auto simp: bit_simps byte_bits simp del: bit_numeral_word_iff)

section \<open>The code sends the abstract packets\<close>

text \<open>What a packet looks like does not depend on the sequence number the track holds afterwards.\<close>

lemma track_send_seq [simp]: "track_send k c (t\<lparr>rtp_seq := n\<rparr>) r d h = track_send k c t r d h"
  by (simp add: track_send_def track_frame_def)

lemma rtp_send_fits:
  "length pfx + length payload \<le> RTP_MAX_PAYLOAD \<Longrightarrow>
     rtp_send k c t pt m ts pfx payload h =
       map_option (\<lambda>h. (t\<lparr>rtp_seq := rtp_seq t + 1\<rparr>, h))
         (track_send k c t False (rtp_header t pt m ts @ pfx @ payload) h)"
  by (simp add: rtp_send_def Let_def map_option_case Option.bind_def split: option.splits)

lemma fu_loop_payloads:
  "1 \<le> off \<Longrightarrow> fu1 = (if st then 0x80 else 0) OR nal_type nal \<Longrightarrow>
     fu_loop k c nal ts is_last off fu1 t h =
       send_payloads k c ts is_last (fu_payloads nal st (chunks FU_A_DATA (drop off nal))) t h"
proof (induction k c nal ts is_last off fu1 t h arbitrary: st rule: fu_loop.induct)
  case (1 k c nal ts is_last off fu1 t h)
  show ?case
  proof (cases "off < length nal")
    case False
    then show ?thesis by (simp add: fu_loop.simps)
  next
    case True
    define chunk where "chunk = (if length nal - off < FU_A_DATA then length nal - off else FU_A_DATA)"
    define fin where "fin = (off + chunk = length nal)"
    define fu2 where "fu2 = (if fin then fu1 OR 0x40 else fu1)"
    have pos: "0 < FU_A_DATA" by (simp add: FU_A_DATA_def RTP_MAX_PAYLOAD_def)
    have tk: "take chunk (drop off nal) = take FU_A_DATA (drop off nal)"
      by (simp add: chunk_def)
    have fin: "fin \<longleftrightarrow> chunks FU_A_DATA (drop (off + FU_A_DATA) nal) = []"
      using True pos by (auto simp: fin_def chunk_def)
    have fu2: "fu2 = (if st then 0x80 else 0) OR (if fin then 0x40 else 0) OR nal_type nal"
      by (simp add: fu2_def "1.prems"(2) or.commute or.left_commute)
    have fits: "length [fu_indicator nal, fu2] + length (take chunk (drop off nal)) \<le> RTP_MAX_PAYLOAD"
      by (simp add: chunk_def FU_A_DATA_def RTP_MAX_PAYLOAD_def)
    have ch: "chunks FU_A_DATA (drop off nal) =
        take FU_A_DATA (drop off nal) # chunks FU_A_DATA (drop (off + FU_A_DATA) nal)"
      using True pos by (simp add: chunks_unfold add.commute)
    have step: "fu_loop k c nal ts is_last off fu1 t h =
        (case rtp_send k c t PT_H264 (is_last \<and> fin) ts [fu_indicator nal, fu2] (take chunk (drop off nal)) h of
           None \<Rightarrow> None
         | Some (t, h) \<Rightarrow> fu_loop k c nal ts is_last (off + FU_A_DATA) (fu2 AND 0x7f) t h)"
      unfolding fu2_def fin_def chunk_def using True by (subst fu_loop.simps) (simp only: Let_def if_True)
    have IH: "fu_loop k c nal ts is_last (off + FU_A_DATA) (fu2 AND 0x7f) t' h' =
        send_payloads k c ts is_last (fu_payloads nal False (chunks FU_A_DATA (drop (off + FU_A_DATA) nal))) t' h'"
      if "rtp_send k c t PT_H264 (is_last \<and> fin) ts [fu_indicator nal, fu2] (take chunk (drop off nal)) h = Some (t', h')"
      for t' h'
    proof (cases fin)
      case True
      then have "\<not> off + FU_A_DATA < length nal" using fin by simp
      then show ?thesis by (simp add: fu_loop.simps)
    next
      case False
      then have "fu2 AND 0x7f = (if False then 0x80 else 0) OR nal_type nal"
        using fu_byte_clear [of st nal] by (simp add: fu2)
      then show ?thesis
        using "1.IH" [OF True chunk_def fin_def fu2_def that refl, of False] "1.prems"(1) by simp
    qed
    let ?pkt = "rtp_header t PT_H264 (is_last \<and> fin) ts @ [fu_indicator nal, fu2] @ take chunk (drop off nal)"
    let ?rest = "chunks FU_A_DATA (drop (off + FU_A_DATA) nal)"
    note rs = rtp_send_fits [OF fits, of k c t PT_H264 "is_last \<and> fin" ts h]
    have pay: "fu_payload nal st fin (take FU_A_DATA (drop off nal)) = [fu_indicator nal, fu2] @ take chunk (drop off nal)"
      by (simp add: fu_payload_def fu2 tk)
    have last: "fu_payloads nal False ?rest = [] \<longleftrightarrow> fin"
      using fin by (cases ?rest) auto
    have rhs: "send_payloads k c ts is_last (fu_payloads nal st (chunks FU_A_DATA (drop off nal))) t h =
        (case track_send k c t False ?pkt h of None \<Rightarrow> None
         | Some h \<Rightarrow> send_payloads k c ts is_last (fu_payloads nal False ?rest) (t\<lparr>rtp_seq := rtp_seq t + 1\<rparr>) h)"
      unfolding ch fu_payloads.simps send_payloads.simps fin [symmetric] last pay
      by (cases "track_send k c t False ?pkt h") simp_all
    show ?thesis
    proof (cases "track_send k c t False ?pkt h")
      case None
      then show ?thesis unfolding step rhs rs by simp
    next
      case (Some h')
      then have "fu_loop k c nal ts is_last (off + FU_A_DATA) (fu2 AND 0x7f) (t\<lparr>rtp_seq := rtp_seq t + 1\<rparr>) h' =
          send_payloads k c ts is_last (fu_payloads nal False ?rest) (t\<lparr>rtp_seq := rtp_seq t + 1\<rparr>) h'"
        by (intro IH) (simp add: rs)
      with Some show ?thesis unfolding step rhs rs by simp
    qed
  qed
qed


lemma send_video_nal_payloads:
  "send_video_nal k c nal ts is_last h =
     map_option (\<lambda>(t, h). (c\<lparr>tracks := (tracks c)[RTSP_TRACK_VIDEO := t]\<rparr>, h))
       (send_payloads k c ts is_last (nal_payloads nal) (tracks c ! RTSP_TRACK_VIDEO) h)"
proof -
  have "(0x80 :: u8) OR nal_type nal = (if True then 0x80 else 0) OR nal_type nal" by simp
  note fu_loop_payloads [OF order_refl this]
  then show ?thesis
    by (auto simp: send_video_nal_def Let_def nal_payloads_def rtp_send_fits map_option_case
        Option.bind_def split: option.splits)
qed

section \<open>The receiver recovers the NAL unit\<close>

lemma receive_single:
  "nal \<noteq> [] \<Longrightarrow> nal_type nal \<noteq> NAL_FU_A \<Longrightarrow> receive (out, cur) nal = (out @ [nal], None)"
  by (simp add: receive_def)

lemma receive_fu:
  "receive (out, cur) (fu_payload nal st fin chunk) =
     (case (if st then Some [nal ! 0] else cur) of
        None \<Rightarrow> (out, None)
      | Some acc \<Rightarrow> if fin then (out @ [acc @ chunk], None) else (out, Some (acc @ chunk)))"
proof -
  have type: "nal_type (fu_payload nal st fin chunk) = NAL_FU_A"
    by (simp add: fu_payload_def nal_type_def [of "_ # _"] fu_indicator_type)
  have hdr: "(fu_payload nal st fin chunk ! 0 AND 0xe0) OR (fu_payload nal st fin chunk ! 1 AND 0x1f) = nal ! 0"
    by (simp add: fu_payload_def fu_byte_type fu_header_back)
  have bits: "bit (fu_payload nal st fin chunk ! 1) 7 = st" "bit (fu_payload nal st fin chunk ! 1) 6 = fin"
    by (simp_all only: fu_payload_def nth_append nth_Cons_0 nth_Cons_Suc One_nat_def length_Cons list.size
        fu_byte_bits if_True lessI append_Cons)
  show ?thesis
    unfolding receive_def Let_def prod.case hdr bits type
    by (cases cur) (simp_all add: fu_payload_def)
qed

lemma foldl_receive_fu:
  "cs \<noteq> [] \<Longrightarrow> cur = Some acc \<Longrightarrow>
     foldl receive (out, cur) (fu_payloads nal False cs) = (out @ [acc @ concat cs], None)"
proof (induction cs arbitrary: cur acc)
  case (Cons c cs)
  then show ?case by (cases "cs = []") (simp_all add: receive_fu)
qed simp

lemma receive_nal:
  assumes "nal \<noteq> []" and "nal_type nal \<noteq> NAL_FU_A"
  shows "foldl receive (out, cur) (nal_payloads nal) = (out @ [nal], None)"
proof (cases "length nal \<le> RTP_MAX_PAYLOAD")
  case True
  with assms show ?thesis by (simp add: nal_payloads_def receive_single)
next
  case False
  have pos: "0 < FU_A_DATA" by (simp add: FU_A_DATA_def RTP_MAX_PAYLOAD_def)
  define cs where "cs = chunks FU_A_DATA (drop 1 nal)"
  from False have "cs \<noteq> []" by (auto simp: cs_def RTP_MAX_PAYLOAD_def)
  then obtain c cs' where cs: "cs = c # cs'" by (cases cs) auto
  have all: "nal ! 0 # concat cs = nal"
    using assms(1) pos by (cases nal) (simp_all add: cs_def)
  have "foldl receive (out, cur) (fu_payloads nal True cs) = (out @ [nal ! 0 # concat cs], None)"
    by (cases "cs' = []") (simp_all add: cs receive_fu foldl_receive_fu)
  with False all show ?thesis by (simp add: nal_payloads_def cs_def)
qed

section \<open>Bounds and order of the packets\<close>

lemma fu_payloads_length: "p \<in> set (fu_payloads nal st cs) \<Longrightarrow> \<exists>c \<in> set cs. length p = 2 + length c"
  by (induction nal st cs rule: fu_payloads.induct) (auto simp: fu_payload_def)

lemma nal_payloads_bound: "p \<in> set (nal_payloads nal) \<Longrightarrow> length p \<le> RTP_MAX_PAYLOAD"
proof -
  assume p: "p \<in> set (nal_payloads nal)"
  have pos: "0 < FU_A_DATA" and "2 + FU_A_DATA = RTP_MAX_PAYLOAD"
    by (simp_all add: FU_A_DATA_def RTP_MAX_PAYLOAD_def)
  then show ?thesis
    using p fu_payloads_length [of p nal True "chunks FU_A_DATA (drop 1 nal)"] chunks_length [OF pos]
    by (force simp: nal_payloads_def split: if_splits)
qed

text \<open>The packets of a list of payloads, header included, numbered from the track's counter.\<close>

fun rtp_packets :: "rtsp_track \<Rightarrow> u32 \<Rightarrow> bool \<Rightarrow> u8 list list \<Rightarrow> u8 list list" where
  "rtp_packets t ts is_last [] = []"
| "rtp_packets t ts is_last (p # ps) =
     (rtp_header t PT_H264 (is_last \<and> ps = []) ts @ p) # rtp_packets (t\<lparr>rtp_seq := rtp_seq t + 1\<rparr>) ts is_last ps"

lemma send_payloads_track:
  "send_payloads k c ts is_last ps t h = Some (t', h') \<Longrightarrow>
     t' = t\<lparr>rtp_seq := rtp_seq t + word_of_nat (length ps)\<rparr>"
  by (induction ps arbitrary: t h) (fastforce simp: bind_eq_Some_conv add.assoc)+

lemma send_payloads_udp:
  "\<not> interleaved t \<Longrightarrow>
     \<exists>t' h'. send_payloads k c ts is_last ps t h = Some (t', h') \<and>
       calls h' = calls h @ map (\<lambda>p. Sendto (rtp_fd t) p (rtp_addr t)) (rtp_packets t ts is_last ps)"
proof (induction ps arbitrary: t h)
  case (Cons p ps)
  let ?t = "t\<lparr>rtp_seq := rtp_seq t + 1\<rparr>"
  from Cons.prems have "\<not> interleaved ?t" by simp
  from Cons.IH [OF this] show ?case
    using Cons.prems by (force simp: track_send_def sys_h_def sys_def)
qed simp

lemma length_rtp_header [simp]: "length (rtp_header t pt m ts) = 12"
  by (simp add: rtp_header_def)

lemma nth_rtp_packets:
  "i < length ps \<Longrightarrow> rtp_packets t ts is_last ps ! i =
     rtp_header (t\<lparr>rtp_seq := rtp_seq t + word_of_nat i\<rparr>) PT_H264 (is_last \<and> Suc i = length ps) ts @ ps ! i"
  by (induction ps arbitrary: t i) (auto simp: nth_Cons add.assoc split: nat.splits)

lemma length_rtp_packets [simp]: "length (rtp_packets t ts is_last ps) = length ps"
  by (induction ps arbitrary: t) auto

section \<open>The interleaved stream\<close>

text \<open>A reader of \<open>$\<close>-framed data (RFC 2326, 10.12): channel and content of each complete frame.\<close>

function deframe :: "u8 list \<Rightarrow> (u8 \<times> u8 list) list" where
  "deframe bs =
     (if length bs < 4 \<or> bs ! 0 \<noteq> 0x24 then []
      else let n = unat (get_be16 bs 2) in
        if length bs < 4 + n then []
        else (bs ! 1, take n (drop 4 bs)) # deframe (drop (4 + n) bs))"
  by pat_completeness auto
termination by (relation "measure length") auto

declare deframe.simps [simp del]

lemma be16_split: "n < 65536 \<Longrightarrow> be16 (word_of_nat n) = [word_of_nat (n div 256), word_of_nat n]"
proof -
  assume n: "n < 65536"
  then have "n div 256 < 256" by simp
  then have "drop_bit 8 (word_of_nat n) = (word_of_nat (n div 256) :: u16)"
    using n by (simp add: word_unat_eq_iff unat_drop_bit_eq unat_of_nat drop_bit_nat_def)
  moreover have "ucast (word_of_nat m :: u16) = (word_of_nat m :: u8)" for m
    by (simp add: unsigned_of_nat word_of_nat_eq_iff)
  ultimately show ?thesis by (simp add: be16_def)
qed

lemma deframe_frame:
  assumes "length d < 65536"
  shows "deframe (track_frame t r d @ rest) = (if r then rtcp_channel t else rtp_channel t, d) # deframe rest"
proof -
  have "get_be16 (track_frame t r d @ rest) 2 = get_be16 (be16 (word_of_nat (length d))) 0"
    using assms by (simp add: be16_split get_be16_def track_frame_def)
  then have "get_be16 (track_frame t r d @ rest) 2 = word_of_nat (length d)"
    by (simp add: buf_simps)
  moreover have "unat (word_of_nat (length d) :: u16) = length d"
    using assms by (simp add: unat_of_nat)
  moreover have "length (track_frame t r d) = 4 + length d" by (simp add: track_frame_def)
  then have "drop (4 + length d) (track_frame t r d @ rest) = rest" by simp
  moreover have "track_frame t r d ! 0 = 0x24" "track_frame t r d ! 1 = (if r then rtcp_channel t else rtp_channel t)"
    "drop 4 (track_frame t r d) = d" "length (track_frame t r d) = 4 + length d"
    by (simp_all add: track_frame_def)
  ultimately show ?thesis
    by (subst deframe.simps) (simp add: Let_def nth_append)
qed

lemma deframe_Nil [simp]: "deframe [] = []"
  by (simp add: deframe.simps)

lemma send_payloads_interleaved:
  assumes "send_reliable k" and "interleaved t" and "\<forall>p \<in> set ps. length p \<le> RTP_MAX_PAYLOAD"
  shows "\<exists>t' cs. send_payloads k c ts is_last ps t h = Some (t', h @ cs) \<and> only_sends (tcp_fd c) cs \<and>
     wire (tcp_fd c) cs = concat (map (track_frame t False) (rtp_packets t ts is_last ps))"
  using assms(2,3)
proof (induction ps arbitrary: t h)
  case (Cons p ps)
  let ?t = "t\<lparr>rtp_seq := rtp_seq t + 1\<rparr>"
  let ?pkt = "rtp_header t PT_H264 (is_last \<and> ps = []) ts @ p"
  obtain cs where cs: "send_all k (tcp_fd c) (track_frame t False ?pkt) h = Some (h @ cs)"
    "only_sends (tcp_fd c) cs" "wire (tcp_fd c) cs = track_frame t False ?pkt"
    using send_all_reliable [OF assms(1)] by blast
  have ts: "track_send k c t False ?pkt h = Some (h @ cs)"
    using Cons.prems cs(1) by (simp add: track_send_def RTP_MAX_PAYLOAD_def)
  have "interleaved ?t" "\<forall>p \<in> set ps. length p \<le> RTP_MAX_PAYLOAD" using Cons.prems by auto
  from Cons.IH [OF this, of "h @ cs"] obtain t' cs' where cs':
    "send_payloads k c ts is_last ps ?t (h @ cs) = Some (t', (h @ cs) @ cs')" "only_sends (tcp_fd c) cs'"
    "wire (tcp_fd c) cs' = concat (map (track_frame ?t False) (rtp_packets ?t ts is_last ps))"
    by blast
  have fr: "track_frame ?t False = track_frame t False" by (rule ext) (simp add: track_frame_def)
  show ?case
    using ts cs cs' fr by (intro exI [of _ t'] exI [of _ "cs @ cs'"]) simp
qed simp

lemma deframe_concat:
  "\<forall>d \<in> set ds. length d < 65536 \<Longrightarrow> deframe (concat (map (track_frame t False) ds)) = map (Pair (rtp_channel t)) ds"
  by (induction ds) (simp_all add: deframe_frame)

lemma rtp_packets_length:
  "p \<in> set (rtp_packets t ts is_last ps) \<Longrightarrow> \<exists>q \<in> set ps. length p = 12 + length q"
  by (induction ps arbitrary: t) auto

lemma rtp_packets_payload: "map (drop 12) (rtp_packets t ts is_last ps) = ps"
  by (induction ps arbitrary: t) auto

section \<open>Properties\<close>

text \<open>C16: Over UDP the NAL unit survives packetisation: \<open>send_video_nal\<close> always returns, calls nothing but
  \<open>sendto\<close> on the track's socket to the track's address, no packet exceeds 1212 bytes, and a
  receiver that reassembles the payloads recovers exactly the NAL unit that was sent.\<close>
theorem send_video_nal_udp_round_trip:
  assumes "nal \<noteq> []" and "nal_type nal \<noteq> NAL_FU_A" and "\<not> interleaved (tracks c ! RTSP_TRACK_VIDEO)"
  shows "\<exists>c' h' pkts. send_video_nal k c nal ts is_last h = Some (c', h') \<and>
     calls h' = calls h @ map (\<lambda>p. Sendto (rtp_fd (tracks c ! RTSP_TRACK_VIDEO)) p (rtp_addr (tracks c ! RTSP_TRACK_VIDEO))) pkts \<and>
     receive_all (map (drop 12) pkts) = [nal] \<and> (\<forall>p \<in> set pkts. length p \<le> 1212)"
proof -
  let ?t = "tracks c ! RTSP_TRACK_VIDEO" and ?ps = "nal_payloads nal"
  let ?pkts = "rtp_packets ?t ts is_last ?ps"
  obtain t' h' where "send_payloads k c ts is_last ?ps ?t h = Some (t', h')"
    "calls h' = calls h @ map (\<lambda>p. Sendto (rtp_fd ?t) p (rtp_addr ?t)) ?pkts"
    using send_payloads_udp [OF assms(3)] by blast
  moreover have "receive_all (map (drop 12) ?pkts) = [nal]"
    using receive_nal [OF assms(1,2)] by (simp add: rtp_packets_payload receive_all_def)
  moreover have "\<forall>p \<in> set ?pkts. length p \<le> 1212"
  proof
    fix p assume "p \<in> set ?pkts"
    then obtain q where "q \<in> set ?ps" "length p = 12 + length q" using rtp_packets_length by blast
    with nal_payloads_bound [of q nal] show "length p \<le> 1212" by (simp add: RTP_MAX_PAYLOAD_def)
  qed
  ultimately show ?thesis by (auto simp: send_video_nal_payloads)
qed

lemma send_video_nal_udp_round_trip_witness:
  "\<exists>c' h' pkts. send_video_nal (k_chunk 1) client_init (0x65 # replicate 3000 7) 90 True [] = Some (c', h') \<and>
     calls h' = calls [] @ map (\<lambda>p. Sendto (rtp_fd (tracks client_init ! RTSP_TRACK_VIDEO)) p (rtp_addr (tracks client_init ! RTSP_TRACK_VIDEO))) pkts \<and>
     receive_all (map (drop 12) pkts) = [0x65 # replicate 3000 7] \<and> (\<forall>p \<in> set pkts. length p \<le> 1212)"
  by (rule send_video_nal_udp_round_trip)
     (simp_all add: nal_type_def NAL_FU_A_def client_init_def track0_def RTSP_TRACK_VIDEO_def RTSP_TRACK_COUNT_def)

text \<open>C17: Over an interleaved TCP track, with a peer that keeps reading, the bytes on the wire are complete
  \<open>$\<close> frames on the RTP channel, and a client that deframes and reassembles them recovers exactly
  the NAL unit.\<close>
theorem send_video_nal_tcp_round_trip:
  assumes "send_reliable k" and "nal \<noteq> []" and "nal_type nal \<noteq> NAL_FU_A" and "interleaved (tracks c ! RTSP_TRACK_VIDEO)"
  shows "\<exists>c' cs. send_video_nal k c nal ts is_last h = Some (c', h @ cs) \<and> only_sends (tcp_fd c) cs \<and>
     receive_all (map (drop 12 \<circ> snd) (deframe (wire (tcp_fd c) cs))) = [nal] \<and>
     (\<forall>f \<in> set (deframe (wire (tcp_fd c) cs)). fst f = rtp_channel (tracks c ! RTSP_TRACK_VIDEO))"
proof -
  let ?t = "tracks c ! RTSP_TRACK_VIDEO" and ?ps = "nal_payloads nal"
  let ?pkts = "rtp_packets ?t ts is_last ?ps"
  obtain t' cs where cs: "send_payloads k c ts is_last ?ps ?t h = Some (t', h @ cs)" "only_sends (tcp_fd c) cs"
    "wire (tcp_fd c) cs = concat (map (track_frame ?t False) ?pkts)"
    using send_payloads_interleaved [OF assms(1,4)] nal_payloads_bound by blast
  have "\<forall>p \<in> set ?pkts. length p < 65536"
    using rtp_packets_length nal_payloads_bound [of _ nal] by (fastforce simp: RTP_MAX_PAYLOAD_def)
  from deframe_concat [OF this] have "deframe (wire (tcp_fd c) cs) = map (Pair (rtp_channel ?t)) ?pkts"
    by (simp add: cs)
  moreover have "receive_all (map (drop 12) ?pkts) = [nal]"
    using receive_nal [OF assms(2,3)] by (simp add: rtp_packets_payload receive_all_def)
  ultimately show ?thesis using cs(1,2) by (auto simp: send_video_nal_payloads o_def)
qed

lemma send_video_nal_tcp_round_trip_witness:
  defines "c \<equiv> client_init\<lparr>tcp_fd := 4, tracks := [track0\<lparr>interleaved := True\<rparr>, track0]\<rparr>"
  shows "\<exists>c' cs. send_video_nal (k_chunk 100) c (0x65 # replicate 3000 7) 90 True [] = Some (c', [] @ cs) \<and> only_sends (tcp_fd c) cs \<and>
     receive_all (map (drop 12 \<circ> snd) (deframe (wire (tcp_fd c) cs))) = [0x65 # replicate 3000 7] \<and>
     (\<forall>f \<in> set (deframe (wire (tcp_fd c) cs)). fst f = rtp_channel (tracks c ! RTSP_TRACK_VIDEO))"
  by (rule send_video_nal_tcp_round_trip)
     (simp_all add: k_chunk_reliable nal_type_def NAL_FU_A_def c_def RTSP_TRACK_VIDEO_def)

text \<open>C18: The RTP headers of one NAL unit: over UDP packet \<open>i\<close> carries version 2, payload type 96,
  sequence number \<open>seq + i\<close> modulo \<open>2 ^ 16\<close>, the time stamp and the SSRC in network order, and the marker
  bit exactly on the last packet of the last NAL unit; the track's counter advances by the number
  of packets and nothing else of the client changes.\<close>
theorem send_video_nal_headers:
  assumes "\<not> interleaved t" and "t = tracks c ! RTSP_TRACK_VIDEO"
  shows "\<exists>h' pkts. send_video_nal k c nal ts is_last h =
       Some (c\<lparr>tracks := (tracks c)[RTSP_TRACK_VIDEO := t\<lparr>rtp_seq := rtp_seq t + word_of_nat (length pkts)\<rparr>]\<rparr>, h') \<and>
     calls h' = calls h @ map (\<lambda>p. Sendto (rtp_fd t) p (rtp_addr t)) pkts \<and>
     (\<forall>i < length pkts. take 12 (pkts ! i) =
        [0x80, (if is_last \<and> i + 1 = length pkts then 0x80 else 0) OR 96]
          @ be16 (rtp_seq t + word_of_nat i) @ be32 ts @ be32 (ssrc t))"
proof -
  let ?ps = "nal_payloads nal"
  let ?pkts = "rtp_packets t ts is_last ?ps"
  obtain t' h' where *: "send_payloads k c ts is_last ?ps t h = Some (t', h')"
    "calls h' = calls h @ map (\<lambda>p. Sendto (rtp_fd t) p (rtp_addr t)) ?pkts"
    using send_payloads_udp [OF assms(1)] by blast
  from send_payloads_track [OF this(1)] have t': "t' = t\<lparr>rtp_seq := rtp_seq t + word_of_nat (length ?pkts)\<rparr>" by simp
  have "take 12 (?pkts ! i) =
        [0x80, (if is_last \<and> i + 1 = length ?pkts then 0x80 else 0) OR 96]
          @ be16 (rtp_seq t + word_of_nat i) @ be32 ts @ be32 (ssrc t)" if "i < length ?pkts" for i
    using that by (simp add: nth_rtp_packets rtp_header_def PT_H264_def)
  with * t' assms(2) show ?thesis
    by (intro exI [of _ h'] exI [of _ ?pkts]) (simp add: send_video_nal_payloads)
qed

lemma send_video_nal_headers_witness:
  "\<exists>h' pkts. send_video_nal (k_chunk 1) client_init (0x65 # replicate 3000 7) 90 True [] =
       Some (client_init\<lparr>tracks := (tracks client_init)[RTSP_TRACK_VIDEO := track0\<lparr>rtp_seq := rtp_seq track0 + word_of_nat (length pkts)\<rparr>]\<rparr>, h') \<and>
     calls h' = calls [] @ map (\<lambda>p. Sendto (rtp_fd track0) p (rtp_addr track0)) pkts \<and>
     (\<forall>i < length pkts. take 12 (pkts ! i) =
        [0x80, (if True \<and> i + 1 = length pkts then 0x80 else 0) OR 96]
          @ be16 (rtp_seq track0 + word_of_nat i) @ be32 90 @ be32 (ssrc track0))"
  by (rule send_video_nal_headers) (simp_all add: client_init_def track0_def RTSP_TRACK_VIDEO_def RTSP_TRACK_COUNT_def)

lemma media_ts_nat:
  assumes "(unat us + unat b) * 9 < 2 ^ 64"
  shows "media_ts us b = word_of_nat ((unat us + unat b) * 9 div 100)"
proof -
  have b: "unat (ucast b :: u64) = unat b"
    using unat_u32_less [of b] by (simp add: unsigned_ucast_eq take_bit_nat_eq_self_iff)
  have s: "unat (us + ucast b) = unat us + unat b"
    using assms by (simp add: unat_word_ariths b)
  have "unat ((us + ucast b) * 9) = (unat us + unat b) * 9"
    unfolding unat_word_ariths(2) s using assms by simp
  then have "unat ((us + ucast b) * 9 div 100) = (unat us + unat b) * 9 div 100"
    by (simp add: unat_div)
  then have "word_of_nat ((unat us + unat b) * 9 div 100) = (ucast ((us + ucast b) * 9 div 100) :: u32)"
    by (metis of_nat_unat)
  then show ?thesis by (simp add: media_ts_def)
qed

text \<open>C21: The media clock: as long as nine times the offset time fits in 64 bits (65 thousand years), the
  RTP time stamp is the time in units of 1/90000 second, rounded down and cut to 32 bits, and
  frames 40 ms apart are exactly 3600 ticks apart, across the wrap-around too.\<close>
theorem media_ts_frame_step:
  assumes "(unat us + unat b + 40000) * 9 < 2 ^ 64"
  shows "media_ts us b = word_of_nat ((unat us + unat b) * 9 div 100) \<and> media_ts (us + 40000) b = media_ts us b + 3600"
proof -
  have "unat (us + 40000) = unat us + 40000"
    using assms by (simp add: unat_word_ariths)
  then have "media_ts (us + 40000) b = word_of_nat ((unat us + 40000 + unat b) * 9 div 100)"
    using assms by (subst media_ts_nat) (simp_all add: algebra_simps)
  also have "(unat us + 40000 + unat b) * 9 div 100 = (unat us + unat b) * 9 div 100 + 3600"
    by simp
  finally show ?thesis using assms by (simp add: media_ts_nat algebra_simps)
qed

lemma media_ts_frame_step_witness:
  "media_ts 1000000 0xFFFFFFFF = word_of_nat ((unat (1000000 :: u64) + unat (0xFFFFFFFF :: u32)) * 9 div 100) \<and>
   media_ts (1000000 + 40000) 0xFFFFFFFF = media_ts 1000000 0xFFFFFFFF + 3600"
  by (rule media_ts_frame_step) simp

end
