(* ===== verification/Base64.thy ===== *)
theory Base64
  imports C_Strings
begin

text \<open>
  The Base64 coder of \<open>majestic/rtsp_server.c\<close>: \<open>base64_encode\<close> (parameter sets in the SDP) and
  \<open>base64_decode\<close> (the credentials of the \<open>Authorization\<close> header, into a buffer of \<open>cap\<close>
  bytes), with the length of an encoding and the round trip.
\<close>

definition b64_tab :: string where
  "b64_tab = ''ABCDEFGHIJKLMNOPQRSTUVWXYZabcdefghijklmnopqrstuvwxyz0123456789+/''"

definition b64_char :: "u32 \<Rightarrow> char" where
  "b64_char v = b64_tab ! unat (v AND 0x3f)"

text \<open>One round of the encoder's loop: up to three bytes become four characters.\<close>

fun base64_encode :: "u8 list \<Rightarrow> string" where
  "base64_encode [] = []"
| "base64_encode [a] =
     (let v = push_bit 16 (ucast a) in
      [b64_char (drop_bit 18 v), b64_char (drop_bit 12 v), CHR ''='', CHR ''=''])"
| "base64_encode [a, b] =
     (let v = push_bit 16 (ucast a) OR push_bit 8 (ucast b) in
      [b64_char (drop_bit 18 v), b64_char (drop_bit 12 v), b64_char (drop_bit 6 v), CHR ''=''])"
| "base64_encode (a # b # c # rest) =
     (let v = push_bit 16 (ucast a) OR push_bit 8 (ucast b) OR ucast c in
      [b64_char (drop_bit 18 v), b64_char (drop_bit 12 v), b64_char (drop_bit 6 v), b64_char v]
        @ base64_encode rest)"

text \<open>The index of a character in a string, \<open>None\<close> when it is not there.\<close>

fun index_of :: "string \<Rightarrow> char \<Rightarrow> nat option" where
  "index_of [] c = None"
| "index_of (x # xs) c = (if x = c then Some 0 else map_option Suc (index_of xs c))"

definition b64_val :: "char \<Rightarrow> nat option" where
  "b64_val c = index_of b64_tab c"

text \<open>
  The decoder's loop, with its accumulator, its count of pending bits and the number \<open>n\<close> of
  bytes stored so far: it stops at the end of the string or at padding, skips other characters,
  and stores nothing more once the buffer is full.
\<close>

definition b64_push :: "u32 \<Rightarrow> u32 \<Rightarrow> u32" where
  "b64_push acc v = push_bit 6 acc OR v"

definition b64_out :: "u32 \<Rightarrow> nat \<Rightarrow> char" where
  "b64_out acc bits = char_of (unat (drop_bit bits acc AND 0xff))"

fun b64_loop :: "string \<Rightarrow> u32 \<Rightarrow> nat \<Rightarrow> nat \<Rightarrow> nat \<Rightarrow> string" where
  "b64_loop [] acc bits n cap = []"
| "b64_loop (c # cs) acc bits n cap =
     (if c = CHR ''='' then []
      else case b64_val c of
        None \<Rightarrow> b64_loop cs acc bits n cap
      | Some v \<Rightarrow>
          let acc = b64_push acc (word_of_nat v); bits = bits + 6 in
          if bits \<ge> 8 \<and> n + 1 < cap
          then b64_out acc (bits - 8) # b64_loop cs acc (bits - 8) (n + 1) cap
          else b64_loop cs acc bits n cap)"

definition base64_decode :: "string \<Rightarrow> nat \<Rightarrow> string" where
  "base64_decode inp cap = b64_loop inp 0 0 0 cap"

section \<open>Lengths\<close>

lemma length_base64_encode: "length (base64_encode xs) = 4 * ((length xs + 2) div 3)"
proof (induction xs rule: base64_encode.induct)
  case (4 a b c rest)
  have "(length rest + 5) div 3 = (length rest + 2) div 3 + 1" by simp
  with 4 show ?case by (simp add: Let_def add.commute)
qed (simp_all add: Let_def)

lemma length_b64_loop: "n < cap \<Longrightarrow> n + length (b64_loop cs acc bits n cap) < cap"
  by (induction cs acc bits n cap rule: b64_loop.induct) (fastforce simp: Let_def split: option.splits)+

section \<open>Round trip\<close>

lemma b64_val_tab: "i < 64 \<Longrightarrow> b64_val (b64_tab ! i) = Some i"
proof -
  have "list_all (\<lambda>i. b64_val (b64_tab ! i) = Some i) [0..<64]"
    by (simp add: b64_val_def b64_tab_def upt_conv_Cons)
  then show "i < 64 \<Longrightarrow> ?thesis" by (simp add: list_all_iff)
qed

lemma b64_tab_not_pad: "i < 64 \<Longrightarrow> b64_tab ! i \<noteq> CHR ''=''"
proof -
  have "list_all (\<lambda>i. b64_tab ! i \<noteq> CHR ''='') [0..<64]"
    by (simp add: b64_tab_def upt_conv_Cons)
  then show "i < 64 \<Longrightarrow> ?thesis" by (simp add: list_all_iff)
qed

lemma mask_numerals: "(0x3f :: u32) = mask 6" "(0xff :: u32) = mask 8"
  by (simp_all add: mask_eq_exp_minus_1)

lemma unat_and_63: "unat (v AND 0x3f :: u32) < 64"
proof -
  have "v AND 0x3f = take_bit 6 v" by (simp add: mask_numerals take_bit_eq_mask)
  then show ?thesis using take_bit_nat_less_exp [of 6 "unat v"] by (simp add: unsigned_take_bit_eq)
qed

lemma b64_loop_char:
  "b64_loop (b64_char w # cs) acc bits n cap =
     (let acc = b64_push acc (w AND 0x3f); bits = bits + 6 in
      if bits \<ge> 8 \<and> n + 1 < cap
      then b64_out acc (bits - 8) # b64_loop cs acc (bits - 8) (n + 1) cap
      else b64_loop cs acc bits n cap)"
  using unat_and_63 [of w] by (simp add: b64_char_def b64_val_tab b64_tab_not_pad)

text \<open>The three bytes the decoder cuts out of the four characters of a group.\<close>

lemma b64_byte1:
  fixes a :: u8 and r acc :: u32
  assumes "v = push_bit 16 (ucast a) OR r" and "\<And>i. 16 \<le> i \<Longrightarrow> \<not> bit r i"
  shows "drop_bit 4 (push_bit 6 (push_bit 6 acc OR (drop_bit 18 v AND 0x3f)) OR (drop_bit 12 v AND 0x3f)) AND 0xff = ucast a"
proof (rule bit_word_eqI)
  fix i assume "i < LENGTH(32)"
  consider "i < 2" | "2 \<le> i" "i < 8" | "8 \<le> i" by linarith
  then show "bit (drop_bit 4 (push_bit 6 (push_bit 6 acc OR (drop_bit 18 v AND 0x3f)) OR (drop_bit 12 v AND 0x3f)) AND 0xff) i
      = bit (ucast a :: u32) i"
    using assms(2) unfolding assms(1) mask_numerals by cases (auto simp: bit_simps dest: bit_imp_le_length)
qed

lemma b64_byte2:
  fixes b :: u8 and l r acc :: u32
  assumes "v = l OR push_bit 8 (ucast b) OR r" and "\<And>i. i < 16 \<Longrightarrow> \<not> bit l i" and "\<And>i. 8 \<le> i \<Longrightarrow> \<not> bit r i"
  shows "drop_bit 2 (push_bit 6 (push_bit 6 acc OR (drop_bit 12 v AND 0x3f)) OR (drop_bit 6 v AND 0x3f)) AND 0xff = ucast b"
proof (rule bit_word_eqI)
  fix i assume "i < LENGTH(32)"
  consider "i < 4" | "4 \<le> i" "i < 8" | "8 \<le> i" by linarith
  then show "bit (drop_bit 2 (push_bit 6 (push_bit 6 acc OR (drop_bit 12 v AND 0x3f)) OR (drop_bit 6 v AND 0x3f)) AND 0xff) i
      = bit (ucast b :: u32) i"
    using assms(2,3) unfolding assms(1) mask_numerals by cases (auto simp: bit_simps dest: bit_imp_le_length)
qed

lemma b64_byte3:
  fixes c :: u8 and l acc :: u32
  assumes "v = l OR ucast c" and "\<And>i. i < 8 \<Longrightarrow> \<not> bit l i"
  shows "(push_bit 6 (push_bit 6 acc OR (drop_bit 6 v AND 0x3f)) OR (v AND 0x3f)) AND 0xff = ucast c"
proof (rule bit_word_eqI)
  fix i assume "i < LENGTH(32)"
  consider "i < 6" | "6 \<le> i" "i < 8" | "8 \<le> i" by linarith
  then show "bit ((push_bit 6 (push_bit 6 acc OR (drop_bit 6 v AND 0x3f)) OR (v AND 0x3f)) AND 0xff) i
      = bit (ucast c :: u32) i"
    using assms(2) unfolding assms(1) mask_numerals by cases (auto simp: bit_simps dest: bit_imp_le_length)
qed

lemma unat_ucast_u8_u32 [simp]: "unat (ucast (a :: u8) :: u32) = unat a"
  by (simp add: unsigned_ucast_eq take_bit_nat_eq_self_iff) (use unat_u8_less [of a] in simp)

text \<open>The same three facts on the decoder's accumulator.\<close>

lemma b64_out1:
  fixes a :: u8
  assumes "\<And>i. 16 \<le> i \<Longrightarrow> \<not> bit r i" and "v = push_bit 16 (ucast a) OR r"
  shows "b64_out (b64_push (b64_push acc (drop_bit 18 v AND 0x3f)) (drop_bit 12 v AND 0x3f)) 4 = char_of (unat a)"
  using b64_byte1 [OF assms(2,1)] by (simp only: b64_out_def b64_push_def unat_ucast_u8_u32)

lemma b64_out2:
  fixes b :: u8
  assumes "\<And>i. i < 16 \<Longrightarrow> \<not> bit l i" and "\<And>i. 8 \<le> i \<Longrightarrow> \<not> bit r i" and "v = l OR push_bit 8 (ucast b) OR r"
  shows "b64_out (b64_push (b64_push acc (drop_bit 12 v AND 0x3f)) (drop_bit 6 v AND 0x3f)) 2 = char_of (unat b)"
  using b64_byte2 [OF assms(3,1,2)] by (simp only: b64_out_def b64_push_def unat_ucast_u8_u32)

lemma b64_out3:
  fixes c :: u8
  assumes "\<And>i. i < 8 \<Longrightarrow> \<not> bit l i" and "v = l OR ucast c"
  shows "b64_out (b64_push (b64_push acc (drop_bit 6 v AND 0x3f)) (v AND 0x3f)) 0 = char_of (unat c)"
  using b64_byte3 [OF assms(2,1)] by (simp only: b64_out_def b64_push_def unat_ucast_u8_u32 drop_bit_0 id_apply)

declare b64_loop.simps(2) [simp del]

lemma b64_loop_pad [simp]: "b64_loop (CHR ''='' # cs) acc bits n cap = []"
  by (simp add: b64_loop.simps)

lemma no_low_bits:
  "i < 16 \<Longrightarrow> \<not> bit (push_bit 16 (w :: u32)) i"
  "i < 8 \<Longrightarrow> \<not> bit (push_bit 16 (w :: u32) OR push_bit 8 w') i"
  by (auto simp: bit_simps)

lemma no_high_bits:
  "8 \<le> i \<Longrightarrow> \<not> bit (ucast (c :: u8) :: u32) i"
  "16 \<le> i \<Longrightarrow> \<not> bit (push_bit 8 (ucast (b :: u8) :: u32)) i"
  "16 \<le> i \<Longrightarrow> \<not> bit (push_bit 8 (ucast (b :: u8) :: u32) OR ucast (c :: u8)) i"
  by (auto simp: bit_simps dest: bit_imp_le_length)

lemma b64_loop_encode:
  "n + length xs < cap \<Longrightarrow> b64_loop (base64_encode xs) acc 0 n cap = map (\<lambda>b. char_of (unat b)) xs"
proof (induction xs arbitrary: acc n rule: base64_encode.induct)
  case (2 a)
  have "b64_out (b64_push (b64_push acc (drop_bit 18 v AND 0x3f)) (drop_bit 12 v AND 0x3f)) 4 = char_of (unat a)"
    if "v = push_bit 16 (ucast a)" for v :: u32
    by (rule b64_out1 [of 0]) (simp_all add: that)
  with 2 show ?case by (simp add: b64_loop_char Let_def)
next
  case (3 a b)
  define v :: u32 where "v = push_bit 16 (ucast a) OR push_bit 8 (ucast b)"
  have "b64_out (b64_push (b64_push acc (drop_bit 18 v AND 0x3f)) (drop_bit 12 v AND 0x3f)) 4 = char_of (unat a)"
    by (rule b64_out1 [OF no_high_bits(2) v_def])
  moreover have "b64_out (b64_push (b64_push acc' (drop_bit 12 v AND 0x3f)) (drop_bit 6 v AND 0x3f)) 2 = char_of (unat b)" for acc'
    by (rule b64_out2 [OF no_low_bits(1), of 0]) (simp_all add: v_def)
  ultimately show ?case using 3 by (simp add: b64_loop_char Let_def flip: v_def)
next
  case (4 a b c rest)
  define v :: u32 where "v = push_bit 16 (ucast a) OR push_bit 8 (ucast b) OR ucast c"
  have "b64_out (b64_push (b64_push acc (drop_bit 18 v AND 0x3f)) (drop_bit 12 v AND 0x3f)) 4 = char_of (unat a)"
    by (rule b64_out1 [OF no_high_bits(3) [of _ b c]]) (simp_all add: v_def or.assoc)
  moreover have "b64_out (b64_push (b64_push acc' (drop_bit 12 v AND 0x3f)) (drop_bit 6 v AND 0x3f)) 2 = char_of (unat b)" for acc'
    by (rule b64_out2 [OF no_low_bits(1) [of _ "ucast a"] no_high_bits(1) [of _ c]]) (simp_all add: v_def or.assoc)
  moreover have "b64_out (b64_push (b64_push acc' (drop_bit 6 v AND 0x3f)) (v AND 0x3f)) 0 = char_of (unat c)" for acc'
    by (rule b64_out3 [OF no_low_bits(2) [of _ "ucast a" "ucast b"]]) (simp_all add: v_def or.assoc)
  ultimately show ?case using 4 by (simp add: b64_loop_char Let_def flip: v_def)
qed simp

lemma base64_round_trip:
  "length xs < cap \<Longrightarrow> base64_decode (base64_encode xs) cap = map (\<lambda>b. char_of (unat b)) xs"
  unfolding base64_decode_def by (rule b64_loop_encode) simp

lemma bytes_of_inverse: "map (\<lambda>b. char_of (unat b)) (bytes_of s) = s"
  by (simp add: bytes_of_def o_def)

lemma of_char_char_of_u8 [simp]: "(of_char (char_of (unat b)) :: u8) = b"
proof -
  have "(of_char (char_of (unat b)) :: u8) = word_of_nat (of_char (char_of (unat b) :: char))"
    by (rule of_nat_of_char [symmetric])
  also have "(of_char (char_of (unat b) :: char) :: nat) = unat b"
    using unat_u8_less [of b] by simp
  finally show ?thesis by simp
qed

section \<open>Properties\<close>

text \<open>C22: Decoding is the inverse of encoding: whatever bytes are encoded, decoding into a buffer with room
  for them and a terminator gives them back, and the encoding has the length the callers size
  their buffers for.\<close>
theorem base64_decode_encode:
  assumes "length xs < cap"
  shows "bytes_of (base64_decode (base64_encode xs) cap) = xs \<and> length (base64_encode xs) = 4 * ((length xs + 2) div 3)"
  using base64_round_trip [OF assms] by (simp add: length_base64_encode bytes_of_def o_def)

lemma base64_decode_encode_witness:
  "bytes_of (base64_decode (base64_encode [0, 255, 16, 7]) 128) = [0, 255, 16, 7] \<and>
     length (base64_encode [0, 255, 16, 7]) = 4 * ((length [0, 255, 16, 7 :: u8] + 2) div 3)"
  by (rule base64_decode_encode) simp

end
