(* ===== verification/Rtsp_Request.thy ===== *)
theory Rtsp_Request
  imports Rtp Base64
begin

text \<open>
  Requests in \<open>majestic/rtsp_server.c\<close>: header fields, authentication, sessions, and the handlers of
  the RTSP methods, up to \<open>handle_request\<close> and the loop \<open>drain_requests\<close> that cuts requests out of
  a client's receive buffer. \<open>crypt\<close> (password hashing) is a parameter.
\<close>

definition AUTH_REALM :: string where "AUTH_REALM = ''WallyWorld''"
definition STREAM_SLOTS :: int where "STREAM_SLOTS = 3"

section \<open>Parsing\<close>

text \<open>
  The scan of \<open>header_value\<close>: every line after the first whose name matches without regard to
  case and which goes on with a colon; the value is what follows the blanks, up to the carriage return, at
  most \<open>cap - 1\<close> characters. \<open>None\<close> is the return value 0, which leaves the caller's buffer alone.
\<close>

definition header_matches :: "string \<Rightarrow> string \<Rightarrow> bool" where
  "header_matches p name \<longleftrightarrow>
     caseless_prefix p name \<and> length name < length p \<and> p ! length name = CHR '':''"

function header_value :: "string \<Rightarrow> string \<Rightarrow> nat \<Rightarrow> string option" where
  "header_value req name cap =
     (case strstr req CRLF of
        None \<Rightarrow> None
      | Some line \<Rightarrow>
          let p = drop 2 line in
          if \<not> header_matches p name then header_value p name cap
          else Some (take (cap - 1) (takeWhile (\<lambda>c. c \<noteq> CR)
                 (dropWhile (\<lambda>c. c = CHR '' '') (drop (length name + 1) p)))))"
  by pat_completeness auto
termination
  by (relation "measure (\<lambda>(req, name, cap). length req)")
     (auto dest!: strstr_length)

declare header_value.simps [simp del]

definition field_text :: "string \<Rightarrow> nat \<Rightarrow> string" where
  "field_text s cap = take (cap - 1) (takeWhile (\<lambda>c. c \<noteq> CR) (dropWhile (\<lambda>c. c = CHR '' '') s))"

lemma header_value_step:
  "strstr req CRLF = Some line \<Longrightarrow> header_value req name cap =
     (if header_matches (drop 2 line) name then Some (field_text (drop (length name + 1) (drop 2 line)) cap)
      else header_value (drop 2 line) name cap)"
  by (subst header_value.simps) (simp add: Let_def field_text_def)

lemma header_value_none: "strstr req CRLF = None \<Longrightarrow> header_value req name cap = None"
  by (subst header_value.simps) simp

text \<open>A buffer the caller zeroed before, filled by \<open>header_value\<close>.\<close>

definition header_or_empty :: "string \<Rightarrow> string \<Rightarrow> nat \<Rightarrow> string" where
  "header_or_empty req name cap = (case header_value req name cap of None \<Rightarrow> [] | Some v \<Rightarrow> v)"

definition stream_of :: "string \<Rightarrow> nat" where
  "stream_of uri =
     (let s = (case strstr uri ''stream='' of None \<Rightarrow> 0 | Some p \<Rightarrow> atoi (drop 7 p))
      in if s < 0 \<or> s \<ge> STREAM_SLOTS then 0 else nat s)"

definition stream_enabled :: "rtsp_server \<Rightarrow> nat \<Rightarrow> bool" where
  "stream_enabled srv s \<longleftrightarrow> s < RTSP_STREAM_COUNT \<and> stream_on srv ! s"

section \<open>Authentication\<close>

text \<open>\<open>fgets\<close> with a buffer of 256: the pieces in which a file is read.\<close>

function fgets_lines :: "string \<Rightarrow> string list" where
  "fgets_lines s =
     (if s = [] then []
      else let full = takeWhile (\<lambda>c. c \<noteq> LF) s;
               line = take 255 (if length full < length s then full @ [LF] else full)
           in line # fgets_lines (drop (length line) s))"
  by pat_completeness auto
termination
proof (relation "measure length", goal_cases)
  case (2 s x xa)
  then have "x @ [LF] \<noteq> []" "length x < length s \<or> x \<noteq> []" by (cases s; simp)+
  with 2 have "xa \<noteq> []" by auto
  with 2 show ?case by simp
qed simp

declare fgets_lines.simps [simp del]

text \<open>
  The loop over the lines of the shadow file: the first line that starts with the user name and
  a colon decides. The field after it, up to the next colon, is the hash; an empty field and one
  that starts with \<open>!\<close> or \<open>*\<close> never match.
\<close>

fun shadow_scan :: "(string \<Rightarrow> string \<Rightarrow> string option) \<Rightarrow> string \<Rightarrow> string \<Rightarrow> string list \<Rightarrow> bool" where
  "shadow_scan crypt user pass [] = False"
| "shadow_scan crypt user pass (l # ls) =
     (let line = cstr l in
      if take (length user) line \<noteq> user \<or> drop (length user) line = [] \<or> line ! length user \<noteq> CHR '':''
      then shadow_scan crypt user pass ls
      else let hash = takeWhile (\<lambda>c. c \<noteq> CHR '':'') (drop (length user + 1) line) in
        hash \<noteq> [] \<and> hash ! 0 \<noteq> CHR ''!'' \<and> hash ! 0 \<noteq> CHR ''*'' \<and> crypt pass hash = Some hash)"

definition shadow_matches ::
  "kernel \<Rightarrow> (string \<Rightarrow> string \<Rightarrow> string option) \<Rightarrow> string \<Rightarrow> string \<Rightarrow> hist \<Rightarrow> bool \<times> hist" where
  "shadow_matches k crypt path user_pass h =
     (case strchr user_pass CHR '':'' of
        None \<Rightarrow> (False, h)
      | Some colon \<Rightarrow>
          let user_len = length user_pass - length colon in
          if user_len = 0 then (False, h)
          else let (r, h) = sys k (Slurp path) h in
            (case rtext r of
               None \<Rightarrow> (False, h)
             | Some txt \<Rightarrow> (shadow_scan crypt (take user_len user_pass) (drop 1 colon) (fgets_lines txt), h)))"

definition challenge :: string where
  "challenge = ''WWW-Authenticate: Basic realm='' @ [CHR 0x22] @ AUTH_REALM @ [CHR 0x22] @ CRLF"

definition auth_ok ::
  "kernel \<Rightarrow> (string \<Rightarrow> string \<Rightarrow> string option) \<Rightarrow> rtsp_server \<Rightarrow> rtsp_client \<Rightarrow> string \<Rightarrow> string \<Rightarrow> hist
     \<Rightarrow> (bool \<times> hist) option" where
  "auth_ok k crypt srv c req cseq h =
     (if \<not> auth_enabled srv \<or> loopback c then Some (True, h)
      else case header_value req ''Authorization'' 256 of
        None \<Rightarrow> do { h \<leftarrow> send_reply k c cseq ''401 Authentication required'' challenge h; Some (False, h) }
      | Some auth \<Rightarrow>
          if \<not> starts_with auth ''Basic '' then
            do { h \<leftarrow> send_reply k c cseq ''401 Basic authentication required'' challenge h; Some (False, h) }
          else
            let decoded = cstr (base64_decode (drop 6 auth) 128);
                expected = trunc 80 (auth_user srv @ '':'' @ auth_pass srv);
                (valid, h) = (if shadow_path srv \<noteq> [] then shadow_matches k crypt (shadow_path srv) decoded h
                              else (decoded = expected, h))
            in if \<not> valid then
                 do { h \<leftarrow> send_reply k c cseq ''401 Invalid credentials'' challenge h; Some (False, h) }
               else Some (True, h))"

section \<open>The methods\<close>

definition session_ok ::
  "kernel \<Rightarrow> rtsp_client \<Rightarrow> string \<Rightarrow> string \<Rightarrow> hist \<Rightarrow> (bool \<times> hist) option" where
  "session_ok k c req cseq h =
     (case header_value req ''Session'' 64 of
        None \<Rightarrow> do { h \<leftarrow> send_reply k c cseq (''400 Failed to parse `Session'' @ [CHR 0x27]) [] h; Some (False, h) }
      | Some value \<Rightarrow>
          if \<not> has_session c \<or> strtoul value \<noteq> session_id c then
            do { h \<leftarrow> send_reply k c cseq ''454 Session ID is invalid'' [] h; Some (False, h) }
          else Some (True, h))"

text \<open>\<open>base64_encode\<close> of the first \<open>n\<close> bytes of a 128-byte array into a buffer of 192.\<close>

definition encode_param_set :: "u8 list \<Rightarrow> nat \<Rightarrow> string option" where
  "encode_param_set arr n =
     (if n \<le> length arr \<and> length (base64_encode (take n arr)) < 192 then Some (base64_encode (take n arr)) else None)"

definition hex2 :: "u8 \<Rightarrow> string" where
  "hex2 b = hex_fixed 2 (unat b)"

definition sdp_text :: "rtsp_server \<Rightarrow> nat \<Rightarrow> string \<Rightarrow> string \<Rightarrow> string" where
  "sdp_text srv s sps64 pps64 =
     ''v=0'' @ CRLF @ ''o=OpenIPC 0 0 IN IP4 0.0.0.0'' @ CRLF @ ''s=Majestic'' @ CRLF
       @ ''c=IN IP4 0.0.0.0'' @ CRLF @ ''t=0 0'' @ CRLF
       @ ''m=video 0 RTP/AVP 96'' @ CRLF @ ''a=control:video'' @ CRLF @ ''a=rtpmap:96 H264/90000'' @ CRLF
       @ ''a=fmtp:96 profile-level-id='' @ hex2 (sps srv ! s ! 1) @ hex2 (sps srv ! s ! 2) @ hex2 (sps srv ! s ! 3)
       @ '';packetization-mode=1;sprop-parameter-sets='' @ sps64 @ '','' @ pps64 @ CRLF
       @ ''a=framerate:'' @ dec (unat (fps srv ! s)) @ CRLF
       @ (if s = 0 then ''m=application 0 RTP/AVP 107'' @ CRLF @ ''a=rtpmap:107 vnd.onvif.metadata/90000'' @ CRLF
            @ ''a=control:metadata'' @ CRLF else [])"

definition describe_head :: "string \<Rightarrow> nat \<Rightarrow> string \<Rightarrow> string" where
  "describe_head cseq sdp_len uri =
     ''RTSP/1.0 200 OK'' @ CRLF @ ''CSeq: '' @ cseq @ CRLF @ ''Content-Length: '' @ dec sdp_len @ CRLF
       @ ''Server: '' @ SERVER_NAME @ CRLF @ ''Content-Base: '' @ uri @ CRLF
       @ ''Content-Type: application/sdp'' @ CRLF @ CRLF"

definition handle_describe ::
  "kernel \<Rightarrow> rtsp_server \<Rightarrow> rtsp_client \<Rightarrow> string \<Rightarrow> string \<Rightarrow> hist \<Rightarrow> (bool \<times> hist) option" where
  "handle_describe k srv c uri cseq h =
     (let s = stream_of uri in
      if \<not> stream_enabled srv s then do { h \<leftarrow> send_reply k c cseq ''404 Stream not found'' [] h; Some (True, h) }
      else if sps_len srv ! s = 0 \<or> pps_len srv ! s = 0 then Some (False, h)
      else do {
        sps64 \<leftarrow> encode_param_set (sps srv ! s) (sps_len srv ! s);
        pps64 \<leftarrow> encode_param_set (pps srv ! s) (pps_len srv ! s);
        let sdp = sdp_text srv s sps64 pps64;
        sdp_buf \<leftarrow> fmt_buf 1024 sdp;
        head_buf \<leftarrow> fmt_buf 512 (describe_head cseq (length sdp) uri);
        h \<leftarrow> send_all k (tcp_fd c) (bytes_of head_buf) h;
        h \<leftarrow> send_all k (tcp_fd c) (bytes_of sdp_buf) h;
        Some (True, h)
      })"

text \<open>
  One attempt of \<open>bind_udp_pair\<close>: bind the first socket to a port of the kernel's choice and
  the second to the port after it, in 16-bit arithmetic. The result is the second port.
\<close>

definition bind_try :: "kernel \<Rightarrow> int \<Rightarrow> int \<Rightarrow> hist \<Rightarrow> u16 option \<times> hist" where
  "bind_try k rtp rtcp h =
     (if rtp \<ge> 0 \<and> rtcp \<ge> 0 then
        let (r, h) = sys k (Bind rtp no_addr) h in
        if rv r \<noteq> 0 then (None, h)
        else let (r, h) = sys k (Getsockname rtp) h in
          if rv r \<noteq> 0 then (None, h)
          else let a = (raddr r)\<lparr>sin_port := sin_port (raddr r) + 1\<rparr>;
                   (r, h) = sys k (Bind rtcp a) h
               in if rv r \<noteq> 0 then (None, h) else (Some (sin_port a), h)
      else (None, h))"

fun bind_attempts :: "kernel \<Rightarrow> nat \<Rightarrow> rtsp_track \<Rightarrow> hist \<Rightarrow> int \<times> rtsp_track \<times> hist" where
  "bind_attempts k 0 t h = (-1, t, h)"
| "bind_attempts k (Suc n) t h =
     (let (r1, h) = sys k Socket_dgram h;
          (r2, h) = sys k Socket_dgram h;
          rtp = rv r1; rtcp = rv r2;
          (b, h) = bind_try k rtp rtcp h
      in case b of
           Some p \<Rightarrow> (int (unat p) - 1, t\<lparr>rtp_fd := rtp, rtcp_fd := rtcp\<rparr>, h)
         | None \<Rightarrow> bind_attempts k n t (close_if_open k rtcp (close_if_open k rtp h)))"

definition bind_udp_pair :: "kernel \<Rightarrow> rtsp_track \<Rightarrow> hist \<Rightarrow> int \<times> rtsp_track \<times> hist" where
  "bind_udp_pair k t h = bind_attempts k 16 t h"

definition random_u32 :: "kernel \<Rightarrow> hist \<Rightarrow> u32 \<times> hist" where
  "random_u32 k h =
     (let (a, h) = sys k Random h; (b, h) = sys k Random h
      in (push_bit 16 (word_of_int (rv a)) XOR word_of_int (rv b), h))"

definition now_us :: "kernel \<Rightarrow> hist \<Rightarrow> u64 \<times> hist" where
  "now_us k h = (let (r, h) = sys k Clock_us h in (word_of_int (rv r), h))"

text \<open>The two numbers of a transport parameter: without a second one, the successor of the first.\<close>

definition port_pair :: "string \<Rightarrow> u32 \<times> u32" where
  "port_pair s = (case scan_pair s of (n, a, b) \<Rightarrow> (a, if n < 2 then a + 1 else b))"

definition setup_tail ::
  "kernel \<Rightarrow> rtsp_client \<Rightarrow> nat \<Rightarrow> nat \<Rightarrow> rtsp_track \<Rightarrow> string \<Rightarrow> string \<Rightarrow> hist \<Rightarrow> (rtsp_client \<times> hist) option" where
  "setup_tail k c s ti t reply_transport cseq h =
     (let (id, h) = random_u32 k h;
          t = t\<lparr>active := True, ssrc := id, rtp_seq := 0\<rparr>;
          c = c\<lparr>tracks := (tracks c)[ti := t], stream_id := s\<rparr>;
          (c, h) = (if has_session c then (c, h)
                    else let (r, h) = sys k Random h
                         in (c\<lparr>has_session := True, session_id := word_of_int (rv r) AND 0x7fffffff\<rparr>, h));
          extra = trunc 256 (''Transport: '' @ reply_transport @ CRLF @ ''Session: '' @ dec (unat (session_id c))
                    @ '';timeout=60'' @ CRLF)
      in do { h \<leftarrow> send_reply k c cseq ''200 OK'' extra h; Some (c, h) })"

definition handle_setup ::
  "kernel \<Rightarrow> rtsp_server \<Rightarrow> rtsp_client \<Rightarrow> string \<Rightarrow> string \<Rightarrow> string \<Rightarrow> hist \<Rightarrow> (rtsp_client \<times> hist) option" where
  "handle_setup k srv c req uri cseq h =
     (let s = stream_of uri in
      if \<not> stream_enabled srv s then do { h \<leftarrow> send_reply k c cseq ''404 Stream not found'' [] h; Some (c, h) }
      else
        let transport = header_or_empty req ''Transport'' 256;
            ti = (if ends_with uri ''metadata'' then RTSP_TRACK_METADATA else RTSP_TRACK_VIDEO);
            t = tracks c ! ti
        in if strstr transport ''TCP'' \<noteq> None then
             (case strstr transport ''interleaved='' of
                None \<Rightarrow> do { h \<leftarrow> send_reply k c cseq (''400 `interleaved'' @ [CHR 0x27] @ '' not found'') [] h; Some (c, h) }
              | Some p \<Rightarrow>
                  let (a, b) = port_pair (drop 12 p);
                      (t, h) = track_close k t h;
                      t = t\<lparr>interleaved := True, rtp_channel := ucast a, rtcp_channel := ucast b\<rparr>
                  in setup_tail k c s ti t
                       (trunc 160 (''RTP/AVP/TCP;unicast;interleaved='' @ dec (unat a) @ ''-'' @ dec (unat b))) cseq h)
           else
             (case strstr transport ''client_port='' of
                None \<Rightarrow> do { h \<leftarrow> send_reply k c cseq (''400 `client_port'' @ [CHR 0x27] @ '' not found'') [] h; Some (c, h) }
              | Some p \<Rightarrow>
                  let (a, b) = port_pair (drop 12 p);
                      (t, h) = track_close k t h;
                      (port, t, h) = bind_udp_pair k t h
                  in if port < 0 then
                       do { h \<leftarrow> send_reply k c cseq ''500 Internal Server Error'' [] h;
                            Some (c\<lparr>tracks := (tracks c)[ti := t]\<rparr>, h) }
                     else
                       let (r, h) = sys k (Getpeername (tcp_fd c)) h;
                           t = t\<lparr>rtp_addr := (raddr r)\<lparr>sin_port := ucast a\<rparr>,
                                 rtcp_addr := (raddr r)\<lparr>sin_port := ucast b\<rparr>\<rparr>
                       in setup_tail k c s ti t
                            (trunc 160 (''RTP/AVP/UDP;unicast;client_port='' @ dec (unat a) @ ''-'' @ dec (unat b)
                               @ '';server_port='' @ dec_int port @ ''-'' @ dec_int (port + 1))) cseq h))"

text \<open>\<open>venc_request_idr\<close> of \<open>mini_streamer.c\<close>, the callback of a PLAY.\<close>

definition ISP_IOCTL_VENC_REQUEST_IDR :: u32 where "ISP_IOCTL_VENC_REQUEST_IDR = 0xC004540B"

definition venc_request_idr :: "kernel \<Rightarrow> int \<Rightarrow> nat \<Rightarrow> hist \<Rightarrow> hist" where
  "venc_request_idr k fd stream h =
     sys_h k (Ioctl fd ISP_IOCTL_VENC_REQUEST_IDR (Arg_words [word_of_nat stream])) h"

definition call_idr :: "kernel \<Rightarrow> idr_callback \<Rightarrow> nat \<Rightarrow> hist \<Rightarrow> hist" where
  "call_idr k cb stream h =
     (case cb of No_callback \<Rightarrow> h | Venc_request_idr fd \<Rightarrow> venc_request_idr k fd stream h)"

definition handle_play ::
  "kernel \<Rightarrow> rtsp_server \<Rightarrow> rtsp_client \<Rightarrow> string \<Rightarrow> string \<Rightarrow> hist \<Rightarrow> (rtsp_client \<times> hist) option" where
  "handle_play k srv c req cseq h =
     do {
       (ok, h) \<leftarrow> session_ok k c req cseq h;
       if ok then do {
         h \<leftarrow> send_reply k c cseq ''200 OK'' (''Range: npt=now-'' @ CRLF) h;
         let (now, h) = now_us k h;
         Some (c\<lparr>playing := True, waiting_for_sps := True, next_metadata_us := now\<rparr>,
               call_idr k (request_idr srv) (stream_id c) h)
       }
       else Some (c, h)
     }"

fun send_byes :: "kernel \<Rightarrow> rtsp_client \<Rightarrow> rtsp_track list \<Rightarrow> hist \<Rightarrow> hist option" where
  "send_byes k c [] h = Some h"
| "send_byes k c (t # ts) h =
     (if active t then do { h \<leftarrow> send_bye k c t h; send_byes k c ts h } else send_byes k c ts h)"

definition handle_teardown ::
  "kernel \<Rightarrow> rtsp_client \<Rightarrow> string \<Rightarrow> string \<Rightarrow> hist \<Rightarrow> (rtsp_client \<times> hist) option" where
  "handle_teardown k c req cseq h =
     do {
       (ok, h) \<leftarrow> session_ok k c req cseq h;
       if ok then do {
         h \<leftarrow> send_byes k c (tracks c) h;
         h \<leftarrow> send_reply k c cseq ''200 OK'' [] h;
         Some (session_reset k c h)
       }
       else Some (c, h)
     }"

text \<open>
  \<open>handle_request\<close>: the flag says whether the request was answered; only a DESCRIBE that waits
  for the parameter sets is not, and stays in the buffer.
\<close>

definition public_methods :: string where
  "public_methods = ''Public: OPTIONS, DESCRIBE, SETUP, PLAY, TEARDOWN, GET_PARAMETER'' @ CRLF"

definition dispatch ::
  "kernel \<Rightarrow> rtsp_server \<Rightarrow> rtsp_client \<Rightarrow> string \<Rightarrow> string \<Rightarrow> string \<Rightarrow> string \<Rightarrow> hist
     \<Rightarrow> (bool \<times> rtsp_client \<times> hist) option" where
  "dispatch k srv c req meth uri cseq h =
     (if meth = ''OPTIONS'' then do { h \<leftarrow> send_reply k c cseq ''200 OK'' public_methods h; Some (True, c, h) }
      else if meth = ''DESCRIBE'' then do { (done, h) \<leftarrow> handle_describe k srv c uri cseq h; Some (done, c, h) }
      else if meth = ''SETUP'' then do { (c, h) \<leftarrow> handle_setup k srv c req uri cseq h; Some (True, c, h) }
      else if meth = ''PLAY'' then do { (c, h) \<leftarrow> handle_play k srv c req cseq h; Some (True, c, h) }
      else if meth = ''GET_PARAMETER'' then do { h \<leftarrow> send_reply k c cseq ''200 OK'' [] h; Some (True, c, h) }
      else if meth = ''TEARDOWN'' then do { (c, h) \<leftarrow> handle_teardown k c req cseq h; Some (True, c, h) }
      else do { h \<leftarrow> send_reply k c cseq ''405 Unknown method'' [] h; Some (True, c, h) })"

definition handle_request ::
  "kernel \<Rightarrow> (string \<Rightarrow> string \<Rightarrow> string option) \<Rightarrow> rtsp_server \<Rightarrow> rtsp_client \<Rightarrow> string \<Rightarrow> hist
     \<Rightarrow> (bool \<times> rtsp_client \<times> hist) option" where
  "handle_request k crypt srv c req h =
     (let (meth, rest) = scan_s 31 req;
          (uri, _) = scan_s 255 rest;
          cseq = header_or_empty req ''CSeq'' 32
      in do {
        (ok, h) \<leftarrow> auth_ok k crypt srv c req cseq h;
        if \<not> ok then Some (True, c, h) else dispatch k srv c req meth uri cseq h
      })"

section \<open>What requests leave alone\<close>

text \<open>
  A request changes neither a client's connection nor its receive buffer; the loop over the
  requests ends for this reason.
\<close>

definition same_conn :: "rtsp_client \<Rightarrow> rtsp_client \<Rightarrow> bool" where
  "same_conn c c' \<longleftrightarrow> tcp_fd c' = tcp_fd c \<and> loopback c' = loopback c \<and> rxbuf c' = rxbuf c"

lemma same_conn_refl [simp]: "same_conn c c"
  by (simp add: same_conn_def)

lemma setup_tail_conn: "setup_tail k c s ti t tr cseq h = Some (c', h') \<Longrightarrow> same_conn c c'"
  by (auto simp: setup_tail_def same_conn_def Let_def bind_eq_Some_conv split: prod.splits if_splits)

lemma handle_setup_conn: "handle_setup k srv c req uri cseq h = Some (c', h') \<Longrightarrow> same_conn c c'"
  unfolding handle_setup_def Let_def
  by (auto simp: bind_eq_Some_conv same_conn_def dest!: setup_tail_conn split: prod.splits if_splits option.splits)

lemma session_reset_conn: "session_reset k c h = (c', h') \<Longrightarrow> same_conn c c'"
  by (auto simp: session_reset_def same_conn_def Let_def split: prod.splits)

lemma handle_play_conn: "handle_play k srv c req cseq h = Some (c', h') \<Longrightarrow> same_conn c c'"
  by (auto simp: handle_play_def same_conn_def Let_def bind_eq_Some_conv case_prod_beta split: if_splits)

lemma handle_teardown_conn: "handle_teardown k c req cseq h = Some (c', h') \<Longrightarrow> same_conn c c'"
  by (auto simp: handle_teardown_def bind_eq_Some_conv dest!: session_reset_conn split: prod.splits if_splits)

lemma dispatch_conn: "dispatch k srv c req meth uri cseq h = Some (d, c', h') \<Longrightarrow> same_conn c c'"
  unfolding dispatch_def
  by (auto simp: bind_eq_Some_conv dest!: handle_setup_conn handle_play_conn handle_teardown_conn
      split: prod.splits if_splits)

lemma handle_request_conn: "handle_request k crypt srv c req h = Some (d, c', h') \<Longrightarrow> same_conn c c'"
  by (auto simp: handle_request_def Let_def bind_eq_Some_conv dest!: dispatch_conn split: prod.splits if_splits)

section \<open>The receive buffer\<close>

lemma drain_shorter:
  assumes "strstr (cstr b) (CRLF @ CRLF) = Some e"
  shows "length (drop (length (cstr b) - length e + 4) b) < length b"
proof -
  have "4 \<le> length e" "length e \<le> length (cstr b)" "length (cstr b) \<le> length b"
    using strstr_length [OF assms] length_cstr_le [of b] by simp_all
  then show ?thesis by simp
qed

lemmas drain_shorter_simp = drain_shorter [unfolded append_Cons append_Nil]

text \<open>
  \<open>drain_requests\<close>: as long as the buffer, read as a C string, holds an empty line, the request
  before it is handled and removed.
\<close>

function drain_requests ::
  "kernel \<Rightarrow> (string \<Rightarrow> string \<Rightarrow> string option) \<Rightarrow> rtsp_server \<Rightarrow> rtsp_client \<Rightarrow> hist
     \<Rightarrow> (rtsp_client \<times> hist) option" where
  "drain_requests k crypt srv c h =
     (case strstr (cstr (rxbuf c)) (CRLF @ CRLF) of
        None \<Rightarrow> Some (c, h)
      | Some e \<Rightarrow>
          let req_len = length (cstr (rxbuf c)) - length e + 4 in
          (case handle_request k crypt srv c (take req_len (rxbuf c)) h of
             None \<Rightarrow> None
           | Some (done, c, h) \<Rightarrow>
               if \<not> done then Some (c, h)
               else drain_requests k crypt srv (c\<lparr>rxbuf := drop req_len (rxbuf c)\<rparr>) h))"
  by pat_completeness auto
termination
  by (relation "measure (\<lambda>(k, crypt, srv, c, h). length (rxbuf c))")
     (auto dest!: handle_request_conn drain_shorter_simp simp: same_conn_def simp del: length_drop)

declare drain_requests.simps [simp del]

lemma drain_requests_some:
  assumes "strstr (cstr (rxbuf c)) (CRLF @ CRLF) = Some e" and "n = length (cstr (rxbuf c)) - length e + 4"
  shows "drain_requests k crypt srv c h =
     (case handle_request k crypt srv c (take n (rxbuf c)) h of
        None \<Rightarrow> None
      | Some (done, c, h) \<Rightarrow>
          if \<not> done then Some (c, h) else drain_requests k crypt srv (c\<lparr>rxbuf := drop n (rxbuf c)\<rparr>) h)"
  by (subst drain_requests.simps) (simp only: assms option.case Let_def)

lemma drain_requests_none:
  "strstr (cstr (rxbuf c)) (CRLF @ CRLF) = None \<Longrightarrow> drain_requests k crypt srv c h = Some (c, h)"
  by (subst drain_requests.simps) (simp only: option.case)

end
