(* ===== verification/Rtsp_Server.thy ===== *)
theory Rtsp_Server
  imports Rtsp_Request
begin

text \<open>
  The server of \<open>majestic/rtsp_server.c\<close>: initialisation and configuration, \<open>rtsp_server_poll\<close> (accept,
  receive, requests, the metadata track), \<open>rtsp_server_push_nal\<close> (parameter set cache, gating and
  packetisation of video) and \<open>rtsp_server_close\<close>.
\<close>

section \<open>Metadata\<close>

text \<open>
  \<open>gmtime_r\<close> and \<open>strftime("%Y-%m-%dT%H:%M:%SZ")\<close>: the civil date of a number of days since 1970
  in the proleptic Gregorian calendar, and the time of day.
\<close>

definition civil :: "int \<Rightarrow> int \<times> int \<times> int" where
  "civil days =
     (let z = days + 719468;
          era = z div 146097;
          doe = z mod 146097;
          yoe = (doe - doe div 1460 + doe div 36524 - doe div 146096) div 365;
          doy = doe - (365 * yoe + yoe div 4 - yoe div 100);
          mp = (5 * doy + 2) div 153;
          d = doy - (153 * mp + 2) div 5 + 1;
          m = (if mp < 10 then mp + 3 else mp - 9)
      in (yoe + era * 400 + (if m \<le> 2 then 1 else 0), m, d))"

definition two_digits :: "int \<Rightarrow> string" where
  "two_digits i = [char_of (48 + nat (i div 10 mod 10)), char_of (48 + nat (i mod 10))]"

definition utc_time :: "int \<Rightarrow> string" where
  "utc_time t =
     (let (y, m, d) = civil (t div 86400); s = t mod 86400
      in dec_int y @ ''-'' @ two_digits m @ ''-'' @ two_digits d @ ''T'' @ two_digits (s div 3600) @ '':''
           @ two_digits (s div 60 mod 60) @ '':'' @ two_digits (s mod 60) @ ''Z'')"

definition quote :: "string \<Rightarrow> string" where
  "quote s = [CHR 0x22] @ s @ [CHR 0x22]"

definition metadata_xml :: "string \<Rightarrow> string" where
  "metadata_xml utc =
     ''<tt:MetadataStream xmlns:tt='' @ quote ''http://www.onvif.org/ver10/schema'' @ ''><tt:VideoAnalytics>''
       @ ''<tt:Frame UtcTime='' @ quote utc @ ''><tt:Extension><tt:MotionInCells Columns='' @ quote ''22''
       @ '' Rows='' @ quote ''18'' @ '' Cells='' @ quote ''zwA=''
       @ ''/></tt:Extension></tt:Frame></tt:VideoAnalytics></tt:MetadataStream>''"

text \<open>
  A time that does not fit \<open>utc\<close> leaves it indeterminate, and a text longer than \<open>xml\<close> would be
  read past its end; both are \<open>None\<close>.
\<close>

definition send_metadata ::
  "kernel \<Rightarrow> rtsp_server \<Rightarrow> rtsp_client \<Rightarrow> hist \<Rightarrow> (rtsp_client \<times> hist) option" where
  "send_metadata k srv c h =
     (let (r, h) = sys k Time h; utc = utc_time (rv r) in
      if length utc \<ge> 32 then None
      else do {
        xml \<leftarrow> fmt_buf 512 (metadata_xml utc);
        let (now, h) = now_us k h;
        (t, h) \<leftarrow> rtp_send k c (tracks c ! RTSP_TRACK_METADATA) PT_METADATA True
                     (media_ts now (metadata_ts_base srv)) [] (bytes_of xml) h;
        Some (c\<lparr>tracks := (tracks c)[RTSP_TRACK_METADATA := t]\<rparr>, h)
      })"

section \<open>Configuration\<close>

definition server0 :: rtsp_server where
  "server0 = \<lparr>listen_fd = 0, request_idr = No_callback, clients = replicate RTSP_MAX_CLIENTS client_init,
     stream_on = replicate RTSP_STREAM_COUNT False, fps = replicate RTSP_STREAM_COUNT 0,
     sps = replicate RTSP_STREAM_COUNT (replicate 128 0), sps_len = replicate RTSP_STREAM_COUNT 0,
     pps = replicate RTSP_STREAM_COUNT (replicate 128 0), pps_len = replicate RTSP_STREAM_COUNT 0,
     video_ts_base = replicate RTSP_STREAM_COUNT 0, metadata_ts_base = 0,
     auth_enabled = False, auth_user = [], auth_pass = [], shadow_path = []\<rparr>"

fun random_list :: "kernel \<Rightarrow> nat \<Rightarrow> hist \<Rightarrow> u32 list \<times> hist" where
  "random_list k 0 h = ([], h)"
| "random_list k (Suc n) h =
     (let (x, h) = random_u32 k h; (xs, h) = random_list k n h in (x # xs, h))"

definition seed_random :: "kernel \<Rightarrow> hist \<Rightarrow> hist" where
  "seed_random k h =
     (let (t, h) = sys k Time h; (p, h) = sys k Getpid h; (now, h) = now_us k h
      in sys_h k (Srandom (word_of_int (rv t) XOR push_bit 16 (word_of_int (rv p)) XOR ucast now)) h)"

definition rtsp_server_init :: "kernel \<Rightarrow> u16 \<Rightarrow> hist \<Rightarrow> int \<times> rtsp_server \<times> hist" where
  "rtsp_server_init k port h =
     (let h = seed_random k h;
          (bases, h) = random_list k RTSP_STREAM_COUNT h;
          (mbase, h) = random_u32 k h;
          (r, h) = sys k Socket_stream h;
          srv = server0\<lparr>video_ts_base := bases, metadata_ts_base := mbase, listen_fd := rv r\<rparr>
      in if rv r < 0 then (-1, srv, h)
         else
           let h = sys_h k (Setsockopt (rv r)) h;
               (b, h) = sys k (Bind (rv r) (no_addr\<lparr>sin_port := port\<rparr>)) h
           in if rv b < 0 then (-1, srv, sys_h k (Close (listen_fd srv)) h)
              else let (l, h) = sys k (Listen (rv r)) h in
                if rv l < 0 then (-1, srv, sys_h k (Close (listen_fd srv)) h)
                else (0, srv, sys_h k (Set_nonblock (rv r)) h))"

definition rtsp_server_set_credentials :: "rtsp_server \<Rightarrow> string \<Rightarrow> string \<Rightarrow> rtsp_server" where
  "rtsp_server_set_credentials srv user pass =
     srv\<lparr>auth_user := trunc 32 user, auth_pass := trunc 32 pass, auth_enabled := True\<rparr>"

definition rtsp_server_use_shadow :: "rtsp_server \<Rightarrow> string \<Rightarrow> rtsp_server" where
  "rtsp_server_use_shadow srv path = srv\<lparr>shadow_path := trunc 64 path, auth_enabled := True\<rparr>"

definition rtsp_server_enable_stream :: "rtsp_server \<Rightarrow> int \<Rightarrow> u32 \<Rightarrow> rtsp_server" where
  "rtsp_server_enable_stream srv s n =
     (if s < 0 \<or> s \<ge> int RTSP_STREAM_COUNT then srv
      else srv\<lparr>stream_on := (stream_on srv)[nat s := True], fps := (fps srv)[nat s := n]\<rparr>)"

definition rtsp_server_on_idr_request :: "rtsp_server \<Rightarrow> idr_callback \<Rightarrow> rtsp_server" where
  "rtsp_server_on_idr_request srv cb = srv\<lparr>request_idr := cb\<rparr>"

section \<open>Polling\<close>

fun free_slot :: "rtsp_client list \<Rightarrow> nat option" where
  "free_slot [] = None"
| "free_slot (c # cs) = (if tcp_fd c < 0 then Some 0 else map_option Suc (free_slot cs))"

definition poll_accept :: "kernel \<Rightarrow> rtsp_server \<Rightarrow> hist \<Rightarrow> rtsp_server \<times> hist" where
  "poll_accept k srv h =
     (let (r, h) = sys k (Accept (listen_fd srv)) h in
      if rv r \<ge> 0 then
        (case free_slot (clients srv) of
           None \<Rightarrow> (srv, sys_h k (Close (rv r)) h)
         | Some i \<Rightarrow>
             let (c, h) = client_reset k (clients srv ! i) h;
                 c = c\<lparr>tcp_fd := rv r, loopback := (drop_bit 24 (s_addr (raddr r)) = 127)\<rparr>
             in (srv\<lparr>clients := (clients srv)[i := c]\<rparr>, sys_h k (Set_nonblock (rv r)) h))
      else (srv, h))"

definition poll_metadata ::
  "kernel \<Rightarrow> rtsp_server \<Rightarrow> u64 \<Rightarrow> rtsp_client \<Rightarrow> hist \<Rightarrow> (rtsp_client \<times> hist) option" where
  "poll_metadata k srv now c h =
     (if playing c \<and> active (tracks c ! RTSP_TRACK_METADATA) \<and> now \<ge> next_metadata_us c
      then do {
        (c, h) \<leftarrow> send_metadata k srv c h;
        Some (c\<lparr>next_metadata_us := next_metadata_us c + METADATA_INTERVAL_US\<rparr>, h)
      }
      else Some (c, h))"

text \<open>
  One client of a poll. The receive buffer of \<open>RX_CAP\<close> bytes keeps one for the terminator; a kernel
  that stores more than it was given room for is \<open>None\<close>.
\<close>

definition poll_client ::
  "kernel \<Rightarrow> (string \<Rightarrow> string \<Rightarrow> string option) \<Rightarrow> rtsp_server \<Rightarrow> u64 \<Rightarrow> rtsp_client \<Rightarrow> hist
     \<Rightarrow> (rtsp_client \<times> hist) option" where
  "poll_client k crypt srv now c h =
     (if tcp_fd c < 0 then Some (c, h)
      else
        let room = RX_CAP - 1 - length (rxbuf c);
            (r, h) = sys k (Recv (tcp_fd c) room) h
        in if rv r = 0 \<or> (rv r < 0 \<and> err r \<noteq> EAGAIN) then Some (client_reset k c h)
           else if nat (rv r) > room \<or> length (rbytes r) < nat (rv r) then None
           else
             let c = (if rv r > 0 then c\<lparr>rxbuf := rxbuf c @ map (char_of \<circ> unat) (take (nat (rv r)) (rbytes r))\<rparr> else c)
             in do {
               (c, h) \<leftarrow> drain_requests k crypt srv c h;
               let c = (if length (rxbuf c) \<ge> RX_CAP - 1 then c\<lparr>rxbuf := []\<rparr> else c);
               poll_metadata k srv now c h
             })"

fun poll_clients ::
  "kernel \<Rightarrow> (string \<Rightarrow> string \<Rightarrow> string option) \<Rightarrow> rtsp_server \<Rightarrow> u64 \<Rightarrow> rtsp_client list \<Rightarrow> hist
     \<Rightarrow> (rtsp_client list \<times> hist) option" where
  "poll_clients k crypt srv now [] h = Some ([], h)"
| "poll_clients k crypt srv now (c # cs) h =
     do {
       (c, h) \<leftarrow> poll_client k crypt srv now c h;
       (cs, h) \<leftarrow> poll_clients k crypt srv now cs h;
       Some (c # cs, h)
     }"

definition rtsp_server_poll ::
  "kernel \<Rightarrow> (string \<Rightarrow> string \<Rightarrow> string option) \<Rightarrow> rtsp_server \<Rightarrow> hist \<Rightarrow> (rtsp_server \<times> hist) option" where
  "rtsp_server_poll k crypt srv h =
     (let (srv, h) = poll_accept k srv h; (now, h) = now_us k h in
      do {
        (cs, h) \<leftarrow> poll_clients k crypt srv now (clients srv) h;
        Some (srv\<lparr>clients := cs\<rparr>, h)
      })"

section \<open>Video\<close>

definition cache_param_set :: "rtsp_server \<Rightarrow> nat \<Rightarrow> u8 list \<Rightarrow> rtsp_server" where
  "cache_param_set srv s nal =
     (let ty = nal_type nal in
      if (ty \<noteq> NAL_SPS \<and> ty \<noteq> NAL_PPS) \<or> length nal > 128 then srv
      else if ty = NAL_SPS
      then srv\<lparr>sps := (sps srv)[s := overlay nal (sps srv ! s)], sps_len := (sps_len srv)[s := length nal]\<rparr>
      else srv\<lparr>pps := (pps srv)[s := overlay nal (pps srv ! s)], pps_len := (pps_len srv)[s := length nal]\<rparr>)"

definition push_client ::
  "kernel \<Rightarrow> nat \<Rightarrow> u8 list \<Rightarrow> u32 \<Rightarrow> bool \<Rightarrow> rtsp_client \<Rightarrow> hist \<Rightarrow> (rtsp_client \<times> hist) option" where
  "push_client k s nal ts is_last c h =
     (if tcp_fd c < 0 \<or> \<not> playing c \<or> stream_id c \<noteq> s \<or> \<not> active (tracks c ! RTSP_TRACK_VIDEO) then Some (c, h)
      else if waiting_for_sps c \<and> nal_type nal \<noteq> NAL_SPS then Some (c, h)
      else send_video_nal k (if waiting_for_sps c then c\<lparr>waiting_for_sps := False\<rparr> else c) nal ts is_last h)"

fun push_clients ::
  "kernel \<Rightarrow> nat \<Rightarrow> u8 list \<Rightarrow> u32 \<Rightarrow> bool \<Rightarrow> rtsp_client list \<Rightarrow> hist \<Rightarrow> (rtsp_client list \<times> hist) option" where
  "push_clients k s nal ts is_last [] h = Some ([], h)"
| "push_clients k s nal ts is_last (c # cs) h =
     do {
       (c, h) \<leftarrow> push_client k s nal ts is_last c h;
       (cs, h) \<leftarrow> push_clients k s nal ts is_last cs h;
       Some (c # cs, h)
     }"

definition rtsp_server_push_nal ::
  "kernel \<Rightarrow> rtsp_server \<Rightarrow> int \<Rightarrow> u8 list \<Rightarrow> u64 \<Rightarrow> bool \<Rightarrow> hist \<Rightarrow> (rtsp_server \<times> hist) option" where
  "rtsp_server_push_nal k srv s nal pts_us is_last h =
     (if s < 0 \<or> s \<ge> int RTSP_STREAM_COUNT \<or> nal = [] then Some (srv, h)
      else
        let srv = cache_param_set srv (nat s) nal in
        if nal_type nal = NAL_SEI then Some (srv, h)
        else do {
          (cs, h) \<leftarrow> push_clients k (nat s) nal (media_ts pts_us (video_ts_base srv ! nat s)) is_last (clients srv) h;
          Some (srv\<lparr>clients := cs\<rparr>, h)
        })"

section \<open>Closing\<close>

fun clients_reset :: "kernel \<Rightarrow> rtsp_client list \<Rightarrow> hist \<Rightarrow> rtsp_client list \<times> hist" where
  "clients_reset k [] h = ([], h)"
| "clients_reset k (c # cs) h =
     (let (c, h) = client_reset k c h; (cs, h) = clients_reset k cs h in (c # cs, h))"

definition rtsp_server_close :: "kernel \<Rightarrow> rtsp_server \<Rightarrow> hist \<Rightarrow> rtsp_server \<times> hist" where
  "rtsp_server_close k srv h =
     (let (cs, h) = clients_reset k (clients srv) h
      in (srv\<lparr>clients := cs\<rparr>, close_if_open k (listen_fd srv) h))"

end
