(* ===== verification/Rtsp_Total.thy ===== *)
theory Rtsp_Total
  imports Rtsp_Server
begin

text \<open>
  The RTSP server is total and memory safe: with a kernel that keeps to the documented behaviour of
  \<open>send\<close>, \<open>recv\<close> and \<open>time\<close>, no request, no client and no NAL unit makes any function of the
  server run on for ever or leave a buffer, from any state that satisfies the invariant
  \<open>wf_server\<close>, which every operation preserves.
\<close>

named_theorems ok_intros \<open>operations that return\<close>

section \<open>What the code relies on\<close>

definition peer_ok :: "kernel \<Rightarrow> bool" where
  "peer_ok k \<longleftrightarrow> send_bounded k \<and> send_responsive k"

text \<open>\<open>recv\<close> stores the bytes it reports and no more than it was given room for.\<close>

definition recv_ok :: "kernel \<Rightarrow> bool" where
  "recv_ok k \<longleftrightarrow> (\<forall>h fd n. rv (k h (Recv fd n)) \<le> int n \<and> length (rbytes (k h (Recv fd n))) = nat (rv (k h (Recv fd n))))"

text \<open>The clock stands before the year 10000.\<close>

definition time_ok :: "kernel \<Rightarrow> bool" where
  "time_ok k \<longleftrightarrow> (\<forall>h. 0 \<le> rv (k h Time) \<and> rv (k h Time) < 253402300800)"

definition kernel_ok :: "kernel \<Rightarrow> bool" where
  "kernel_ok k \<longleftrightarrow> peer_ok k \<and> recv_ok k \<and> time_ok k"

section \<open>The invariant\<close>

definition wf_track :: "rtsp_track \<Rightarrow> bool" where
  "wf_track t \<longleftrightarrow>
     (active t \<longrightarrow> interleaved t \<or> (rtp_fd t \<ge> 0 \<and> rtcp_fd t \<ge> 0)) \<and>
     (interleaved t \<longrightarrow> active t \<and> rtp_fd t = -1 \<and> rtcp_fd t = -1)"

definition wf_client :: "rtsp_client \<Rightarrow> bool" where
  "wf_client c \<longleftrightarrow>
     length (tracks c) = RTSP_TRACK_COUNT \<and> (\<forall>t \<in> set (tracks c). wf_track t) \<and>
     stream_id c < RTSP_STREAM_COUNT \<and> length (rxbuf c) < RX_CAP \<and>
     (playing c \<longrightarrow> has_session c) \<and> (waiting_for_sps c \<longrightarrow> playing c)"

definition wf_config :: "rtsp_server \<Rightarrow> bool" where
  "wf_config srv \<longleftrightarrow>
     length (stream_on srv) = RTSP_STREAM_COUNT \<and> length (fps srv) = RTSP_STREAM_COUNT \<and>
     length (sps srv) = RTSP_STREAM_COUNT \<and> length (pps srv) = RTSP_STREAM_COUNT \<and>
     length (sps_len srv) = RTSP_STREAM_COUNT \<and> length (pps_len srv) = RTSP_STREAM_COUNT \<and>
     length (video_ts_base srv) = RTSP_STREAM_COUNT \<and>
     (\<forall>a \<in> set (sps srv) \<union> set (pps srv). length a = 128) \<and>
     (\<forall>n \<in> set (sps_len srv) \<union> set (pps_len srv). n \<le> 128) \<and>
     length (auth_user srv) < 32 \<and> length (auth_pass srv) < 32 \<and> length (shadow_path srv) < 64"

text \<open>Between two calls of the server every buffer has room to receive, and a closed client is the initial one.\<close>

definition wf_idle :: "rtsp_client \<Rightarrow> bool" where
  "wf_idle c \<longleftrightarrow> wf_client c \<and> length (rxbuf c) < RX_CAP - 1 \<and> (tcp_fd c < 0 \<longrightarrow> c = client_init)"

definition wf_server :: "rtsp_server \<Rightarrow> bool" where
  "wf_server srv \<longleftrightarrow> wf_config srv \<and> length (clients srv) = RTSP_MAX_CLIENTS \<and> (\<forall>c \<in> set (clients srv). wf_idle c)"

lemma wf_track0 [simp]: "wf_track track0"
  by (simp add: wf_track_def track0_def)

lemma wf_client_init [simp]: "wf_client client_init" "wf_idle client_init"
  by (auto simp: wf_client_def wf_idle_def client_init_def rtsp_consts)

section \<open>Replies fit their buffers\<close>

lemma send_all_ok [ok_intros]: "peer_ok k \<Longrightarrow> \<exists>h'. send_all k fd d h = Some h'"
  unfolding peer_ok_def using send_all_returns by blast

lemma length_header_value: "header_value req name cap = Some v \<Longrightarrow> length v \<le> cap - 1"
proof (induction req name cap rule: header_value.induct)
  case (1 req name cap)
  from "1.prems" obtain line where line: "strstr req CRLF = Some line"
    using header_value_none by (cases "strstr req CRLF") auto
  with "1.prems" "1.IH" [OF line refl] show ?case
    by (auto simp: header_value_step [OF line] field_text_def split: if_splits)
qed

lemma length_header_or_empty: "length (header_or_empty req name cap) \<le> cap - 1"
  by (auto simp: header_or_empty_def dest: length_header_value split: option.splits)

lemma send_reply_ok [ok_intros]:
  "peer_ok k \<Longrightarrow> length cseq \<le> 31 \<Longrightarrow> length status \<le> 80 \<Longrightarrow> length extra \<le> 255 \<Longrightarrow>
     \<exists>h'. send_reply k c cseq status extra h = Some h'"
  by (simp add: send_reply_def reply_text_def fmt_buf_def SERVER_NAME_def send_all_ok)

lemma track_send_ok [ok_intros]: "peer_ok k \<Longrightarrow> \<exists>h'. track_send k c t r d h = Some h'"
  by (simp add: track_send_def send_all_ok)

lemma rtp_send_ok [ok_intros]:
  "peer_ok k \<Longrightarrow> length pfx + length payload \<le> RTP_MAX_PAYLOAD \<Longrightarrow>
     \<exists>t' h'. rtp_send k c t pt m ts pfx payload h = Some (t', h')"
  using track_send_ok [of k c t False "rtp_header t pt m ts @ pfx @ payload" h] by (auto simp: rtp_send_fits)

lemma send_byes_ok [ok_intros]: "peer_ok k \<Longrightarrow> \<exists>h'. send_byes k c ts h = Some h'"
proof (induction ts arbitrary: h)
  case (Cons t ts)
  then show ?case using track_send_ok [of k c t True "bye_packet t" h] by (auto simp: send_bye_def)
qed simp

lemma auth_ok_ok:
  assumes "peer_ok k" and "length cseq \<le> 31"
  shows "\<exists>b h'. auth_ok k crypt srv c req cseq h = Some (b, h')"
proof -
  have r: "\<exists>h'. send_reply k c cseq st challenge h = Some h'" if "length st \<le> 80" for st h
    using send_reply_ok [OF assms that] by (simp add: challenge_def AUTH_REALM_def)
  have r1: "\<exists>h'. send_reply k c cseq ''401 Authentication required'' challenge h = Some h'" for h by (rule r) simp
  have r2: "\<exists>h'. send_reply k c cseq ''401 Basic authentication required'' challenge h = Some h'" for h by (rule r) simp
  have r3: "\<exists>h'. send_reply k c cseq ''401 Invalid credentials'' challenge h = Some h'" for h by (rule r) simp
  show ?thesis
    using r1 [of h] r2 [of h] r3
    by (auto simp: auth_ok_def Let_def bind_eq_Some_conv split: option.splits prod.splits)
qed

lemma session_ok_ok:
  assumes "peer_ok k" and "length cseq \<le> 31"
  shows "\<exists>b h'. session_ok k c req cseq h = Some (b, h')"
proof -
  have r1: "\<exists>h'. send_reply k c cseq (''400 Failed to parse `Session'' @ [CHR 0x27]) [] h = Some h'" by (rule send_reply_ok [OF assms]) simp_all
  have r2: "\<exists>h'. send_reply k c cseq ''454 Session ID is invalid'' [] h = Some h'" by (rule send_reply_ok [OF assms]) simp_all
  show ?thesis using r1 r2 by (auto simp: session_ok_def bind_eq_Some_conv split: option.splits)
qed


lemma stream_of_less: "stream_of uri < 3"
  by (auto simp: stream_of_def STREAM_SLOTS_def Let_def split: option.splits)

lemma encode_param_set_ok:
  "n \<le> 128 \<Longrightarrow> length arr = 128 \<Longrightarrow> \<exists>s. encode_param_set arr n = Some s \<and> length s \<le> 172"
  using div_le_mono [of "n + 2" 130 3] by (auto simp: encode_param_set_def length_base64_encode min_def)

lemma length_hex2 [simp]: "length (hex2 b) = 2"
  by (simp add: hex2_def)

lemma length_sdp_text: "length a \<le> 172 \<Longrightarrow> length b \<le> 172 \<Longrightarrow> length (sdp_text srv s a b) < 800"
  using length_dec_u32 [of "fps srv ! s"] by (cases "s = 0") (simp_all add: sdp_text_def)

lemma length_describe_head:
  "length cseq \<le> 31 \<Longrightarrow> length uri \<le> 255 \<Longrightarrow> n < 1000 \<Longrightarrow> length (describe_head cseq n uri) < 512"
  using length_dec_le [of n 3] by (simp add: describe_head_def SERVER_NAME_def)

lemma handle_describe_ok:
  assumes "peer_ok k" and "length cseq \<le> 31" and "length uri \<le> 255" and "wf_config srv"
  shows "\<exists>b h'. handle_describe k srv c uri cseq h = Some (b, h')"
proof -
  let ?s = "stream_of uri"
  have nf: "\<exists>h'. send_reply k c cseq ''404 Stream not found'' [] h = Some h'" by (rule send_reply_ok [OF assms(1,2)]) simp_all
  show ?thesis
  proof (cases "stream_enabled srv ?s \<and> sps_len srv ! ?s \<noteq> 0 \<and> pps_len srv ! ?s \<noteq> 0")
    case False
    with nf show ?thesis by (auto simp: handle_describe_def Let_def)
  next
    case True
    then have s: "?s < 2" by (simp add: stream_enabled_def RTSP_STREAM_COUNT_def)
    have "length (sps srv ! ?s) = 128" "length (pps srv ! ?s) = 128" "sps_len srv ! ?s \<le> 128" "pps_len srv ! ?s \<le> 128"
      using s assms(4) by (simp_all add: wf_config_def RTSP_STREAM_COUNT_def)
    then obtain a b where ab: "encode_param_set (sps srv ! ?s) (sps_len srv ! ?s) = Some a" "length a \<le> 172"
      "encode_param_set (pps srv ! ?s) (pps_len srv ! ?s) = Some b" "length b \<le> 172"
      using encode_param_set_ok by blast
    define sdp where "sdp = sdp_text srv ?s a b"
    have len: "length sdp < 800" using ab length_sdp_text by (simp add: sdp_def)
    have head: "length (describe_head cseq (length sdp) uri) < 512"
      by (rule length_describe_head) (use assms len in auto)
    obtain h1 where "send_all k (tcp_fd c) (bytes_of (describe_head cseq (length sdp) uri)) h = Some h1"
      using send_all_ok [OF assms(1)] by blast
    moreover obtain h2 where "send_all k (tcp_fd c) (bytes_of sdp) h1 = Some h2"
      using send_all_ok [OF assms(1)] by blast
    ultimately show ?thesis
      using True ab head len by (auto simp: handle_describe_def Let_def fmt_buf_fits simp flip: sdp_def)
  qed
qed

lemma setup_tail_ok:
  assumes "peer_ok k" and "length cseq \<le> 31"
  shows "\<exists>c' h'. setup_tail k c s ti t tr cseq h = Some (c', h')"
proof -
  have r: "\<exists>h'. send_reply k c' cseq ''200 OK'' (trunc 256 x) h' = Some h''" if "h'' = the (send_reply k c' cseq ''200 OK'' (trunc 256 x) h')" for c' x h' h''
    using send_reply_ok [OF assms, of "''200 OK''" "trunc 256 x" c' h'] length_trunc [of 256 x] that by auto
  have r: "\<exists>h''. send_reply k c' cseq ''200 OK'' (trunc 256 x) h' = Some h''" for c' x h'
    by (rule send_reply_ok [OF assms]) (use length_trunc [of 256 x] in simp_all)
  show ?thesis
    unfolding setup_tail_def Let_def using r by (auto simp: bind_eq_Some_conv split: prod.splits)
qed

lemma handle_setup_ok:
  assumes "peer_ok k" and "length cseq \<le> 31"
  shows "\<exists>c' h'. handle_setup k srv c req uri cseq h = Some (c', h')"
proof -
  note tl = setup_tail_ok [OF assms]
  have r1: "\<exists>h'. send_reply k c cseq ''404 Stream not found'' [] h = Some h'" for h by (rule send_reply_ok [OF assms]) simp_all
  have r2: "\<exists>h'. send_reply k c cseq (''400 `interleaved'' @ [CHR 0x27] @ '' not found'') [] h = Some h'" for h by (rule send_reply_ok [OF assms]) simp_all
  have r3: "\<exists>h'. send_reply k c cseq (''400 `client_port'' @ [CHR 0x27] @ '' not found'') [] h = Some h'" for h by (rule send_reply_ok [OF assms]) simp_all
  have r4: "\<exists>h'. send_reply k c cseq ''500 Internal Server Error'' [] h = Some h'" for h by (rule send_reply_ok [OF assms]) simp_all
  show ?thesis
    unfolding handle_setup_def Let_def using r1 r2 r3 r4 tl
    by (auto simp: bind_eq_Some_conv split: prod.splits option.splits)
qed

lemma handle_play_ok:
  assumes "peer_ok k" and "length cseq \<le> 31"
  shows "\<exists>c' h'. handle_play k srv c req cseq h = Some (c', h')"
proof -
  have r: "\<exists>h'. send_reply k c cseq ''200 OK'' (''Range: npt=now-'' @ CRLF) h = Some h'" for h by (rule send_reply_ok [OF assms]) simp_all
  obtain b h1 where "session_ok k c req cseq h = Some (b, h1)" using session_ok_ok [OF assms] by blast
  moreover obtain h2 where "send_reply k c cseq ''200 OK'' (''Range: npt=now-'' @ CRLF) h1 = Some h2" using r by blast
  ultimately show ?thesis by (simp add: handle_play_def case_prod_beta Let_def)
qed

lemma handle_teardown_ok:
  assumes "peer_ok k" and "length cseq \<le> 31"
  shows "\<exists>c' h'. handle_teardown k c req cseq h = Some (c', h')"
proof -
  obtain b h1 where "session_ok k c req cseq h = Some (b, h1)" using session_ok_ok [OF assms] by blast
  moreover obtain h2 where "send_byes k c (tracks c) h1 = Some h2" using send_byes_ok [OF assms(1)] by blast
  moreover have "\<exists>h3. send_reply k c cseq ''200 OK'' [] h2 = Some h3" by (rule send_reply_ok [OF assms]) simp_all
  ultimately show ?thesis by (cases "session_reset k c (the (send_reply k c cseq ''200 OK'' [] h2))") (auto simp: handle_teardown_def)
qed

lemma dispatch_ok:
  assumes "peer_ok k" and "length cseq \<le> 31" and "length uri \<le> 255" and "wf_config srv"
  shows "\<exists>d c' h'. dispatch k srv c req meth uri cseq h = Some (d, c', h')"
proof -
  obtain h1 where r1: "send_reply k c cseq ''200 OK'' public_methods h = Some h1"
    using send_reply_ok [OF assms(1,2), of "''200 OK''" public_methods c h] by (auto simp: public_methods_def)
  obtain h2 where r2: "send_reply k c cseq ''200 OK'' [] h = Some h2"
    using send_reply_ok [OF assms(1,2), of "''200 OK''" "[]" c h] by auto
  obtain h3 where r3: "send_reply k c cseq ''405 Unknown method'' [] h = Some h3"
    using send_reply_ok [OF assms(1,2), of "''405 Unknown method''" "[]" c h] by auto
  obtain d h4 where d: "handle_describe k srv c uri cseq h = Some (d, h4)"
    using handle_describe_ok [OF assms] by blast
  obtain c5 h5 where s: "handle_setup k srv c req uri cseq h = Some (c5, h5)"
    using handle_setup_ok [OF assms(1,2)] by blast
  obtain c6 h6 where p: "handle_play k srv c req cseq h = Some (c6, h6)"
    using handle_play_ok [OF assms(1,2)] by blast
  obtain c7 h7 where t: "handle_teardown k c req cseq h = Some (c7, h7)"
    using handle_teardown_ok [OF assms(1,2)] by blast
  have ex: "\<exists>b. b" by blast
  show ?thesis unfolding dispatch_def r1 r2 r3 d s p t by (simp add: ex)
qed

lemma handle_request_ok:
  assumes "peer_ok k" and "wf_config srv"
  shows "\<exists>d c' h'. handle_request k crypt srv c req h = Some (d, c', h')"
proof -
  obtain meth rest where m: "scan_s 31 req = (meth, rest)" by force
  obtain uri rest' where u: "scan_s 255 rest = (uri, rest')" by force
  have uri: "length uri \<le> 255" using length_scan_s [of 255 rest] u by simp
  let ?cseq = "header_or_empty req ''CSeq'' 32"
  have cseq: "length ?cseq \<le> 31" using length_header_or_empty [of req "''CSeq''" 32] by simp
  obtain b h1 where "auth_ok k crypt srv c req ?cseq h = Some (b, h1)" using auth_ok_ok [OF assms(1) cseq] by blast
  then show ?thesis
    using dispatch_ok [OF assms(1) cseq uri assms(2)] by (auto simp: handle_request_def m u Let_def)
qed

lemma drain_requests_ok:
  assumes "peer_ok k" and "wf_config srv"
  shows "\<exists>c' h'. drain_requests k crypt srv c h = Some (c', h')"
proof (induction "length (rxbuf c)" arbitrary: c h rule: less_induct)
  case less
  show ?case
  proof (cases "strstr (cstr (rxbuf c)) (CRLF @ CRLF)")
    case None
    then show ?thesis by (subst drain_requests.simps) simp
  next
    case (Some e)
    let ?n = "length (cstr (rxbuf c)) - length e + 4"
    obtain d c1 h1 where req: "handle_request k crypt srv c (take ?n (rxbuf c)) h = Some (d, c1, h1)"
      using handle_request_ok [OF assms] by blast
    have "length (rxbuf (c1\<lparr>rxbuf := drop ?n (rxbuf c1)\<rparr>)) < length (rxbuf c)"
      using handle_request_conn [OF req] drain_shorter [OF Some] by (simp add: same_conn_def)
    from less [OF this, of h1] Some req show ?thesis
      by (subst drain_requests.simps) (simp add: Let_def)
  qed
qed

end
