(* ===== verification/Descriptors.thy ===== *)
theory Descriptors
  imports Os
begin

text \<open>
  How a history grows: relations between the history before and after a function, in a locale that
  walks through a function call by call, and the books on file descriptors: how often a history opened and closed each of them. A program
  that keeps its descriptors in fields leaks none when the balance of every descriptor is the
  number of fields that hold it.
\<close>

section \<open>Descriptor accounting\<close>

fun opens :: "syscall \<Rightarrow> reply \<Rightarrow> int \<Rightarrow> int" where
  "opens (Open p m) r f = of_bool (rv r = f \<and> 0 \<le> f)"
| "opens Socket_stream r f = of_bool (rv r = f \<and> 0 \<le> f)"
| "opens Socket_dgram r f = of_bool (rv r = f \<and> 0 \<le> f)"
| "opens (Accept fd) r f = of_bool (rv r = f \<and> 0 \<le> f)"
| "opens Pipe r f = (if 0 \<le> rv r then (\<Sum>w \<leftarrow> take 2 (rwords r). of_bool (sint w = f)) else 0)"
| "opens (Close fd) r f = - of_bool (fd = f)"
| "opens _ r f = 0"

definition live :: "hist \<Rightarrow> int \<Rightarrow> int" where
  "live h f = (\<Sum>(c, r) \<leftarrow> h. opens c r f)"

lemma live_Nil [simp]: "live [] f = 0"
  by (simp add: live_def)

lemma live_append [simp]: "live (h @ h') f = live h f + live h' f"
  by (simp add: live_def)

lemma live_Cons [simp]: "live (p # h) f = opens (fst p) (snd p) f + live h f"
  by (simp add: live_def case_prod_beta)

lemma live_sys_h [simp]: "live (sys_h k c h) f = live h f + opens c (k h c) f"
  by (simp add: sys_h_def sys_def)

lemma live_only_sends: "only_sends fd cs \<Longrightarrow> live cs f = 0"
  by (induction cs) (auto simp: live_def)

definition held_fd :: "int \<Rightarrow> int \<Rightarrow> int" where
  "held_fd fd f = of_bool (fd = f \<and> 0 \<le> f)"

lemma held_fd_neg [simp]: "fd < 0 \<Longrightarrow> held_fd fd f = 0"
  by (auto simp: held_fd_def)

section \<open>Walking through a function\<close>

text \<open>
  A function that makes calls one after the other is walked through from its first call: a reflexive and
  transitive relation that holds up to a call, and between the histories before and after it, holds for the
  rest of the function. \<open>R\<close> is the statement about the function's result.
\<close>

locale history_order =
  fixes T :: "hist \<Rightarrow> hist \<Rightarrow> bool"
  assumes T_refl: "T h h"
    and T_trans: "T h h1 \<Longrightarrow> T h1 h2 \<Longrightarrow> T h h2"
begin

lemma step: "T h0 h \<Longrightarrow> T h (sys_h k c h) \<Longrightarrow> T h0 (sys_h k c h)"
  by (rule T_trans)

lemma walk_sys:
  "T h0 h \<Longrightarrow> T h (sys_h k c h) \<Longrightarrow> (\<And>r h1. T h0 h1 \<Longrightarrow> R (g r h1)) \<Longrightarrow> R (case sys k c h of (r, h1) \<Rightarrow> g r h1)"
  using step [of h0 h k c] by (simp add: sys_h_def sys_def)

lemma walk_ioctl_r:
  "T h0 h \<Longrightarrow> T h (sys_h k (Ioctl fd req a) h) \<Longrightarrow> (\<And>r h1. T h0 h1 \<Longrightarrow> R (g r h1)) \<Longrightarrow>
     R (case ioctl_r k fd req a h of (r, h1) \<Rightarrow> g r h1)"
  using step [of h0 h k "Ioctl fd req a"] by (simp add: ioctl_r_def sys_h_def sys_def)

lemma walk_ioctl_words:
  "T h0 h \<Longrightarrow> T h (sys_h k (Ioctl fd req (Arg_words ws)) h) \<Longrightarrow>
     (\<And>r q h1. length q = length ws \<Longrightarrow> T h0 h1 \<Longrightarrow> R (g r q h1)) \<Longrightarrow>
     R (case ioctl_words k fd req ws h of (r, q, h1) \<Rightarrow> g r q h1)"
  using step [of h0 h k "Ioctl fd req (Arg_words ws)"] by (simp add: ioctl_words_def sys_h_def sys_def)

lemma walk_ioctl_bytes:
  "T h0 h \<Longrightarrow> T h (sys_h k (Ioctl fd req (Arg_bytes bs)) h) \<Longrightarrow>
     (\<And>r q h1. length q = length bs \<Longrightarrow> T h0 h1 \<Longrightarrow> R (g r q h1)) \<Longrightarrow>
     R (case ioctl_bytes k fd req bs h of (r, q, h1) \<Rightarrow> g r q h1)"
  using step [of h0 h k "Ioctl fd req (Arg_bytes bs)"] by (simp add: ioctl_bytes_def sys_h_def sys_def)

text \<open>A function called, of which the relation is known.\<close>

lemma walk_call:
  "T h0 h \<Longrightarrow> T h (snd p) \<Longrightarrow> (\<And>r h1. T h0 h1 \<Longrightarrow> R (g r h1)) \<Longrightarrow> R (case p of (r, h1) \<Rightarrow> g r h1)"
  by (cases p) (auto intro: T_trans)

lemma walk_call3:
  "T h0 h \<Longrightarrow> T h (snd (snd p)) \<Longrightarrow> (\<And>r s h1. T h0 h1 \<Longrightarrow> R (g r s h1)) \<Longrightarrow> R (case p of (r, s, h1) \<Rightarrow> g r s h1)"
  by (cases p) (auto intro: T_trans)

lemma walk_if: "(b \<Longrightarrow> R x) \<Longrightarrow> (\<not> b \<Longrightarrow> R y) \<Longrightarrow> R (if b then x else y)"
  by simp

lemmas walk_ops = walk_sys walk_ioctl_r walk_ioctl_words walk_ioctl_bytes
lemmas walk = walk_if walk_ops

lemmas walk1 = walk_if [where R = "\<lambda>x. T h0 x" for h0]
  walk_ops [where R = "\<lambda>x. T h0 x" and ?h0.0 = h0 for h0]
lemmas walk2 = walk_if [where R = "\<lambda>x. T h0 (snd x)" for h0]
  walk_ops [where R = "\<lambda>x. T h0 (snd x)" and ?h0.0 = h0 for h0]
lemmas walk3 = walk_if [where R = "\<lambda>x. T h0 (snd (snd x))" for h0]
  walk_ops [where R = "\<lambda>x. T h0 (snd (snd x))" and ?h0.0 = h0 for h0]

end

text \<open>The calls a function adds all satisfy a predicate.\<close>

definition adds :: "(syscall \<Rightarrow> bool) \<Rightarrow> hist \<Rightarrow> hist \<Rightarrow> bool" where
  "adds P h h' \<longleftrightarrow> (\<exists>cs. h' = h @ cs \<and> list_all (\<lambda>p. P (fst p)) cs)"

lemma adds_simps [simp]:
  "adds P h h" "adds P h (h @ xs) \<longleftrightarrow> list_all (\<lambda>p. P (fst p)) xs"
  by (auto simp: adds_def)

lemma adds_sys_h [simp]: "adds P h (sys_h k c h) \<longleftrightarrow> P c"
  by (simp add: os_simps)

lemma adds_trans: "adds P h h' \<Longrightarrow> adds P h' h'' \<Longrightarrow> adds P h h''"
  by (auto simp: adds_def)

lemma adds_snoc [simp]: "adds P h0 h \<Longrightarrow> P c \<Longrightarrow> adds P h0 (sys_h k c h)"
  by (rule adds_trans [of P h0 h]) simp_all

lemma adds_mono: "adds P h h' \<Longrightarrow> (\<And>c. P c \<Longrightarrow> Q c) \<Longrightarrow> adds Q h h'"
  by (auto simp: adds_def list_all_iff)

lemma adds_calls: "adds P h h' \<Longrightarrow> list_all P (calls h) \<Longrightarrow> list_all P (calls h')"
  by (force simp: adds_def calls_def list_all_iff)

interpretation ad: history_order "adds P" for P
  by unfold_locales (auto intro: adds_trans)

text \<open>Nothing is opened or closed on balance.\<close>

definition quiet :: "hist \<Rightarrow> hist \<Rightarrow> bool" where
  "quiet h h' \<longleftrightarrow> (\<forall>f. live h' f = live h f)"

lemma quiet_refl [simp]: "quiet h h"
  by (simp add: quiet_def)

lemma quiet_trans: "quiet h h1 \<Longrightarrow> quiet h1 h2 \<Longrightarrow> quiet h h2"
  by (simp add: quiet_def)

interpretation qt: history_order quiet
  by unfold_locales (auto intro: quiet_trans)

lemma adds_quiet:
  assumes "adds P h h'" and "\<And>c r f. P c \<Longrightarrow> opens c r f = 0"
  shows "quiet h h'"
proof -
  from assms(1) obtain cs where cs: "h' = h @ cs" "list_all (\<lambda>p. P (fst p)) cs" by (auto simp: adds_def)
  have "live cs f = 0" for f using cs(2) assms(2) by (induction cs) auto
  then show ?thesis by (simp add: quiet_def cs(1))
qed

end
