(* ===== verification/Rtsp_Invariant.thy ===== *)
theory Rtsp_Invariant
  imports Rtsp_Total Descriptors
begin

text \<open>
  Two invariants of the RTSP server carried through every operation: well-formedness of the clients,
  and the books on file descriptors. A history determines how often a descriptor was opened and
  closed; what is open beyond that must be held in a field of some client. The operation lemmas
  are stated once for both.
\<close>

section \<open>Descriptors held by a client\<close>

definition held_track :: "rtsp_track \<Rightarrow> int \<Rightarrow> int" where
  "held_track t f = held_fd (rtp_fd t) f + held_fd (rtcp_fd t) f"

definition held_client :: "rtsp_client \<Rightarrow> int \<Rightarrow> int" where
  "held_client c f = held_fd (tcp_fd c) f + (\<Sum>t \<leftarrow> tracks c. held_track t f)"

definition held_clients :: "rtsp_client list \<Rightarrow> int \<Rightarrow> int" where
  "held_clients cs f = (\<Sum>c \<leftarrow> cs. held_client c f)"

lemma held_track0 [simp]: "held_track track0 f = 0"
  by (simp add: held_track_def track0_def)

lemma held_client_init [simp]: "held_client client_init f = 0"
  by (simp add: held_client_def client_init_def sum_list_replicate)

lemma live_close_if_open [simp]: "live (close_if_open k fd h) f = live h f - held_fd fd f"
  by (auto simp: close_if_open_def held_fd_def)

lemma sum_list_update:
  "i < length xs \<Longrightarrow> (\<Sum>x \<leftarrow> xs[i := y]. g x) = (\<Sum>x \<leftarrow> xs. g x) - g (xs ! i) + (g y :: int)"
  by (induction xs arbitrary: i) (auto split: nat.splits)

section \<open>Steps of one client\<close>

text \<open>
  \<open>client_step\<close> relates a client and a history before and after an operation: the operation keeps
  the client well formed, keeps its connection, and balances the descriptors.
\<close>

definition client_step :: "rtsp_client \<Rightarrow> hist \<Rightarrow> rtsp_client \<Rightarrow> hist \<Rightarrow> bool" where
  "client_step c h c' h' \<longleftrightarrow>
     (wf_client c \<longrightarrow> wf_client c' \<and> tcp_fd c' = tcp_fd c \<and> length (rxbuf c') \<le> length (rxbuf c) \<and>
        (\<forall>f. live h' f - held_client c' f = live h f - held_client c f))"

lemma client_step_refl: "quiet h h' \<Longrightarrow> client_step c h c h'"
  by (simp add: client_step_def quiet_def)

lemma client_step_trans: "client_step c h c1 h1 \<Longrightarrow> client_step c1 h1 c2 h2 \<Longrightarrow> client_step c h c2 h2"
  unfolding client_step_def by force

lemma send_all_quiet: "send_all k fd d h = Some h' \<Longrightarrow> quiet h h'"
  using live_only_sends by (auto simp: quiet_def sent_prefix_def dest!: send_all_prefix)

lemma send_reply_quiet: "send_reply k c cseq st x h = Some h' \<Longrightarrow> quiet h h'"
  by (auto simp: send_reply_def bind_eq_Some_conv dest!: send_all_quiet)

lemma track_send_quiet: "track_send k c t r d h = Some h' \<Longrightarrow> quiet h h'"
  by (auto simp: track_send_def quiet_def dest: send_all_quiet split: if_splits)

lemma send_byes_quiet: "send_byes k c ts h = Some h' \<Longrightarrow> quiet h h'"
  by (induction ts arbitrary: h)
     (auto simp: bind_eq_Some_conv send_bye_def split: if_splits dest!: track_send_quiet intro: quiet_trans)

lemma rtp_send_quiet: "rtp_send k c t pt m ts p d h = Some (t', h') \<Longrightarrow> quiet h h'"
  by (auto simp: rtp_send_def bind_eq_Some_conv Let_def dest!: track_send_quiet split: if_splits)

lemma send_payloads_quiet: "send_payloads k c ts l ps t h = Some (t', h') \<Longrightarrow> quiet h h'"
  by (induction ps arbitrary: t h) (auto simp: bind_eq_Some_conv dest!: track_send_quiet intro: quiet_trans)

lemma sys_quiet: "(\<And>f r. opens c r f = 0) \<Longrightarrow> sys k c h = (r, h') \<Longrightarrow> quiet h h'"
  by (auto simp: sys_def quiet_def)

lemma sys_h_quiet: "(\<And>f r. opens c r f = 0) \<Longrightarrow> quiet h (sys_h k c h)"
  by (simp add: quiet_def)

lemma random_u32_quiet: "random_u32 k h = (x, h') \<Longrightarrow> quiet h h'"
  by (auto simp: random_u32_def sys_def quiet_def)

lemma now_us_quiet: "now_us k h = (x, h') \<Longrightarrow> quiet h h'"
  by (auto simp: now_us_def sys_def quiet_def)

lemma call_idr_quiet: "quiet h (call_idr k cb s h)"
  by (simp add: call_idr_def venc_request_idr_def quiet_def split: idr_callback.splits)

lemma shadow_matches_quiet: "shadow_matches k crypt p u h = (b, h') \<Longrightarrow> quiet h h'"
  by (auto simp: shadow_matches_def Let_def sys_def quiet_def split: option.splits if_splits)

lemma auth_ok_quiet: "auth_ok k crypt srv c req cseq h = Some (b, h') \<Longrightarrow> quiet h h'"
  by (auto simp: auth_ok_def Let_def bind_eq_Some_conv split: option.splits if_splits prod.splits
      dest!: send_reply_quiet shadow_matches_quiet intro: quiet_trans)

lemma session_ok_quiet: "session_ok k c req cseq h = Some (b, h') \<Longrightarrow> quiet h h'"
  by (auto simp: session_ok_def bind_eq_Some_conv split: option.splits if_splits dest!: send_reply_quiet)

lemma handle_describe_quiet: "handle_describe k srv c uri cseq h = Some (b, h') \<Longrightarrow> quiet h h'"
  unfolding handle_describe_def Let_def
  by (auto simp: bind_eq_Some_conv split: if_splits dest!: send_reply_quiet send_all_quiet intro: quiet_trans)

section \<open>Closing and resetting\<close>

lemma track_close_facts:
  "track_close k t h = (t', h') \<Longrightarrow> t' = track0 \<and> live h' f = live h f - held_track t f"
  by (auto simp: track_close_def held_track_def)

lemma tracks_close_facts:
  "tracks_close k ts h = (ts', h') \<Longrightarrow>
     ts' = replicate (length ts) track0 \<and> live h' f = live h f - (\<Sum>t \<leftarrow> ts. held_track t f)"
proof (induction ts arbitrary: h h' ts')
  case (Cons t ts)
  obtain t1 h1 where 1: "track_close k t h = (t1, h1)" by force
  obtain ts2 h2 where 2: "tracks_close k ts h1 = (ts2, h2)" by force
  show ?case using Cons.prems Cons.IH [OF 2] track_close_facts [OF 1, of f] by (simp add: 1 2)
qed simp

lemma session_reset_step: "session_reset k c h = (c', h') \<Longrightarrow> client_step c h c' h'"
proof -
  assume r: "session_reset k c h = (c', h')"
  obtain ts h1 where ts: "tracks_close k (tracks c) h = (ts, h1)" by force
  from r ts have eq: "h' = h1" "c' = c\<lparr>tracks := ts, has_session := False, playing := False, waiting_for_sps := False\<rparr>"
    by (simp_all add: session_reset_def)
  have "ts = replicate (length (tracks c)) track0" using tracks_close_facts [OF ts] by blast
  moreover have "live h1 f = live h f - (\<Sum>t \<leftarrow> tracks c. held_track t f)" for f
    using tracks_close_facts [OF ts] by blast
  ultimately show ?thesis
    by (auto simp: client_step_def eq wf_client_def held_client_def sum_list_replicate)
qed

lemma client_reset_facts:
  "client_reset k c h = (c', h') \<Longrightarrow> c' = client_init \<and> live h' f = live h f - held_client c f"
proof -
  assume r: "client_reset k c h = (c', h')"
  obtain ts h1 where ts: "tracks_close k (tracks c) h = (ts, h1)" by force
  from r ts have "c' = client_init" "h' = close_if_open k (tcp_fd c) h1"
    by (simp_all add: client_reset_def session_reset_def)
  with tracks_close_facts [OF ts, of f] show ?thesis by (simp add: held_client_def)
qed

section \<open>The UDP socket pair\<close>

lemma bind_try_facts:
  "bind_try k rtp rtcp h = (p, h') \<Longrightarrow> quiet h h' \<and> (p \<noteq> None \<longrightarrow> rtp \<ge> 0 \<and> rtcp \<ge> 0)"
  by (auto simp: bind_try_def Let_def sys_def quiet_def split: if_splits)

lemma bind_attempts_facts:
  "rtp_fd t = -1 \<Longrightarrow> rtcp_fd t = -1 \<Longrightarrow> bind_attempts k n t h = (port, t', h') \<Longrightarrow>
     (\<forall>f. live h' f - held_track t' f = live h f) \<and>
     t' = t\<lparr>rtp_fd := rtp_fd t', rtcp_fd := rtcp_fd t'\<rparr> \<and>
     (port \<ge> 0 \<longrightarrow> rtp_fd t' \<ge> 0 \<and> rtcp_fd t' \<ge> 0)"
proof (induction n arbitrary: h)
  case 0
  then show ?case by (auto simp: held_track_def)
next
  case (Suc n)
  define r1 where "r1 = k h Socket_dgram"
  define h1 where "h1 = h @ [(Socket_dgram, r1)]"
  define r2 where "r2 = k h1 Socket_dgram"
  define h2 where "h2 = h1 @ [(Socket_dgram, r2)]"
  obtain b h3 where b: "bind_try k (rv r1) (rv r2) h2 = (b, h3)" by force
  have l2: "live h2 f = live h f + held_fd (rv r1) f + held_fd (rv r2) f" for f
    by (simp add: h2_def h1_def held_fd_def)
  from bind_try_facts [OF b] have l3: "live h3 f = live h2 f" for f by (simp add: quiet_def)
  have step: "bind_attempts k (Suc n) t h =
      (case b of Some p \<Rightarrow> (int (unat p) - 1, t\<lparr>rtp_fd := rv r1, rtcp_fd := rv r2\<rparr>, h3)
       | None \<Rightarrow> bind_attempts k n t (close_if_open k (rv r2) (close_if_open k (rv r1) h3)))"
    unfolding bind_attempts.simps sys_def Let_def prod.case r1_def [symmetric] h1_def [symmetric]
      r2_def [symmetric] h2_def [symmetric] b ..
  show ?case
  proof (cases b)
    case None
    with Suc.IH [OF Suc.prems(1,2)] Suc.prems(3) show ?thesis unfolding step by (simp add: l3 l2)
  next
    case (Some p)
    with Suc.prems(3) have eq: "h' = h3" "t' = t\<lparr>rtp_fd := rv r1, rtcp_fd := rv r2\<rparr>"
      unfolding step by auto
    show ?thesis using bind_try_facts [OF b] Some unfolding eq by (simp add: held_track_def l3 l2)
  qed
qed

section \<open>The handlers\<close>

lemma wf_client_update:
  "wf_client c \<Longrightarrow> ti < RTSP_TRACK_COUNT \<Longrightarrow> wf_track t \<Longrightarrow> wf_client (c\<lparr>tracks := (tracks c)[ti := t]\<rparr>)"
  using set_update_subset_insert [of "tracks c" ti t] by (auto simp: wf_client_def)

lemma held_client_update:
  "wf_client c \<Longrightarrow> ti < RTSP_TRACK_COUNT \<Longrightarrow>
     held_client (c\<lparr>tracks := (tracks c)[ti := t]\<rparr>) f = held_client c f - held_track (tracks c ! ti) f + held_track t f"
  by (simp add: held_client_def wf_client_def sum_list_update)

text \<open>Replacing a track by one that holds what the history shows was opened in its place.\<close>

lemma track_step:
  assumes "ti < RTSP_TRACK_COUNT" and "wf_track t"
    and "\<And>f. live h' f - held_track t f = live h f - held_track (tracks c ! ti) f"
  shows "client_step c h (c\<lparr>tracks := (tracks c)[ti := t]\<rparr>) h'"
proof (unfold client_step_def, intro impI conjI allI)
  fix f assume wf: "wf_client c"
  then show "wf_client (c\<lparr>tracks := (tracks c)[ti := t]\<rparr>)" using assms(1,2) by (simp add: wf_client_update)
  from wf show "live h' f - held_client (c\<lparr>tracks := (tracks c)[ti := t]\<rparr>) f = live h f - held_client c f"
    using assms(1) assms(3) [of f] by (simp add: held_client_update)
qed simp_all

lemma setup_tail_step:
  assumes "setup_tail k c s ti t tr cseq h1 = Some (c', h')"
    and "ti < RTSP_TRACK_COUNT" and "s < RTSP_STREAM_COUNT" and "wf_track (t\<lparr>active := True\<rparr>)"
    and "\<And>f. live h1 f - held_track t f = live h f - held_track (tracks c ! ti) f"
  shows "client_step c h c' h'"
proof -
  obtain id h2 where id: "random_u32 k h1 = (id, h2)" by force
  define t2 where "t2 = t\<lparr>active := True, ssrc := id, rtp_seq := 0\<rparr>"
  have t2: "wf_track t2" "held_track t2 f = held_track t f" for f
    using assms(4) by (simp_all add: t2_def wf_track_def held_track_def)
  define c2 where "c2 = c\<lparr>tracks := (tracks c)[ti := t2]\<rparr>"
  have "client_step c h c2 h2"
    unfolding c2_def using assms(2,5) t2 random_u32_quiet [OF id] by (intro track_step) (simp_all add: quiet_def)
  moreover
  define ch where "ch = (if has_session c then (c2\<lparr>stream_id := s\<rparr>, h2)
     else (c2\<lparr>stream_id := s, has_session := True, session_id := word_of_int (rv (k h2 Random)) AND 0x7fffffff\<rparr>,
           h2 @ [(Random, k h2 Random)]))"
  have "\<exists>a b h3. ch = (c2\<lparr>stream_id := s, has_session := a, session_id := b\<rparr>, h3) \<and> quiet h2 h3 \<and> (has_session c \<longrightarrow> a)"
  proof (cases "has_session c")
    case True
    then show ?thesis
      by (intro exI [of _ True] exI [of _ "session_id c"] exI [of _ h2]) (simp add: ch_def c2_def)
  next
    case False
    then show ?thesis
      by (intro exI [of _ True] exI [of _ "word_of_int (rv (k h2 Random)) AND 0x7fffffff"]
          exI [of _ "h2 @ [(Random, k h2 Random)]"]) (simp add: ch_def quiet_def)
  qed
  then obtain a b h3 where ch: "ch = (c2\<lparr>stream_id := s, has_session := a, session_id := b\<rparr>, h3)"
      "quiet h2 h3" "has_session c \<longrightarrow> a" by blast
  from assms(1) have "\<exists>x. send_reply k (fst ch) cseq ''200 OK'' x (snd ch) = Some h' \<and> c' = fst ch"
    by (auto simp: setup_tail_def id Let_def sys_def bind_eq_Some_conv ch_def c2_def t2_def split: if_splits)
  then have c': "c' = c2\<lparr>stream_id := s, has_session := a, session_id := b\<rparr>" and "quiet h3 h'"
    using send_reply_quiet by (auto simp: ch)
  note h3 = ch(2) this(2) and a = ch(3)
  have "client_step c2 h2 c' h'"
    using h3 a assms(3) by (auto simp: client_step_def c' wf_client_def held_client_def quiet_def c2_def)
  ultimately show ?thesis by (rule client_step_trans)
qed

lemma handle_setup_step:
  assumes "handle_setup k srv c req uri cseq h = Some (c', h')"
  shows "client_step c h c' h'"
proof -
  define s where "s = stream_of uri"
  define tr where "tr = header_or_empty req ''Transport'' 256"
  define ti where "ti = (if ends_with uri ''metadata'' then RTSP_TRACK_METADATA else RTSP_TRACK_VIDEO)"
  have ti: "ti < RTSP_TRACK_COUNT" by (simp add: ti_def rtsp_consts)
  obtain t1 h1 where t1: "track_close k (tracks c ! ti) h = (t1, h1)" by force
  have t0: "t1 = track0" "live h1 f = live h f - held_track (tracks c ! ti) f" for f
    using track_close_facts [OF t1] by auto
  obtain port t2 h2 where b: "bind_udp_pair k t1 h1 = (port, t2, h2)" by (cases "bind_udp_pair k t1 h1") auto
  have bf: "live h2 f - held_track t2 f = live h1 f" "t2 = track0\<lparr>rtp_fd := rtp_fd t2, rtcp_fd := rtcp_fd t2\<rparr>"
      "port \<ge> 0 \<Longrightarrow> rtp_fd t2 \<ge> 0 \<and> rtcp_fd t2 \<ge> 0" for f
    using bind_attempts_facts [of t1 k 16 h1 port t2 h2] b by (auto simp: bind_udp_pair_def t0 track0_def)
  have t2: "active t2 = False" "interleaved t2 = False" by (subst bf(2), simp add: track0_def)+
  note defs = assms [unfolded handle_setup_def Let_def, folded s_def tr_def ti_def]
  show ?thesis
  proof (cases "stream_enabled srv s")
    case False
    with assms show ?thesis
      by (auto simp: handle_setup_def Let_def bind_eq_Some_conv simp flip: s_def intro!: client_step_refl dest!: send_reply_quiet)
  next
    case en: True
    then have s: "s < RTSP_STREAM_COUNT" by (simp add: stream_enabled_def)
    have cases: "(c' = c \<and> quiet h h') \<or>
        (\<exists>a b q. setup_tail k c s ti (t1\<lparr>interleaved := True, rtp_channel := a, rtcp_channel := b\<rparr>) q cseq h1 = Some (c', h')) \<or>
        (port < 0 \<and> c' = c\<lparr>tracks := (tracks c)[ti := t2]\<rparr> \<and> quiet h2 h') \<or>
        (\<exists>a b q h3. port \<ge> 0 \<and> setup_tail k c s ti (t2\<lparr>rtp_addr := a, rtcp_addr := b\<rparr>) q cseq h3 = Some (c', h') \<and> quiet h2 h3)"
    proof (cases "strstr tr ''TCP'' = None")
      case True
      show ?thesis
      proof (cases "strstr tr ''client_port=''")
        case None
        with defs en True have "c' = c \<and> quiet h h'" by (auto simp: bind_eq_Some_conv dest: send_reply_quiet)
        then show ?thesis by blast
      next
        case (Some p)
        define q where "q = port_pair (drop 12 p)"
        show ?thesis
        proof (cases "port < 0")
          case neg: True
          with defs en True Some have "c' = c\<lparr>tracks := (tracks c)[ti := t2]\<rparr> \<and> quiet h2 h'"
            by (auto simp: t1 b case_prod_beta bind_eq_Some_conv dest: send_reply_quiet)
          with neg show ?thesis by blast
        next
          case pos: False
          define r where "r = k h2 (Getpeername (tcp_fd c))"
          define h3 where "h3 = h2 @ [(Getpeername (tcp_fd c), r)]"
          have q3: "quiet h2 h3" by (simp add: h3_def quiet_def)
          from defs en True Some pos
          have "\<exists>x. setup_tail k c s ti (t2\<lparr>rtp_addr := (raddr r)\<lparr>sin_port := ucast (fst q)\<rparr>,
              rtcp_addr := (raddr r)\<lparr>sin_port := ucast (snd q)\<rparr>\<rparr>) x cseq h3 = Some (c', h')"
            by (simp add: t1 b case_prod_beta sys_def flip: q_def r_def h3_def) blast
          with pos q3 show ?thesis by (meson linorder_not_less)
        qed
      qed
    next
      case False
      show ?thesis
      proof (cases "strstr tr ''interleaved=''")
        case None
        with defs en False have "c' = c \<and> quiet h h'" by (auto simp: bind_eq_Some_conv dest: send_reply_quiet)
        then show ?thesis by blast
      next
        case (Some p)
        define q where "q = port_pair (drop 12 p)"
        from defs en False Some
        have "\<exists>x. setup_tail k c s ti (t1\<lparr>interleaved := True, rtp_channel := ucast (fst q), rtcp_channel := ucast (snd q)\<rparr>)
            x cseq h1 = Some (c', h')"
          by (simp add: t1 case_prod_beta flip: q_def) blast
        then show ?thesis by blast
      qed
    qed
    consider (no) "c' = c" "quiet h h'"
      | (tcp) a b q where "setup_tail k c s ti (t1\<lparr>interleaved := True, rtp_channel := a, rtcp_channel := b\<rparr>) q cseq h1 = Some (c', h')"
      | (nobind) "port < 0" "c' = c\<lparr>tracks := (tracks c)[ti := t2]\<rparr>" "quiet h2 h'"
      | (udp) a b q h3 where "port \<ge> 0" "setup_tail k c s ti (t2\<lparr>rtp_addr := a, rtcp_addr := b\<rparr>) q cseq h3 = Some (c', h')" "quiet h2 h3"
      using cases by blast
    then show ?thesis
    proof cases
      case no
      then show ?thesis by (simp add: client_step_refl)
    next
      case tcp
      then show ?thesis
        by (rule setup_tail_step [OF _ ti s]) (simp_all add: t0 wf_track_def held_track_def track0_def)
    next
      case nobind
      have "client_step c h (c\<lparr>tracks := (tracks c)[ti := t2]\<rparr>) h'"
        using bf(1) t0 t2 nobind by (intro track_step [OF ti]) (simp_all add: wf_track_def quiet_def)
      with nobind show ?thesis by simp
    next
      case udp
      show ?thesis
        by (rule setup_tail_step [OF udp(2) ti s])
          (use udp bf(1,3) t0 t2 in \<open>simp_all add: wf_track_def quiet_def held_track_def\<close>)
    qed
  qed
qed

lemma handle_play_step: "handle_play k srv c req cseq h = Some (c', h') \<Longrightarrow> client_step c h c' h'"
proof -
  assume p: "handle_play k srv c req cseq h = Some (c', h')"
  obtain ok h1 where ok: "session_ok k c req cseq h = Some (ok, h1)" using p by (auto simp: handle_play_def bind_eq_Some_conv)
  show ?thesis
  proof (cases ok)
    case False
    with p ok session_ok_quiet [OF ok] show ?thesis by (auto simp: handle_play_def intro: client_step_refl)
  next
    case True
    then have "has_session c" using ok by (auto simp: session_ok_def bind_eq_Some_conv split: option.splits if_splits)
    moreover obtain h2 where h2: "quiet h1 h2"
      "c' = c\<lparr>playing := True, waiting_for_sps := True, next_metadata_us := fst (now_us k h2)\<rparr>"
      "h' = call_idr k (request_idr srv) (stream_id c) (snd (now_us k h2))"
      using p ok True by (auto simp: handle_play_def Let_def bind_eq_Some_conv case_prod_beta dest: send_reply_quiet)
    moreover obtain now h3 where "now_us k h2 = (now, h3)" by force
    ultimately show ?thesis
      using session_ok_quiet [OF ok] call_idr_quiet [of h3 k "request_idr srv" "stream_id c"] now_us_quiet [of k h2 now h3]
      by (auto simp: client_step_def wf_client_def held_client_def quiet_def)
  qed
qed

lemma handle_teardown_step: "handle_teardown k c req cseq h = Some (c', h') \<Longrightarrow> client_step c h c' h'"
proof -
  assume t: "handle_teardown k c req cseq h = Some (c', h')"
  then obtain ok h1 where ok: "session_ok k c req cseq h = Some (ok, h1)" by (auto simp: handle_teardown_def bind_eq_Some_conv)
  have q: "client_step c h c h1" using session_ok_quiet [OF ok] by (rule client_step_refl)
  show ?thesis
  proof (cases ok)
    case False
    with t ok q show ?thesis by (auto simp: handle_teardown_def)
  next
    case True
    with t ok obtain h2 h3 where h2: "send_byes k c (tracks c) h1 = Some h2"
        and h3: "send_reply k c cseq ''200 OK'' [] h2 = Some h3" and r: "session_reset k c h3 = (c', h')"
      by (auto simp: handle_teardown_def bind_eq_Some_conv)
    have "client_step c h1 c h3"
      using send_byes_quiet [OF h2] send_reply_quiet [OF h3] by (intro client_step_refl) (rule quiet_trans)
    with q session_reset_step [OF r] show ?thesis by (blast intro: client_step_trans)
  qed
qed

definition ends_in :: "(rtsp_client \<Rightarrow> hist \<Rightarrow> bool) \<Rightarrow> (bool \<times> rtsp_client \<times> hist) option \<Rightarrow> bool" where
  "ends_in P x \<longleftrightarrow> (\<forall>d c' h'. x = Some (d, c', h') \<longrightarrow> P c' h')"

lemma post_if: "ends_in P x \<Longrightarrow> ends_in P y \<Longrightarrow> ends_in P (if b then x else y)"
  by simp

lemma post_reply: "ends_in (client_step c h) (send_reply k c cseq st x h \<bind> (\<lambda>h. Some (b, c, h)))"
  by (auto simp: ends_in_def bind_eq_Some_conv dest: send_reply_quiet intro: client_step_refl)

lemma post_describe: "ends_in (client_step c h) (handle_describe k srv c uri cseq h \<bind> (\<lambda>(d, h). Some (d, c, h)))"
  by (auto simp: ends_in_def bind_eq_Some_conv dest: handle_describe_quiet intro: client_step_refl)

lemma post_client:
  "(\<And>c' h'. X = Some (c', h') \<Longrightarrow> client_step c h c' h') \<Longrightarrow>
     ends_in (client_step c h) (X \<bind> (\<lambda>(c, h). Some (b, c, h)))"
  by (auto simp: ends_in_def bind_eq_Some_conv)

lemma dispatch_step: "dispatch k srv c req meth uri cseq h = Some (d, c', h') \<Longrightarrow> client_step c h c' h'"
proof -
  have "ends_in (client_step c h) (dispatch k srv c req meth uri cseq h)"
    unfolding dispatch_def
    by (intro post_if post_reply post_describe post_client)
       (erule handle_setup_step handle_play_step handle_teardown_step)+
  then show "dispatch k srv c req meth uri cseq h = Some (d, c', h') \<Longrightarrow> ?thesis" by (simp add: ends_in_def)
qed

lemma handle_request_step: "handle_request k crypt srv c req h = Some (d, c', h') \<Longrightarrow> client_step c h c' h'"
  by (auto simp: handle_request_def Let_def bind_eq_Some_conv split: prod.splits if_splits
      dest!: auth_ok_quiet dispatch_step intro: client_step_refl client_step_trans)

lemma drain_requests_step: "drain_requests k crypt srv c h = Some (c', h') \<Longrightarrow> client_step c h c' h'"
proof (induction "length (rxbuf c)" arbitrary: c h rule: less_induct)
  case less
  show ?case
  proof (cases "strstr (cstr (rxbuf c)) (CRLF @ CRLF)")
    case None
    with less.prems show ?thesis by (subst (asm) drain_requests.simps) (simp add: client_step_refl)
  next
    case (Some e)
    let ?n = "length (cstr (rxbuf c)) - length e + 4"
    obtain d c1 h1 where req: "handle_request k crypt srv c (take ?n (rxbuf c)) h = Some (d, c1, h1)"
      using less.prems Some by (subst (asm) drain_requests.simps) (auto simp: Let_def split: option.splits)
    let ?c2 = "c1\<lparr>rxbuf := drop ?n (rxbuf c1)\<rparr>"
    have st: "client_step c h c1 h1" by (rule handle_request_step [OF req])
    show ?thesis
    proof (cases d)
      case False
      with less.prems Some req st show ?thesis by (subst (asm) drain_requests.simps) (simp add: Let_def)
    next
      case True
      have "length (rxbuf ?c2) < length (rxbuf c)"
        using handle_request_conn [OF req] drain_shorter [OF Some] by (simp add: same_conn_def)
      moreover have "drain_requests k crypt srv ?c2 h1 = Some (c', h')"
        using less.prems Some req True by (subst (asm) drain_requests.simps) (simp add: Let_def)
      ultimately have "client_step ?c2 h1 c' h'" by (rule less.hyps)
      moreover have "client_step c1 h1 ?c2 h1" by (auto simp: client_step_def wf_client_def held_client_def)
      ultimately show ?thesis using st by (blast intro: client_step_trans)
    qed
  qed
qed

section \<open>Polling and pushing\<close>

text \<open>
  At this level a closed connection releases everything the client held: the books of the slot
  are balanced whatever happens to it.
\<close>

definition slot_step :: "rtsp_client \<Rightarrow> hist \<Rightarrow> rtsp_client \<Rightarrow> hist \<Rightarrow> bool" where
  "slot_step c h c' h' \<longleftrightarrow> wf_idle c' \<and> (\<forall>f. live h' f - held_client c' f = live h f - held_client c f)"

lemma client_step_wf: "client_step c h c' h' \<Longrightarrow> wf_client c \<Longrightarrow> wf_client c'"
  by (simp add: client_step_def)

lemma client_reset_slot: "client_reset k c h = (c', h') \<Longrightarrow> slot_step c h c' h'"
  using client_reset_facts [of k c h c' h'] by (auto simp: slot_step_def)

lemma two_digits_length [simp]: "length (two_digits i) = 2"
  by (simp add: two_digits_def)

lemma civil_year:
  assumes "0 \<le> days" and "days < 2932897" and "civil days = (y, m, d)"
  shows "0 \<le> y \<and> y < 100000"
proof -
  define z where "z = days + 719468"
  define era where "era = z div 146097"
  define doe where "doe = z mod 146097"
  define yoe where "yoe = (doe - doe div 1460 + doe div 36524 - doe div 146096) div 365"
  have era: "0 \<le> era" "era \<le> 25"
    using assms(1,2) zdiv_mono1 [of z 3652364 146097] by (simp_all add: era_def z_def)
  have four: "4 \<le> era" using assms(1) zdiv_mono1 [of 719468 z 146097] by (simp add: era_def z_def)
  have doe: "0 \<le> doe" "doe \<le> 146096" by (simp_all add: doe_def)
  define num where "num = doe - doe div 1460 + doe div 36524 - doe div 146096"
  have "0 \<le> doe div 1460" "0 \<le> doe div 36524" "0 \<le> doe div 146096" using doe by simp_all
  moreover have "doe div 1460 \<le> doe" "doe div 36524 \<le> 4" "doe div 146096 \<le> 1"
    using doe zdiv_mono2 [of doe 1 1460] zdiv_mono1 [OF doe(2), of 36524] zdiv_mono1 [OF doe(2), of 146096] by simp_all
  ultimately have "- 365 \<le> num" "num \<le> 146100" using doe by (simp_all add: num_def)
  then have "- 365 div 365 \<le> num div 365" "num div 365 \<le> 146100 div 365" by (simp_all only: zdiv_mono1)
  then have yoe: "- 1 \<le> yoe" "yoe \<le> 400" by (simp_all add: yoe_def num_def)
  have "y = yoe + era * 400 + (if m \<le> 2 then 1 else 0)"
    using assms(3)
    unfolding civil_def Let_def z_def [symmetric] era_def [symmetric] doe_def [symmetric] yoe_def [symmetric] prod.inject
    by (elim conjE) (simp only:)
  then show ?thesis using era four yoe by auto
qed

lemma utc_time_length:
  assumes "0 \<le> t" and "t < 253402300800"
  shows "length (utc_time t) < 32"
proof -
  obtain y m d where c: "civil (t div 86400) = (y, m, d)" by (cases "civil (t div 86400)") auto
  have "0 \<le> t div 86400" "t div 86400 < 2932897" using assms by auto
  from civil_year [OF this c] have "length (dec (nat y)) \<le> 5" "0 \<le> y"
    by (auto intro: length_dec_le)
  then show ?thesis by (simp add: utc_time_def c Let_def dec_int_def)
qed

lemma send_metadata_ok:
  assumes "peer_ok k" and "time_ok k"
  shows "\<exists>c' h'. send_metadata k srv c h = Some (c', h')"
proof -
  define r where "r = k h Time"
  have utc: "length (utc_time (rv r)) < 32" using assms(2) by (simp add: time_ok_def utc_time_length r_def)
  then have xml: "length (metadata_xml (utc_time (rv r))) < 512" by (simp add: metadata_xml_def quote_def)
  obtain now h2 where now: "now_us k (h @ [(Time, r)]) = (now, h2)" by force
  have "length ([] :: u8 list) + length (bytes_of (metadata_xml (utc_time (rv r)))) \<le> RTP_MAX_PAYLOAD"
    using xml by (simp add: RTP_MAX_PAYLOAD_def)
  then obtain t' h' where "rtp_send k c (tracks c ! RTSP_TRACK_METADATA) PT_METADATA True
      (media_ts now (metadata_ts_base srv)) [] (bytes_of (metadata_xml (utc_time (rv r)))) h2 = Some (t', h')"
    using rtp_send_ok [OF assms(1)] by blast
  then show ?thesis
    using utc xml now by (simp add: send_metadata_def sys_def Let_def fmt_buf_fits flip: r_def)
qed

lemma rtp_send_track:
  "rtp_send k c t pt m ts p d h = Some (t', h') \<Longrightarrow> t' = t\<lparr>rtp_seq := rtp_seq t + 1\<rparr>"
  by (auto simp: rtp_send_def Let_def bind_eq_Some_conv split: if_splits)

lemma seq_track_step:
  assumes "ti < RTSP_TRACK_COUNT" and "quiet h h'" and "wf_client c"
  shows "client_step c h (c\<lparr>tracks := (tracks c)[ti := (tracks c ! ti)\<lparr>rtp_seq := n\<rparr>]\<rparr>) h'"
proof (rule track_step [OF assms(1)])
  from assms(1,3) have "wf_track (tracks c ! ti)" by (simp add: wf_client_def)
  then show "wf_track ((tracks c ! ti)\<lparr>rtp_seq := n\<rparr>)" by (simp add: wf_track_def)
qed (use assms(2) in \<open>simp add: quiet_def held_track_def\<close>)

lemma send_metadata_step:
  assumes "send_metadata k srv c h = Some (c', h')" and "wf_client c"
  shows "client_step c h c' h'"
proof -
  define r where "r = k h Time"
  obtain now h2 where now: "now_us k (h @ [(Time, r)]) = (now, h2)" by force
  have q: "quiet h h2" using now_us_quiet [OF now] by (simp add: quiet_def)
  from assms(1) now obtain xml t' where
    rs: "rtp_send k c (tracks c ! RTSP_TRACK_METADATA) PT_METADATA True (media_ts now (metadata_ts_base srv)) [] (bytes_of xml) h2 = Some (t', h')"
    and c': "c' = c\<lparr>tracks := (tracks c)[RTSP_TRACK_METADATA := t']\<rparr>"
    by (auto simp: send_metadata_def sys_def Let_def bind_eq_Some_conv simp flip: r_def split: if_splits)
  have "quiet h h'" using q rtp_send_quiet [OF rs] by (rule quiet_trans)
  then show ?thesis unfolding c' rtp_send_track [OF rs]
    by (intro seq_track_step assms(2)) (simp_all add: rtsp_consts)
qed

lemma poll_metadata_ok: "peer_ok k \<Longrightarrow> time_ok k \<Longrightarrow> \<exists>c' h'. poll_metadata k srv now c h = Some (c', h')"
  using send_metadata_ok [of k srv c h] by (auto simp: poll_metadata_def)

lemma poll_metadata_step:
  assumes "poll_metadata k srv now c h = Some (c', h')" and "wf_client c"
  shows "client_step c h c' h'"
proof (cases "playing c \<and> active (tracks c ! RTSP_TRACK_METADATA) \<and> now \<ge> next_metadata_us c")
  case True
  with assms(1) obtain c1 where "send_metadata k srv c h = Some (c1, h')" "c' = c1\<lparr>next_metadata_us := next_metadata_us c1 + METADATA_INTERVAL_US\<rparr>"
    by (auto simp: poll_metadata_def bind_eq_Some_conv)
  with send_metadata_step [OF _ assms(2)] show ?thesis
    by (fastforce simp: client_step_def wf_client_def held_client_def)
next
  case False
  with assms(1) show ?thesis by (auto simp: poll_metadata_def intro: client_step_refl)
qed

lemma poll_client_open:
  assumes "\<not> tcp_fd c < 0" and "r = k h (Recv (tcp_fd c) (RX_CAP - 1 - length (rxbuf c)))"
    and "h1 = h @ [(Recv (tcp_fd c) (RX_CAP - 1 - length (rxbuf c)), r)]"
    and "c1 = (if rv r > 0 then c\<lparr>rxbuf := rxbuf c @ map (char_of \<circ> unat) (take (nat (rv r)) (rbytes r))\<rparr> else c)"
  shows "poll_client k crypt srv now c h =
     (if rv r = 0 \<or> (rv r < 0 \<and> err r \<noteq> EAGAIN) then Some (client_reset k c h1)
      else if nat (rv r) > RX_CAP - 1 - length (rxbuf c) \<or> length (rbytes r) < nat (rv r) then None
      else drain_requests k crypt srv c1 h1 \<bind>
        (\<lambda>(c, h). poll_metadata k srv now (if length (rxbuf c) \<ge> RX_CAP - 1 then c\<lparr>rxbuf := []\<rparr> else c) h))"
  using assms(1) by (simp only: poll_client_def sys_def Let_def prod.case if_False assms(2,3,4))

lemma poll_client_slot:
  assumes "poll_client k crypt srv now c h = Some (c', h')" and "wf_idle c"
  shows "slot_step c h c' h'"
proof (cases "tcp_fd c < 0")
  case True
  with assms show ?thesis by (simp add: poll_client_def slot_step_def)
next
  case op: False
  let ?room = "RX_CAP - 1 - length (rxbuf c)"
  define r where "r = k h (Recv (tcp_fd c) ?room)"
  define h1 where "h1 = h @ [(Recv (tcp_fd c) ?room, r)]"
  have q1: "quiet h h1" by (simp add: h1_def quiet_def)
  have wfc: "wf_client c" and rx: "length (rxbuf c) < RX_CAP - 1" using assms(2) by (simp_all add: wf_idle_def)
  define c1 where "c1 = (if rv r > 0 then c\<lparr>rxbuf := rxbuf c @ map (char_of \<circ> unat) (take (nat (rv r)) (rbytes r))\<rparr> else c)"
  note def = assms(1) [unfolded poll_client_open [of c r k h h1 c1, OF op r_def h1_def c1_def]]
  show ?thesis
  proof (cases "rv r = 0 \<or> (rv r < 0 \<and> err r \<noteq> EAGAIN)")
    case True
    with def op have "client_reset k c h1 = (c', h')" by simp
    from client_reset_slot [OF this] q1 show ?thesis by (simp add: slot_step_def quiet_def)
  next
    case False
    from def op False have fit: "nat (rv r) \<le> ?room" "nat (rv r) \<le> length (rbytes r)"
      by (auto split: if_splits)
    with def op False obtain c2 h2 where d: "drain_requests k crypt srv c1 h1 = Some (c2, h2)"
      and m: "poll_metadata k srv now (if length (rxbuf c2) \<ge> RX_CAP - 1 then c2\<lparr>rxbuf := []\<rparr> else c2) h2 = Some (c', h')"
      by (auto simp: bind_eq_Some_conv split: if_splits)
    let ?c3 = "if length (rxbuf c2) \<ge> RX_CAP - 1 then c2\<lparr>rxbuf := []\<rparr> else c2"
    have c1: "wf_client c1" "tcp_fd c1 = tcp_fd c" "held_client c1 f = held_client c f" for f
      using wfc fit rx by (auto simp: c1_def wf_client_def held_client_def RX_CAP_def)
    have s2: "client_step c1 h1 c2 h2" by (rule drain_requests_step [OF d])
    then have c3: "wf_client ?c3" "tcp_fd ?c3 = tcp_fd c" "length (rxbuf ?c3) < RX_CAP - 1"
        "live h2 f - held_client ?c3 f = live h1 f - held_client c f" for f
      using c1 by (auto simp: client_step_def wf_client_def held_client_def RX_CAP_def)
    from poll_metadata_step [OF m c3(1)] c3 op q1 show ?thesis
      by (auto simp: slot_step_def wf_idle_def client_step_def quiet_def)
  qed
qed

lemma poll_client_ok:
  assumes "kernel_ok k" and "wf_config srv"
  shows "\<exists>c' h'. poll_client k crypt srv now c h = Some (c', h')"
proof -
  have k: "peer_ok k" "time_ok k" "recv_ok k" using assms(1) by (simp_all add: kernel_ok_def)
  let ?room = "RX_CAP - 1 - length (rxbuf c)"
  define r where "r = k h (Recv (tcp_fd c) ?room)"
  define h1 where "h1 = h @ [(Recv (tcp_fd c) ?room, r)]"
  have fit: "\<not> (nat (rv r) > ?room \<or> length (rbytes r) < nat (rv r))"
    using k(3) by (auto simp: recv_ok_def r_def not_less nat_le_iff)
  define c1 where "c1 = (if rv r > 0 then c\<lparr>rxbuf := rxbuf c @ map (char_of \<circ> unat) (take (nat (rv r)) (rbytes r))\<rparr> else c)"
  obtain c2 h2 where d: "drain_requests k crypt srv c1 h1 = Some (c2, h2)"
    using drain_requests_ok [OF k(1) assms(2)] by blast
  obtain c3 h3 where m: "poll_metadata k srv now (if length (rxbuf c2) \<ge> RX_CAP - 1 then c2\<lparr>rxbuf := []\<rparr> else c2) h2 = Some (c3, h3)"
    using poll_metadata_ok [OF k(1,2)] by blast
  obtain c4 h4 where "client_reset k c h1 = (c4, h4)" by force
  with fit d m show ?thesis
  proof (cases "tcp_fd c < 0")
    case True
    then show ?thesis by (simp add: poll_client_def)
  next
    case False
    from fit d m \<open>client_reset k c h1 = (c4, h4)\<close> show ?thesis
      unfolding poll_client_open [of c r k h h1 c1, OF False r_def h1_def c1_def] by simp
  qed
qed

end
