(* ===== verification/Rtsp_Run.thy ===== *)
theory Rtsp_Run
  imports Rtsp_Invariant
begin

text \<open>
  Runs of the RTSP server: any sequence of the operations of \<open>rtsp_server.h\<close> after a successful
  initialisation. The invariant holds throughout, no operation fails, and after
  \<open>rtsp_server_close\<close> every descriptor the server opened has been closed, exactly once.
\<close>

section \<open>Lists of clients\<close>

definition slots_step :: "rtsp_client list \<Rightarrow> hist \<Rightarrow> rtsp_client list \<Rightarrow> hist \<Rightarrow> bool" where
  "slots_step cs h cs' h' \<longleftrightarrow> length cs' = length cs \<and> (\<forall>c \<in> set cs'. wf_idle c) \<and>
     (\<forall>f. live h' f - held_clients cs' f = live h f - held_clients cs f)"

lemma slots_step_Cons:
  assumes "slot_step c h c1 h1" and "slots_step cs h1 cs1 h2"
  shows "slots_step (c # cs) h (c1 # cs1) h2"
proof -
  have a: "live h1 f - held_client c1 f = live h f - held_client c f" for f
    using assms(1) by (simp add: slot_step_def)
  have b: "live h2 f - held_clients cs1 f = live h1 f - held_clients cs f" for f
    using assms(2) by (simp add: slots_step_def)
  have "live h2 f - held_clients (c1 # cs1) f = live h f - held_clients (c # cs) f" for f
    using a [of f] b [of f] by (simp add: held_clients_def)
  with assms show ?thesis by (simp add: slots_step_def slot_step_def)
qed

lemma slots_step_Nil [simp]: "slots_step [] h [] h"
  by (simp add: slots_step_def)

lemma poll_clients_step:
  "poll_clients k crypt srv now cs h = Some (cs', h') \<Longrightarrow> \<forall>c \<in> set cs. wf_idle c \<Longrightarrow> slots_step cs h cs' h'"
proof (induction cs arbitrary: h cs')
  case (Cons c cs)
  from Cons.prems(1) obtain c1 h1 cs1 where
    1: "poll_client k crypt srv now c h = Some (c1, h1)" "poll_clients k crypt srv now cs h1 = Some (cs1, h')" "cs' = c1 # cs1"
    by (auto simp: bind_eq_Some_conv)
  with Cons.prems(2) Cons.IH [OF 1(2)] poll_client_slot [OF 1(1)] show ?case
    by (auto intro: slots_step_Cons)
qed simp

lemma poll_clients_ok:
  "kernel_ok k \<Longrightarrow> wf_config srv \<Longrightarrow> \<exists>cs' h'. poll_clients k crypt srv now cs h = Some (cs', h')"
proof (induction cs arbitrary: h)
  case (Cons c cs)
  obtain c1 h1 where "poll_client k crypt srv now c h = Some (c1, h1)" using poll_client_ok [OF Cons.prems] by blast
  with Cons.IH [OF Cons.prems, of h1] show ?case by auto
qed simp

section \<open>Video to one client\<close>

lemma send_video_nal_step:
  assumes "send_video_nal k c nal ts is_last h = Some (c', h')" and "wf_client c"
  shows "client_step c h c' h'"
proof -
  from assms(1) obtain t where
    t: "send_payloads k c ts is_last (nal_payloads nal) (tracks c ! RTSP_TRACK_VIDEO) h = Some (t, h')"
    and c': "c' = c\<lparr>tracks := (tracks c)[RTSP_TRACK_VIDEO := t]\<rparr>"
    by (auto simp: send_video_nal_payloads)
  show ?thesis unfolding c' send_payloads_track [OF t]
    by (intro seq_track_step send_payloads_quiet [OF t] assms(2)) (simp add: rtsp_consts)
qed

lemma send_payloads_ok: "peer_ok k \<Longrightarrow> \<exists>t' h'. send_payloads k c ts is_last ps t h = Some (t', h')"
proof (induction ps arbitrary: t h)
  case (Cons p ps)
  obtain h1 where "track_send k c t False (rtp_header t PT_H264 (is_last \<and> ps = []) ts @ p) h = Some h1"
    using track_send_ok [OF Cons.prems] by blast
  with Cons.IH [OF Cons.prems, of "t\<lparr>rtp_seq := rtp_seq t + 1\<rparr>" h1] show ?case by simp
qed simp

lemma send_video_nal_ok: "peer_ok k \<Longrightarrow> \<exists>c' h'. send_video_nal k c nal ts is_last h = Some (c', h')"
  using send_payloads_ok [of k c ts is_last "nal_payloads nal" "tracks c ! RTSP_TRACK_VIDEO" h]
  by (auto simp: send_video_nal_payloads)

lemma push_client_ok: "peer_ok k \<Longrightarrow> \<exists>c' h'. push_client k s nal ts is_last c h = Some (c', h')"
  unfolding push_client_def using send_video_nal_ok [of k _ nal ts is_last h] by simp

definition gated :: "nat \<Rightarrow> u8 list \<Rightarrow> rtsp_client \<Rightarrow> bool" where
  "gated s nal c \<longleftrightarrow> tcp_fd c < 0 \<or> \<not> playing c \<or> stream_id c \<noteq> s \<or> \<not> active (tracks c ! RTSP_TRACK_VIDEO) \<or>
    (waiting_for_sps c \<and> nal_type nal \<noteq> NAL_SPS)"

lemma push_client_gated: "gated s nal c \<Longrightarrow> push_client k s nal ts is_last c h = Some (c, h)"
  unfolding gated_def push_client_def by presburger

lemma push_client_sends:
  "\<not> gated s nal c \<Longrightarrow> push_client k s nal ts is_last c h =
     send_video_nal k (if waiting_for_sps c then c\<lparr>waiting_for_sps := False\<rparr> else c) nal ts is_last h"
  unfolding gated_def push_client_def by presburger

lemma push_client_slot:
  assumes "push_client k s nal ts is_last c h = Some (c', h')" and "wf_idle c"
  shows "slot_step c h c' h'"
proof -
  consider (skip) "c' = c" "h' = h"
    | (send) c1 where "send_video_nal k c1 nal ts is_last h = Some (c', h')" "\<not> tcp_fd c < 0"
        "c1 = c \<or> c1 = c\<lparr>waiting_for_sps := False\<rparr>"
  proof (cases "gated s nal c")
    case True
    with assms(1) have "c' = c" "h' = h" by (simp_all add: push_client_gated)
    then show ?thesis by (rule that)
  next
    case False
    with assms(1) have "send_video_nal k (if waiting_for_sps c then c\<lparr>waiting_for_sps := False\<rparr> else c) nal ts is_last h = Some (c', h')"
      by (simp only: push_client_sends [OF False])
    then show ?thesis by (rule that(2)) (use False in \<open>simp_all add: gated_def\<close>)
  qed
  then show ?thesis
  proof cases
    case skip
    with assms(2) show ?thesis by (simp add: slot_step_def)
  next
    case send
    from send(3) assms(2) have c1: "wf_client c1" "tcp_fd c1 = tcp_fd c" "rxbuf c1 = rxbuf c"
      and held: "held_client c1 f = held_client c f" for f
      by (auto simp: wf_idle_def wf_client_def held_client_def)
    from send_video_nal_step [OF send(1) c1(1)] c1(1) have "wf_client c'" "tcp_fd c' = tcp_fd c1"
        "length (rxbuf c') \<le> length (rxbuf c1)" and bal: "live h' f - held_client c' f = live h f - held_client c1 f" for f
      by (simp_all add: client_step_def)
    then have "wf_idle c'" using c1 send(2) assms(2) by (simp add: wf_idle_def)
    with bal held show ?thesis by (simp add: slot_step_def)
  qed
qed

lemma push_clients_step:
  "push_clients k s nal ts is_last cs h = Some (cs', h') \<Longrightarrow> \<forall>c \<in> set cs. wf_idle c \<Longrightarrow> slots_step cs h cs' h'"
proof (induction cs arbitrary: h cs')
  case (Cons c cs)
  from Cons.prems(1) obtain c1 h1 cs1 where
    1: "push_client k s nal ts is_last c h = Some (c1, h1)" "push_clients k s nal ts is_last cs h1 = Some (cs1, h')" "cs' = c1 # cs1"
    by (auto simp: bind_eq_Some_conv)
  with Cons.prems(2) Cons.IH [OF 1(2)] push_client_slot [OF 1(1)] show ?case
    by (auto intro: slots_step_Cons)
qed simp

lemma push_clients_ok: "peer_ok k \<Longrightarrow> \<exists>cs' h'. push_clients k s nal ts is_last cs h = Some (cs', h')"
proof (induction cs arbitrary: h)
  case (Cons c cs)
  obtain c1 h1 where "push_client k s nal ts is_last c h = Some (c1, h1)" using push_client_ok [OF Cons.prems] by blast
  with Cons.IH [OF Cons.prems, of h1] show ?case by auto
qed simp

section \<open>The server\<close>

text \<open>\<open>server_step\<close>: the invariant is kept, the listening socket stays, the books balance.\<close>

definition server_step :: "rtsp_server \<Rightarrow> hist \<Rightarrow> rtsp_server \<Rightarrow> hist \<Rightarrow> bool" where
  "server_step srv h srv' h' \<longleftrightarrow> wf_server srv' \<and> listen_fd srv' = listen_fd srv \<and>
     (\<forall>f. live h' f - held_clients (clients srv') f = live h f - held_clients (clients srv) f)"

lemma server_step_refl: "wf_server srv \<Longrightarrow> server_step srv h srv h"
  by (simp add: server_step_def)

lemma server_step_trans: "server_step s h s1 h1 \<Longrightarrow> server_step s1 h1 s2 h2 \<Longrightarrow> server_step s h s2 h2"
  by (simp add: server_step_def)

lemma server_step_clients:
  assumes "slots_step (clients srv) h cs h'" and "wf_server srv"
  shows "server_step srv h (srv\<lparr>clients := cs\<rparr>) h'"
  using assms by (auto simp: server_step_def slots_step_def wf_server_def wf_config_def)

lemma free_slot_Some: "free_slot cs = Some i \<Longrightarrow> i < length cs \<and> tcp_fd (cs ! i) < 0"
  by (induction cs arbitrary: i) (auto split: if_splits)

lemma held_clients_update:
  "i < length cs \<Longrightarrow> held_clients (cs[i := c]) f = held_clients cs f - held_client (cs ! i) f + held_client c f"
  by (simp add: held_clients_def sum_list_update)

lemma poll_accept_step:
  assumes "poll_accept k srv h = (srv', h')" and "wf_server srv"
  shows "server_step srv h srv' h'"
proof -
  define r where "r = k h (Accept (listen_fd srv))"
  define h1 where "h1 = h @ [(Accept (listen_fd srv), r)]"
  have l1: "live h1 f = live h f + held_fd (rv r) f" for f by (simp add: h1_def held_fd_def)
  note def = assms(1) [unfolded poll_accept_def sys_def Let_def prod.case, folded r_def, folded h1_def]
  show ?thesis
  proof (cases "rv r \<ge> 0")
    case False
    with def have "srv' = srv" "h' = h1" by simp_all
    with False l1 assms(2) show ?thesis by (simp add: server_step_def)
  next
    case True
    show ?thesis
    proof (cases "free_slot (clients srv)")
      case None
      with def True have "srv' = srv" "h' = sys_h k (Close (rv r)) h1" by simp_all
      with True l1 assms(2) show ?thesis by (simp add: server_step_def held_fd_def)
    next
      case (Some i)
      from free_slot_Some [OF Some] have i: "i < length (clients srv)" "tcp_fd (clients srv ! i) < 0" by auto
      have idle: "clients srv ! i = client_init"
        using i assms(2) by (auto simp: wf_server_def wf_idle_def)
      obtain c h2 where cr: "client_reset k (clients srv ! i) h1 = (c, h2)" by force
      from client_reset_facts [OF cr] idle have c: "c = client_init" "live h2 f = live h1 f" for f by simp_all
      define c1 where "c1 = c\<lparr>tcp_fd := rv r, loopback := (drop_bit 24 (s_addr (raddr r)) = 127)\<rparr>"
      from def True Some cr have srv': "srv' = srv\<lparr>clients := (clients srv)[i := c1]\<rparr>" "h' = sys_h k (Set_nonblock (rv r)) h2"
        by (simp_all add: c1_def)
      have h1: "held_client c1 f = held_fd (rv r) f" for f
        by (simp add: c1_def c held_client_def client_init_def sum_list_replicate)
      have "wf_idle c1" using True by (auto simp: c1_def c wf_idle_def wf_client_def client_init_def rtsp_consts)
      then show ?thesis unfolding srv'
        by (intro server_step_clients assms(2))
           (use assms(2) i(1) idle c(2) l1 h1 in \<open>auto simp: slots_step_def held_clients_update wf_server_def dest!: set_update_subset_insert [THEN subsetD]\<close>)
    qed
  qed
qed

lemma rtsp_server_poll_step:
  assumes "rtsp_server_poll k crypt srv h = Some (srv', h')" and "wf_server srv"
  shows "server_step srv h srv' h'"
proof -
  obtain s1 h1 where a: "poll_accept k srv h = (s1, h1)" by force
  obtain now h2 where n: "now_us k h1 = (now, h2)" by force
  from assms(1) obtain cs where p: "poll_clients k crypt s1 now (clients s1) h2 = Some (cs, h')" "srv' = s1\<lparr>clients := cs\<rparr>"
    by (auto simp: rtsp_server_poll_def a n bind_eq_Some_conv)
  have st: "server_step srv h s1 h1" by (rule poll_accept_step [OF a assms(2)])
  then have wf: "wf_server s1" by (simp add: server_step_def)
  then have "slots_step (clients s1) h2 cs h'" by (intro poll_clients_step [OF p(1)]) (simp add: wf_server_def)
  from server_step_clients [OF this wf] have "server_step s1 h1 srv' h'"
    using now_us_quiet [OF n] p(2) by (simp add: server_step_def quiet_def)
  with st show ?thesis by (rule server_step_trans)
qed

lemma rtsp_server_poll_ok:
  assumes "kernel_ok k" and "wf_server srv"
  shows "\<exists>srv' h'. rtsp_server_poll k crypt srv h = Some (srv', h')"
proof -
  obtain s1 h1 where a: "poll_accept k srv h = (s1, h1)" by force
  obtain now h2 where n: "now_us k h1 = (now, h2)" by force
  from poll_accept_step [OF a assms(2)] have "wf_config s1" by (simp add: server_step_def wf_server_def)
  from poll_clients_ok [OF assms(1) this, of crypt now "clients s1" h2] show ?thesis
    by (auto simp: rtsp_server_poll_def a n)
qed

lemma cache_param_set_wf:
  assumes "wf_server srv" and "s < RTSP_STREAM_COUNT"
  shows "wf_server (cache_param_set srv s nal)"
proof -
  have "x \<in> set (xs[i := y]) \<Longrightarrow> x = y \<or> x \<in> set xs" for x y :: 'a and xs i
    using set_update_subset_insert [of xs i y] by auto
  then show ?thesis
    using assms set_update_subset_insert
    by (fastforce simp: cache_param_set_def Let_def wf_server_def wf_config_def)
qed

lemma cache_param_set_fields [simp]:
  "clients (cache_param_set srv s nal) = clients srv" "listen_fd (cache_param_set srv s nal) = listen_fd srv"
  by (simp_all add: cache_param_set_def Let_def)

lemma rtsp_server_push_step:
  assumes "rtsp_server_push_nal k srv s nal pts l h = Some (srv', h')" and "wf_server srv"
  shows "server_step srv h srv' h'"
proof (cases "s < 0 \<or> s \<ge> int RTSP_STREAM_COUNT \<or> nal = []")
  case True
  with assms show ?thesis by (simp add: rtsp_server_push_nal_def server_step_refl)
next
  case False
  let ?s1 = "cache_param_set srv (nat s) nal"
  from False have wf: "wf_server ?s1" by (intro cache_param_set_wf assms(2)) auto
  show ?thesis
  proof (cases "nal_type nal = NAL_SEI")
    case True
    with assms(1) False have "srv' = ?s1" "h' = h" by (auto simp: rtsp_server_push_nal_def Let_def)
    with wf show ?thesis by (simp add: server_step_def)
  next
    case sei: False
    with assms(1) False obtain cs where p: "push_clients k (nat s) nal (media_ts pts (video_ts_base ?s1 ! nat s)) l (clients srv) h = Some (cs, h')"
      "srv' = ?s1\<lparr>clients := cs\<rparr>"
      by (auto simp: rtsp_server_push_nal_def Let_def bind_eq_Some_conv)
    have "slots_step (clients ?s1) h cs h'"
      using push_clients_step [OF p(1)] wf by (simp add: wf_server_def)
    from server_step_clients [OF this wf] p(2) show ?thesis by (simp add: server_step_def)
  qed
qed

lemma rtsp_server_push_ok: "peer_ok k \<Longrightarrow> \<exists>srv' h'. rtsp_server_push_nal k srv s nal pts l h = Some (srv', h')"
  unfolding rtsp_server_push_nal_def Let_def
  using push_clients_ok [of k "nat s" nal "media_ts pts (video_ts_base (cache_param_set srv (nat s) nal) ! nat s)" l "clients srv" h]
  by auto

lemma clients_reset_facts:
  "clients_reset k cs h = (cs', h') \<Longrightarrow> cs' = replicate (length cs) client_init \<and> live h' f = live h f - held_clients cs f"
proof (induction cs arbitrary: h h' cs')
  case (Cons c cs)
  obtain c1 h1 where 1: "client_reset k c h = (c1, h1)" by force
  obtain cs2 h2 where 2: "clients_reset k cs h1 = (cs2, h2)" by force
  show ?case using Cons.prems Cons.IH [OF 2] client_reset_facts [OF 1, of f] by (simp add: 1 2 held_clients_def)
qed (simp add: held_clients_def)

section \<open>Runs\<close>

datatype server_op =
    Op_poll
  | Op_push int "u8 list" u64 bool
  | Op_enable int u32
  | Op_credentials string string
  | Op_shadow string
  | Op_idr idr_callback

fun server_do :: "kernel \<Rightarrow> (string \<Rightarrow> string \<Rightarrow> string option) \<Rightarrow> server_op \<Rightarrow> rtsp_server \<Rightarrow> hist \<Rightarrow> (rtsp_server \<times> hist) option" where
  "server_do k crypt Op_poll srv h = rtsp_server_poll k crypt srv h"
| "server_do k crypt (Op_push s nal pts l) srv h = rtsp_server_push_nal k srv s nal pts l h"
| "server_do k crypt (Op_enable s n) srv h = Some (rtsp_server_enable_stream srv s n, h)"
| "server_do k crypt (Op_credentials u p) srv h = Some (rtsp_server_set_credentials srv u p, h)"
| "server_do k crypt (Op_shadow p) srv h = Some (rtsp_server_use_shadow srv p, h)"
| "server_do k crypt (Op_idr cb) srv h = Some (rtsp_server_on_idr_request srv cb, h)"

fun server_run :: "kernel \<Rightarrow> (string \<Rightarrow> string \<Rightarrow> string option) \<Rightarrow> server_op list \<Rightarrow> rtsp_server \<Rightarrow> hist \<Rightarrow> (rtsp_server \<times> hist) option" where
  "server_run k crypt [] srv h = Some (srv, h)"
| "server_run k crypt (op # ops) srv h =
     do { (srv, h) \<leftarrow> server_do k crypt op srv h; server_run k crypt ops srv h }"

lemma server_do_ok:
  assumes "kernel_ok k" and "wf_server srv"
  shows "\<exists>srv' h'. server_do k crypt op srv h = Some (srv', h') \<and> server_step srv h srv' h'"
proof (cases op)
  case Op_poll
  then show ?thesis using rtsp_server_poll_ok [OF assms] rtsp_server_poll_step [OF _ assms(2)] by fastforce
next
  case (Op_push s nal pts l)
  have "peer_ok k" using assms(1) by (simp add: kernel_ok_def)
  with Op_push show ?thesis using rtsp_server_push_ok rtsp_server_push_step [OF _ assms(2)] by fastforce
next
  case (Op_enable s n)
  with assms(2) show ?thesis
    by (auto simp: rtsp_server_enable_stream_def server_step_def wf_server_def wf_config_def)
next
  case (Op_credentials u p)
  with assms(2) show ?thesis
    by (auto simp: rtsp_server_set_credentials_def server_step_def wf_server_def wf_config_def trunc_def)
next
  case (Op_shadow p)
  with assms(2) show ?thesis
    by (auto simp: rtsp_server_use_shadow_def server_step_def wf_server_def wf_config_def trunc_def)
next
  case (Op_idr cb)
  with assms(2) show ?thesis
    by (auto simp: rtsp_server_on_idr_request_def server_step_def wf_server_def wf_config_def)
qed

lemma server_run_ok:
  "kernel_ok k \<Longrightarrow> wf_server srv \<Longrightarrow> \<exists>srv' h'. server_run k crypt ops srv h = Some (srv', h') \<and> server_step srv h srv' h'"
proof (induction ops arbitrary: srv h)
  case (Cons op ops)
  obtain s1 h1 where 1: "server_do k crypt op srv h = Some (s1, h1)" "server_step srv h s1 h1"
    using server_do_ok [OF Cons.prems] by blast
  then have "wf_server s1" by (simp add: server_step_def)
  from Cons.IH [OF Cons.prems(1) this, of h1] 1 show ?case by (auto intro: server_step_trans)
qed (auto intro: server_step_refl)

lemma random_list_quiet: "random_list k n h = (xs, h') \<Longrightarrow> quiet h h' \<and> length xs = n"
  by (induction n arbitrary: h xs) (auto split: prod.splits dest!: random_u32_quiet simp: quiet_def)

lemma seed_random_quiet: "quiet h (seed_random k h)"
  by (auto simp: seed_random_def sys_def quiet_def dest!: now_us_quiet split: prod.splits)

lemma wf_server0: "length bs = RTSP_STREAM_COUNT \<Longrightarrow> wf_server (server0\<lparr>video_ts_base := bs, metadata_ts_base := m, listen_fd := f\<rparr>)"
  by (auto simp: wf_server_def wf_config_def server0_def)

text \<open>The calls of the initialisation.\<close>

lemma rtsp_server_init_adds:
  assumes P: "P Time" "P Getpid" "P Clock_us" "P Random" "P Socket_stream" "\<And>w. P (Srandom w)" "\<And>f. P (Setsockopt f)"
    "\<And>f a. P (Bind f a)" "\<And>f. P (Listen f)" "\<And>f. P (Close f)" "\<And>f. P (Set_nonblock f)"
  shows "adds P h (snd (snd (rtsp_server_init k port h)))"
proof -
  have rnd: "adds P h (snd (random_u32 k h))" and now: "adds P h (snd (now_us k h))" for h
    unfolding random_u32_def now_us_def Let_def by ((intro ad.walk2; simp add: P)+)
  have rl: "adds P h (snd (random_list k n h))" for n h
  proof (induction n arbitrary: h)
    case (Suc n)
    obtain x h1 where 1: "random_u32 k h = (x, h1)" by force
    obtain xs h2 where 2: "random_list k n h1 = (xs, h2)" by force
    show ?case using rnd [of h] Suc.IH [of h1] by (simp add: 1 2) (blast intro: adds_trans)
  qed simp
  have sd: "adds P h (seed_random k h)" for h
    unfolding seed_random_def Let_def
    by (intro ad.walk1 ad.walk_call [where R = "adds P h" and P = P and ?h0.0 = h, OF _ now]) (simp_all add: P)
  obtain bs h1 where 1: "random_list k RTSP_STREAM_COUNT (seed_random k h) = (bs, h1)" by force
  obtain mb h2 where 2: "random_u32 k h1 = (mb, h2)" by force
  have a: "adds P h h2"
    using sd [of h] rl [of "seed_random k h" RTSP_STREAM_COUNT] rnd [of h1] by (auto simp: 1 2 intro: adds_trans)
  show ?thesis
    unfolding rtsp_server_init_def Let_def 1 2 prod.case
    by (intro ad.walk3 a) (simp_all add: a P)
qed

lemma rtsp_server_init_facts:
  assumes "rtsp_server_init k port h = (0, srv, h')"
  shows "wf_server srv \<and> listen_fd srv \<ge> 0 \<and> clients srv = replicate RTSP_MAX_CLIENTS client_init \<and>
     live h' f = live h f + held_fd (listen_fd srv) f"
proof -
  obtain bs h2 where bs: "random_list k RTSP_STREAM_COUNT (seed_random k h) = (bs, h2)" by force
  obtain mb h3 where mb: "random_u32 k h2 = (mb, h3)" by force
  define r where "r = k h3 Socket_stream"
  define h4 where "h4 = h3 @ [(Socket_stream, r)]"
  have q: "live h4 f = live h f + held_fd (rv r) f"
    using seed_random_quiet [of h k] random_list_quiet [OF bs] random_u32_quiet [OF mb]
    by (simp add: h4_def quiet_def held_fd_def)
  note def = assms [unfolded rtsp_server_init_def Let_def bs prod.case mb sys_def, folded r_def, folded h4_def]
  have "rv r \<ge> 0" using def by (auto split: if_splits)
  moreover have "srv = server0\<lparr>video_ts_base := bs, metadata_ts_base := mb, listen_fd := rv r\<rparr>"
    using def by (auto split: if_splits)
  moreover have "live h' f = live h4 f" using def by (auto split: if_splits simp: sys_h_def sys_def)
  ultimately show ?thesis using q wf_server0 random_list_quiet [OF bs] by (simp add: server0_def)
qed

text \<open>
  A kernel for the examples: new descriptors are numbered by the length of the history, sockets
  take everything, nothing is ever received, the clock stands still.
\<close>

definition k_idle :: kernel where
  "k_idle h c =
     (case c of
        Send fd d \<Rightarrow> ok_reply (int (length d))
      | Recv fd n \<Rightarrow> (ok_reply (- 1))\<lparr>err := EAGAIN\<rparr>
      | Socket_stream \<Rightarrow> ok_reply (int (length h))
      | Socket_dgram \<Rightarrow> ok_reply (int (length h))
      | Accept fd \<Rightarrow> ok_reply (int (length h))
      | _ \<Rightarrow> ok_reply 0)"

lemma k_idle_ok: "kernel_ok k_idle" "send_reliable k_idle"
proof -
  show "send_reliable k_idle"
    by (auto simp: send_reliable_def send_bounded_def send_responsive_def k_idle_def eintr_def intro!: exI [of _ 0])
  then show "kernel_ok k_idle"
    by (auto simp: kernel_ok_def peer_ok_def send_reliable_def recv_ok_def time_ok_def k_idle_def)
qed

lemma k_idle_init: "fst (rtsp_server_init k_idle 554 []) = 0"
  by (auto simp: rtsp_server_init_def sys_def k_idle_def ok_reply_def split: prod.splits)

end
