(* ===== verification/Rtsp_Text.thy ===== *)
theory Rtsp_Text
  imports Rtsp_Run
begin

text \<open>
  Requests as text. A request is rendered from a method, a URI and a list of fields; the parsing
  functions of the server are shown to read such a text back. On this rest the properties of
  authentication and of sessions.
\<close>

fun render_fields :: "(string \<times> string) list \<Rightarrow> string" where
  "render_fields [] = CRLF"
| "render_fields ((n, v) # fs) = n @ '': '' @ v @ CRLF @ render_fields fs"

fun lookup_field :: "string \<Rightarrow> (string \<times> string) list \<Rightarrow> string option" where
  "lookup_field name [] = None"
| "lookup_field name ((n, v) # fs) = (if map tolower n = map tolower name then Some v else lookup_field name fs)"

definition wf_field :: "string \<times> string \<Rightarrow> bool" where
  "wf_field f \<longleftrightarrow> NUL \<notin> set (fst f) \<union> set (snd f) \<and> CR \<notin> set (fst f) \<and> CHR '':'' \<notin> set (fst f) \<and> CR \<notin> set (snd f) \<and>
     (snd f = [] \<or> hd (snd f) \<noteq> CHR '' '')"

section \<open>Header fields\<close>

lemma starts_with_append [simp]: "starts_with (a @ b) a"
  by (simp add: starts_with_def)

lemma strstr_crlf: "CR \<notin> set a \<Longrightarrow> strstr (a @ CRLF @ b) CRLF = Some (CRLF @ b)"
  by (induction a) (auto simp: starts_with_def)

lemma tolower_colon: "tolower c = CHR '':'' \<longleftrightarrow> c = CHR '':''"
proof -
  have "(of_char (tolower c) :: nat) = 58 \<longleftrightarrow> (of_char c :: nat) = 58"
    by (auto simp: tolower_def)
  moreover have "(of_char x :: nat) = 58 \<longleftrightarrow> x = CHR '':''" for x
    using of_char_eq_iff [of x "CHR '':''", where 'a = nat] by simp
  ultimately show ?thesis by blast
qed

lemma caseless_header:
  assumes "CHR '':'' \<notin> set n" and "CHR '':'' \<notin> set name"
  shows "header_matches (n @ CHR '':'' # rest) name \<longleftrightarrow> map tolower n = map tolower name"
proof -
  consider "length name < length n" | "length name = length n" | "length n < length name" by linarith
  then show ?thesis
  proof cases
    case 1
    then have "(n @ CHR '':'' # rest) ! length name \<noteq> CHR '':''"
      using assms(1) by (metis nth_append nth_mem)
    with 1 show ?thesis by (auto simp: header_matches_def dest: arg_cong [where f = length])
  next
    case 2
    then show ?thesis by (auto simp: header_matches_def caseless_prefix_def)
  next
    case 3
    have "\<not> caseless_prefix (n @ CHR '':'' # rest) name"
    proof
      assume "caseless_prefix (n @ CHR '':'' # rest) name"
      then have "map tolower (take (length name) (n @ CHR '':'' # rest)) ! length n = map tolower name ! length n"
        by (simp add: caseless_prefix_def)
      with 3 caseless_prefix_length [OF \<open>caseless_prefix (n @ CHR '':'' # rest) name\<close>]
      have "tolower (CHR '':'') = tolower (name ! length n)" by (simp add: nth_append)
      with 3 assms(2) show False by (metis nth_mem tolower_colon)
    qed
    with 3 show ?thesis by (auto simp: header_matches_def dest: arg_cong [where f = length])
  qed
qed

lemma header_value_lookup:
  "CR \<notin> set first \<Longrightarrow> CHR '':'' \<notin> set name \<Longrightarrow> \<forall>f \<in> set fs. wf_field f \<Longrightarrow>
     header_value (first @ CRLF @ render_fields fs) name cap = map_option (take (cap - 1)) (lookup_field name fs)"
proof (induction fs arbitrary: first)
  case Nil
  have d: "drop 2 CRLF = ([] :: string)" by (simp add: numeral_2_eq_2)
  have n: "\<not> header_matches [] name" "header_value [] name cap = None"
    by (simp_all add: header_matches_def header_value_none)
  have "strstr ([] @ CRLF @ []) CRLF = Some (CRLF @ [])" by (rule strstr_crlf) simp
  then have "header_value CRLF name cap = None"
    using header_value_step [of CRLF CRLF name cap] unfolding append_Nil append_Nil2 d by (simp add: n)
  moreover have "\<not> header_matches CRLF name"
  proof
    assume m: "header_matches CRLF name"
    then have "CRLF ! length name \<in> set CRLF" unfolding header_matches_def by (intro nth_mem) blast
    with m show False by (auto simp: header_matches_def)
  qed
  ultimately show ?case using Nil(1)
    by (subst header_value_step [OF strstr_crlf]) simp_all
next
  case (Cons f fs)
  obtain n v where f: "f = (n, v)" by force
  from Cons.prems(3) have n: "CHR '':'' \<notin> set n" "CR \<notin> set n" "CR \<notin> set v" "v = [] \<or> hd v \<noteq> CHR '' ''"
    by (simp_all add: f wf_field_def)
  let ?rest = "n @ CHR '':'' # CHR '' '' # v @ CRLF @ render_fields fs"
  have rendered: "render_fields (f # fs) = ?rest" by (simp add: f)
  note step = header_value_step [OF strstr_crlf [OF Cons.prems(1)], of "render_fields (f # fs)" name cap]
  have match: "header_matches ?rest name \<longleftrightarrow> map tolower n = map tolower name"
    by (rule caseless_header [OF n(1) Cons.prems(2)])
  show ?case
  proof (cases "map tolower n = map tolower name")
    case True
    then have len: "length n = length name" by (metis length_map)
    have "dropWhile (\<lambda>c. c = CHR '' '') (CHR '' '' # v @ CRLF @ render_fields fs) = v @ CRLF @ render_fields fs"
      using n(4) by (cases v) auto
    moreover have "takeWhile (\<lambda>c. c \<noteq> CR) (v @ CRLF @ render_fields fs) = v"
      using n(3) by (induction v) auto
    ultimately have "field_text (drop (length name + 1) ?rest) cap = take (cap - 1) v"
      using len by (simp add: field_text_def)
    with True match show ?thesis unfolding step by (simp add: rendered f)
  next
    case False
    have "CR \<notin> set (n @ CHR '':'' # CHR '' '' # v)" using n by auto
    from Cons.IH [OF this Cons.prems(2)] Cons.prems(3)
    have "header_value ?rest name cap = map_option (take (cap - 1)) (lookup_field name fs)" by simp
    with False match show ?thesis unfolding step by (simp add: rendered f)
  qed
qed

section \<open>Request lines\<close>

definition req_text :: "string \<Rightarrow> string \<Rightarrow> (string \<times> string) list \<Rightarrow> string" where
  "req_text meth uri fs = meth @ '' '' @ uri @ '' RTSP/1.0'' @ CRLF @ render_fields fs"

definition wf_word :: "nat \<Rightarrow> string \<Rightarrow> bool" where
  "wf_word n w \<longleftrightarrow> w \<noteq> [] \<and> length w \<le> n \<and> (\<forall>c \<in> set w. \<not> isspace c \<and> c \<noteq> NUL)"

definition wf_req :: "string \<Rightarrow> string \<Rightarrow> (string \<times> string) list \<Rightarrow> bool" where
  "wf_req meth uri fs \<longleftrightarrow> wf_word 31 meth \<and> wf_word 255 uri \<and> (\<forall>f \<in> set fs. wf_field f)"

lemma scan_s_word:
  assumes "wf_word n w" and "isspace x"
  shows "scan_s n (w @ x # rest) = (w, x # rest)"
proof -
  from assms(1) have "dropWhile isspace (w @ x # rest) = w @ x # rest"
    by (cases w) (auto simp: wf_word_def)
  moreover have "takeWhile (\<lambda>c. \<not> isspace c) (w @ x # rest) = w"
    using assms by (simp add: takeWhile_append2 wf_word_def)
  ultimately show ?thesis using assms(1) by (simp add: scan_s_def Let_def wf_word_def)
qed

lemma scan_s_blank: "scan_s n (CHR '' '' # s) = scan_s n s"
  by (simp add: scan_s_def isspace_def)

lemma header_req:
  assumes "wf_req meth uri fs" and "CHR '':'' \<notin> set name"
  shows "header_value (req_text meth uri fs) name cap = map_option (take (cap - 1)) (lookup_field name fs)"
proof -
  have "isspace CR" by (simp add: isspace_def)
  then have "CR \<notin> set meth" "CR \<notin> set uri" using assms(1) by (auto simp: wf_req_def wf_word_def)
  then have "CR \<notin> set (meth @ '' '' @ uri @ '' RTSP/1.0'')" by simp
  from header_value_lookup [OF this assms(2)] assms(1) show ?thesis by (simp add: wf_req_def req_text_def)
qed

lemma handle_request_text:
  assumes "wf_req meth uri fs"
  shows "handle_request k crypt srv c (req_text meth uri fs) h =
     (let cseq = header_or_empty (req_text meth uri fs) ''CSeq'' 32 in
      do { (ok, h) \<leftarrow> auth_ok k crypt srv c (req_text meth uri fs) cseq h;
           if \<not> ok then Some (True, c, h) else dispatch k srv c (req_text meth uri fs) meth uri cseq h })"
proof -
  have w: "wf_word 31 meth" "wf_word 255 uri" using assms by (simp_all add: wf_req_def)
  have sp: "isspace (CHR '' '')" by (simp add: isspace_def)
  have 1: "scan_s 31 (req_text meth uri fs) = (meth, CHR '' '' # uri @ CHR '' '' # ''RTSP/1.0'' @ CRLF @ render_fields fs)"
    using scan_s_word [OF w(1) sp, of "uri @ CHR '' '' # ''RTSP/1.0'' @ CRLF @ render_fields fs"] by (simp add: req_text_def)
  have 2: "scan_s 255 (CHR '' '' # uri @ CHR '' '' # ''RTSP/1.0'' @ CRLF @ render_fields fs) =
      (uri, CHR '' '' # ''RTSP/1.0'' @ CRLF @ render_fields fs)"
    unfolding scan_s_blank by (rule scan_s_word [OF w(2) sp])
  show ?thesis unfolding handle_request_def 1 2 Let_def prod.case ..
qed

section \<open>Framing\<close>

lemma strstr_empty_line:
  "CR \<notin> set a \<Longrightarrow> \<not> starts_with b CRLF \<Longrightarrow> strstr (a @ CRLF @ b) (CRLF @ CRLF) = strstr b (CRLF @ CRLF)"
  by (induction a) (auto simp: starts_with_def)

lemma strstr_end: "CR \<notin> set a \<Longrightarrow> strstr (a @ CRLF @ CRLF @ b) (CRLF @ CRLF) = Some (CRLF @ CRLF @ b)"
  by (induction a) (auto simp: starts_with_def)

lemma field_not_empty_line: "wf_field (n, v) \<Longrightarrow> \<not> starts_with (n @ '': '' @ x) CRLF"
  by (cases n) (auto simp: starts_with_def wf_field_def)

lemma strstr_fields:
  "CR \<notin> set first \<Longrightarrow> \<forall>f \<in> set fs. wf_field f \<Longrightarrow>
     strstr (first @ CRLF @ render_fields fs @ rest_in) (CRLF @ CRLF) = Some (CRLF @ CRLF @ rest_in)"
proof (induction fs arbitrary: first)
  case Nil
  then show ?case using strstr_end [of first rest_in] by simp
next
  case (Cons f fs)
  obtain n v where f: "f = (n, v)" by force
  with Cons.prems have wf: "wf_field (n, v)" by simp
  then have cr: "CR \<notin> set (n @ '': '' @ v)" by (auto simp: wf_field_def)
  have eq: "render_fields (f # fs) @ rest_in = (n @ '': '' @ v) @ CRLF @ render_fields fs @ rest_in" by (simp add: f)
  have "\<not> starts_with (render_fields (f # fs) @ rest_in) CRLF"
    using field_not_empty_line [OF wf, of "v @ CRLF @ render_fields fs @ rest_in"] by (simp add: f)
  moreover have "\<forall>f \<in> set fs. wf_field f" using Cons.prems(2) by simp
  ultimately show ?case
    using strstr_empty_line [OF Cons.prems(1)] Cons.IH [OF cr] by (simp only: eq) simp
qed

lemma cstr_append: "NUL \<notin> set a \<Longrightarrow> cstr (a @ b) = a @ cstr b"
  by (induction a) (auto simp: cstr_def)

lemma render_fields_no_nul: "\<forall>f \<in> set fs. wf_field f \<Longrightarrow> NUL \<notin> set (render_fields fs)"
  by (induction fs rule: render_fields.induct) (auto simp: wf_field_def)

lemma req_text_no_nul: "wf_req meth uri fs \<Longrightarrow> NUL \<notin> set (req_text meth uri fs)"
  using render_fields_no_nul [of fs] by (auto simp: wf_req_def req_text_def wf_word_def)

lemma req_text_frame:
  assumes "wf_req meth uri fs"
  shows "strstr (cstr (req_text meth uri fs @ rest_in)) (CRLF @ CRLF) = Some (CRLF @ CRLF @ cstr rest_in)"
proof -
  have "isspace CR" by (simp add: isspace_def)
  then have "CR \<notin> set meth" "CR \<notin> set uri" using assms by (auto simp: wf_req_def wf_word_def)
  then have "CR \<notin> set (meth @ '' '' @ uri @ '' RTSP/1.0'')" by simp
  from strstr_fields [OF this, of fs "cstr rest_in"] assms show ?thesis
    by (simp add: cstr_append req_text_no_nul) (simp add: req_text_def wf_req_def)
qed

lemma drain_requests_step_text:
  assumes "wf_req meth uri fs" and "rxbuf c = req_text meth uri fs @ rest_in"
  shows "drain_requests k crypt srv c h =
     (case handle_request k crypt srv c (req_text meth uri fs) h of
        None \<Rightarrow> None
      | Some (done, c', h) \<Rightarrow>
          if done then drain_requests k crypt srv (c'\<lparr>rxbuf := rest_in\<rparr>) h else Some (c', h))"
proof -
  let ?r = "req_text meth uri fs"
  have "length (cstr (rxbuf c)) = length ?r + length (cstr rest_in)"
    by (simp add: assms(2) cstr_append req_text_no_nul [OF assms(1)])
  moreover have "4 \<le> length ?r" by (simp add: req_text_def)
  ultimately have n: "length (cstr (rxbuf c)) - length (CRLF @ CRLF @ cstr rest_in) + 4 = length ?r" by simp
  have str: "strstr (cstr (rxbuf c)) (CRLF @ CRLF) = Some (CRLF @ CRLF @ cstr rest_in)"
    unfolding assms(2) by (rule req_text_frame [OF assms(1)])
  note step = drain_requests_some [OF str n [symmetric]]
  have tk: "take (length ?r) (rxbuf c) = ?r" by (simp add: assms(2))
  show ?thesis
  proof (cases "handle_request k crypt srv c ?r h")
    case None
    then show ?thesis unfolding step tk by simp
  next
    case (Some x)
    then obtain d c' h' where x: "handle_request k crypt srv c ?r h = Some (d, c', h')" by (cases x) auto
    from handle_request_conn [OF this] have "rxbuf c' = ?r @ rest_in" by (simp add: same_conn_def assms(2))
    with x show ?thesis unfolding step tk by simp
  qed
qed

end
