(* ===== verification/Rtsp_Props.thy ===== *)
theory Rtsp_Props
  imports Rtsp_Text
begin

text \<open>
  Properties of the RTSP server: runs without failure and without leaks, parsing and framing of
  requests, authentication, sessions, parameter sets, and what a playing client receives.
\<close>

section \<open>Runs\<close>

text \<open>C1: Any sequence of polls, pushed NAL units and configuration calls after a successful
  initialisation returns without leaving a buffer, whatever clients send and in whatever state the
  kernel leaves the sockets, and keeps the invariant; after \<open>rtsp_server_close\<close> every descriptor
  has been closed as often as it was opened, so nothing leaks and nothing is closed twice.\<close>
theorem server_runs_close_clean:
  assumes "kernel_ok k" and "fst (rtsp_server_init k port h) = 0"
  shows "\<exists>srv h2. server_run k crypt ops (fst (snd (rtsp_server_init k port h))) (snd (snd (rtsp_server_init k port h))) = Some (srv, h2) \<and>
     wf_server srv \<and> (\<forall>f. live (snd (rtsp_server_close k srv h2)) f = live h f)"
proof -
  obtain s1 h1 where i: "rtsp_server_init k port h = (0, s1, h1)"
    using assms(2) by (cases "rtsp_server_init k port h") auto
  note init = rtsp_server_init_facts [OF i]
  then obtain srv h2 where r: "server_run k crypt ops s1 h1 = Some (srv, h2)" "server_step s1 h1 srv h2"
    using server_run_ok [OF assms(1)] by blast
  have "live (snd (rtsp_server_close k srv h2)) f = live h f" for f
  proof -
    obtain cs h3 where c: "clients_reset k (clients srv) h2 = (cs, h3)" by force
    have "live h3 f = live h2 f - held_clients (clients srv) f" using clients_reset_facts [OF c] by blast
    moreover have "held_clients (clients s1) f = 0"
      using init by (simp add: held_clients_def sum_list_replicate)
    ultimately show ?thesis
      using r(2) init rtsp_server_init_facts [OF i, of f] by (simp add: rtsp_server_close_def c server_step_def) 
  qed
  with i r show ?thesis by (auto simp: server_step_def)
qed

lemma server_runs_close_clean_witness:
  defines "i \<equiv> rtsp_server_init k_idle 554 []"
    and "ops \<equiv> [Op_enable 0 25, Op_credentials ''root'' ''12345'', Op_poll, Op_push 0 [0x67, 1, 2, 3] 40000 True, Op_poll]"
  shows "\<exists>srv h2. server_run k_idle (\<lambda>p s. None) ops (fst (snd i)) (snd (snd i)) = Some (srv, h2) \<and>
     wf_server srv \<and> (\<forall>f. live (snd (rtsp_server_close k_idle srv h2)) f = live [] f)"
  unfolding i_def
proof (rule server_runs_close_clean [OF k_idle_ok(1)])
  show "fst (rtsp_server_init k_idle 554 []) = 0"
    by (auto simp: rtsp_server_init_def sys_def k_idle_def ok_reply_def split: prod.splits)
qed

section \<open>Parsing and framing\<close>

text \<open>C15: Header fields are looked up by name without regard to case: on a request rendered from a method,
  a URI and a list of fields, \<open>header_value\<close> returns the value of the first field of that name, cut
  to the caller's buffer, and nothing when there is none.\<close>
theorem header_value_finds_field:
  assumes "wf_req meth uri fs" and "CHR '':'' \<notin> set name"
  shows "header_value (req_text meth uri fs) name cap = map_option (take (cap - 1)) (lookup_field name fs)"
  using assms by (rule header_req)

lemma header_value_finds_field_witness:
  "header_value (req_text ''PLAY'' ''rtsp://h/stream=0'' [(''CSeq'', ''7''), (''session'', ''42'')]) ''Session'' 64 =
     map_option (take (64 - 1)) (lookup_field ''Session'' [(''CSeq'', ''7''), (''session'', ''42'')])"
  by (rule header_value_finds_field) (simp_all add: wf_req_def wf_word_def wf_field_def isspace_def)

text \<open>C14: Requests are framed exactly: if the buffer begins with a complete request, whatever follows it, that
  request and nothing else is handled, and the bytes behind it stay in the buffer for the next round,
  unless the request could not be answered yet, when the whole buffer stays.\<close>
theorem drain_requests_frames:
  assumes "wf_req meth uri fs" and "rxbuf c = req_text meth uri fs @ rest_in"
  shows "drain_requests k crypt srv c h =
     (case handle_request k crypt srv c (req_text meth uri fs) h of
        None \<Rightarrow> None
      | Some (done, c', h) \<Rightarrow>
          if done then drain_requests k crypt srv (c'\<lparr>rxbuf := rest_in\<rparr>) h else Some (c', h))"
  using assms by (rule drain_requests_step_text)

lemma drain_requests_frames_witness:
  defines "c \<equiv> client_init\<lparr>rxbuf := req_text ''OPTIONS'' ''*'' [(''CSeq'', ''1'')] @ ''PLAY''\<rparr>"
  shows "drain_requests k_idle (\<lambda>p s. None) server0 c [] =
     (case handle_request k_idle (\<lambda>p s. None) server0 c (req_text ''OPTIONS'' ''*'' [(''CSeq'', ''1'')]) [] of
        None \<Rightarrow> None
      | Some (done, c', h) \<Rightarrow>
          if done then drain_requests k_idle (\<lambda>p s. None) server0 (c'\<lparr>rxbuf := ''PLAY''\<rparr>) h else Some (c', h))"
  by (rule drain_requests_frames) (simp_all add: c_def wf_req_def wf_word_def wf_field_def isspace_def)

section \<open>Authentication\<close>

lemma send_reply_wire:
  assumes "send_reliable k" and "length cseq \<le> 31" and "length st \<le> 80" and "length x \<le> 255"
  shows "\<exists>cs. send_reply k c cseq st x h = Some (h @ cs) \<and> only_sends (tcp_fd c) cs \<and>
     wire (tcp_fd c) cs = bytes_of (reply_text cseq st x)"
proof -
  have "length (reply_text cseq st x) < 512" using assms by (simp add: reply_text_def SERVER_NAME_def)
  then show ?thesis
    using send_all_reliable [OF assms(1), of "tcp_fd c" "bytes_of (reply_text cseq st x)" h]
    by (simp add: send_reply_def fmt_buf_fits)
qed

lemma cseq_length: "length (header_or_empty req ''CSeq'' 32) \<le> 31"
  using length_header_or_empty [of req "''CSeq''" 32] by simp

lemma challenge_length: "length challenge \<le> 255"
  by (simp add: challenge_def AUTH_REALM_def)

lemma wf_server0_idle [simp]: "wf_server server0"
  using wf_server0 [of "replicate RTSP_STREAM_COUNT 0" 0 0] by (simp add: server0_def)

lemma cstr_id: "NUL \<notin> set s \<Longrightarrow> cstr s = s"
  by (auto simp: cstr_def takeWhile_eq_all_conv)

lemma take_basic: "length cred \<le> 127 \<Longrightarrow> take 255 (''Basic '' @ base64_encode (bytes_of cred)) = ''Basic '' @ base64_encode (bytes_of cred)"
  using div_le_mono [of "length cred + 2" 129 3] by (simp add: length_base64_encode)

lemma starts_with_take: "length p \<le> n \<Longrightarrow> starts_with (take n s) p \<longleftrightarrow> starts_with s p"
  by (simp add: starts_with_def min_def)

text \<open>
  What can become of a request: it is passed on to the method handlers, or it is refused, with one
  reply of the given status on the client's connection and the challenge in it, and with the client
  as it was. The third definition is the password of a Basic field as the server reads it.
\<close>

definition admitted ::
  "kernel \<Rightarrow> (string \<Rightarrow> string \<Rightarrow> string option) \<Rightarrow> rtsp_server \<Rightarrow> rtsp_client \<Rightarrow> string \<Rightarrow> string \<Rightarrow> (string \<times> string) list \<Rightarrow> hist \<Rightarrow> bool" where
  "admitted k crypt srv c meth uri fs h \<longleftrightarrow>
     handle_request k crypt srv c (req_text meth uri fs) h =
       dispatch k srv c (req_text meth uri fs) meth uri (header_or_empty (req_text meth uri fs) ''CSeq'' 32) h"

definition refused ::
  "string \<Rightarrow> kernel \<Rightarrow> (string \<Rightarrow> string \<Rightarrow> string option) \<Rightarrow> rtsp_server \<Rightarrow> rtsp_client \<Rightarrow> string \<Rightarrow> string \<Rightarrow> (string \<times> string) list \<Rightarrow> hist \<Rightarrow> bool" where
  "refused st k crypt srv c meth uri fs h \<longleftrightarrow>
     (\<exists>cs. handle_request k crypt srv c (req_text meth uri fs) h = Some (True, c, h @ cs) \<and> only_sends (tcp_fd c) cs \<and>
        wire (tcp_fd c) cs = bytes_of (reply_text (header_or_empty (req_text meth uri fs) ''CSeq'' 32) st challenge))"

definition basic_password :: "string \<Rightarrow> string" where
  "basic_password v = cstr (base64_decode (drop 6 (take 255 v)) 128)"

lemma basic_password_encoded:
  "NUL \<notin> set cred \<Longrightarrow> length cred \<le> 127 \<Longrightarrow> basic_password (''Basic '' @ base64_encode (bytes_of cred)) = cred"
  using base64_round_trip [of "bytes_of cred" 128]
  unfolding basic_password_def by (simp only: take_basic) (simp add: bytes_of_inverse cstr_id)

lemma admitted_auth:
  "wf_req meth uri fs \<Longrightarrow> auth_ok k crypt srv c (req_text meth uri fs) (header_or_empty (req_text meth uri fs) ''CSeq'' 32) h = Some (True, h) \<Longrightarrow>
     admitted k crypt srv c meth uri fs h"
  by (simp add: admitted_def handle_request_text Let_def)

lemma refused_auth:
  assumes "send_reliable k" and "wf_req meth uri fs" and "length st \<le> 80"
    and "\<And>h1. send_reply k c (header_or_empty (req_text meth uri fs) ''CSeq'' 32) st challenge h = Some h1 \<Longrightarrow>
      auth_ok k crypt srv c (req_text meth uri fs) (header_or_empty (req_text meth uri fs) ''CSeq'' 32) h = Some (False, h1)"
  shows "refused st k crypt srv c meth uri fs h"
proof -
  obtain cs where cs: "send_reply k c (header_or_empty (req_text meth uri fs) ''CSeq'' 32) st challenge h = Some (h @ cs)"
      "only_sends (tcp_fd c) cs"
      "wire (tcp_fd c) cs = bytes_of (reply_text (header_or_empty (req_text meth uri fs) ''CSeq'' 32) st challenge)"
    using send_reply_wire [OF assms(1) cseq_length assms(3) challenge_length] by blast
  from assms(4) [OF cs(1)] cs(2,3) show ?thesis
    by (auto simp: refused_def handle_request_text [OF assms(2)] Let_def)
qed

text \<open>C7: Basic authentication is exact. With credentials set and no shadow file, every request of a remote
  client is decided by its first \<open>Authorization\<close> field: without such a field, or when it is not of
  the Basic kind, the request is refused with the 401 that says so; otherwise it is passed on to the
  method handlers exactly when the password it carries, decoded, is the configured user and password,
  which for a canonical encoding means that these were encoded. A refusal sends one 401 with a
  challenge and leaves the client as it was.\<close>
theorem basic_auth_exact:
  assumes "send_reliable k" and "wf_req meth uri fs" and "auth_enabled srv" and "\<not> loopback c"
    and "wf_server srv" and "shadow_path srv = []"
  shows "(case lookup_field ''Authorization'' fs of
       None \<Rightarrow> refused ''401 Authentication required'' k crypt srv c meth uri fs h
     | Some v \<Rightarrow>
         if \<not> starts_with v ''Basic '' then refused ''401 Basic authentication required'' k crypt srv c meth uri fs h
         else if basic_password v = auth_user srv @ '':'' @ auth_pass srv then admitted k crypt srv c meth uri fs h
         else refused ''401 Invalid credentials'' k crypt srv c meth uri fs h) \<and>
     (\<forall>cred. lookup_field ''Authorization'' fs = Some (''Basic '' @ base64_encode (bytes_of cred)) \<and> NUL \<notin> set cred \<and> length cred \<le> 127 \<longrightarrow>
        (if cred = auth_user srv @ '':'' @ auth_pass srv then admitted k crypt srv c meth uri fs h
         else refused ''401 Invalid credentials'' k crypt srv c meth uri fs h))"
proof -
  let ?req = "req_text meth uri fs"
  let ?cseq = "header_or_empty ?req ''CSeq'' 32"
  have hv: "header_value ?req ''Authorization'' 256 = map_option (take 255) (lookup_field ''Authorization'' fs)"
    using header_req [OF assms(2), of "''Authorization''" 256] by simp
  have "length (auth_user srv) < 32" "length (auth_pass srv) < 32"
    using assms(5) by (simp_all add: wf_server_def wf_config_def)
  then have ex: "trunc 80 (auth_user srv @ '':'' @ auth_pass srv) = auth_user srv @ '':'' @ auth_pass srv"
    by (intro trunc_id) simp
  have sw: "starts_with (take 255 v) ''Basic '' \<longleftrightarrow> starts_with v ''Basic ''" for v
    by (rule starts_with_take) simp
  note auth = auth_ok_def [of k crypt srv c ?req ?cseq h, unfolded hv Let_def ex]
  have verdict: "case lookup_field ''Authorization'' fs of
       None \<Rightarrow> refused ''401 Authentication required'' k crypt srv c meth uri fs h
     | Some v \<Rightarrow>
         if \<not> starts_with v ''Basic '' then refused ''401 Basic authentication required'' k crypt srv c meth uri fs h
         else if basic_password v = auth_user srv @ '':'' @ auth_pass srv then admitted k crypt srv c meth uri fs h
         else refused ''401 Invalid credentials'' k crypt srv c meth uri fs h"
  proof (cases "lookup_field ''Authorization'' fs")
    case None
    then have "refused ''401 Authentication required'' k crypt srv c meth uri fs h"
      by (intro refused_auth [OF assms(1,2)]) (simp_all add: auth assms(3,4))
    with None show ?thesis by simp
  next
    case (Some v)
    have "refused ''401 Basic authentication required'' k crypt srv c meth uri fs h" if "\<not> starts_with v ''Basic ''"
      using that by (intro refused_auth [OF assms(1,2)]) (simp_all add: auth assms(3,4) Some sw)
    moreover have "admitted k crypt srv c meth uri fs h"
      if "starts_with v ''Basic ''" "basic_password v = auth_user srv @ '':'' @ auth_pass srv"
      using that by (intro admitted_auth [OF assms(2)]) (simp add: auth assms(3,4,6) Some sw basic_password_def)
    moreover have "refused ''401 Invalid credentials'' k crypt srv c meth uri fs h"
      if "starts_with v ''Basic ''" "basic_password v \<noteq> auth_user srv @ '':'' @ auth_pass srv"
      using that by (intro refused_auth [OF assms(1,2)]) (simp_all add: auth assms(3,4,6) Some sw basic_password_def)
    ultimately show ?thesis using Some by simp
  qed
  moreover have "if cred = auth_user srv @ '':'' @ auth_pass srv then admitted k crypt srv c meth uri fs h
        else refused ''401 Invalid credentials'' k crypt srv c meth uri fs h"
    if c: "lookup_field ''Authorization'' fs = Some (''Basic '' @ base64_encode (bytes_of cred)) \<and> NUL \<notin> set cred \<and> length cred \<le> 127" for cred
  proof -
    have "basic_password (''Basic '' @ base64_encode (bytes_of cred)) = cred" using c by (intro basic_password_encoded) simp_all
    moreover have "starts_with (''Basic '' @ base64_encode (bytes_of cred)) ''Basic ''" by (rule starts_with_append)
    ultimately show ?thesis using verdict unfolding conjunct1 [OF c] option.case by (simp only: simp_thms if_False)
  qed
  ultimately show ?thesis by blast
qed

lemma basic_auth_exact_witness:
  defines "srv \<equiv> rtsp_server_set_credentials server0 ''root'' ''12345''"
    and "c \<equiv> client_init\<lparr>tcp_fd := 5\<rparr>"
    and "fs \<equiv> [(''CSeq'', ''2''), (''Authorization'', ''Basic '' @ base64_encode (bytes_of ''root:1234''))]"
    and "fs0 \<equiv> [(''CSeq'', ''2'')]"
  shows "refused ''401 Authentication required'' k_idle (\<lambda>p s. None) srv c ''DESCRIBE'' ''rtsp://h/stream=0'' fs0 [] \<and>
     refused ''401 Invalid credentials'' k_idle (\<lambda>p s. None) srv c ''DESCRIBE'' ''rtsp://h/stream=0'' fs []"
proof -
  have s: "auth_enabled srv" "\<not> loopback c" "wf_server srv" "shadow_path srv = []" "auth_user srv @ '':'' @ auth_pass srv = ''root:12345''"
    using wf_server0_idle
    by (simp_all add: srv_def c_def client_init_def server0_def rtsp_server_set_credentials_def wf_server_def wf_config_def trunc_def)
  have b: "base64_encode (bytes_of ''root:1234'') = ''cm9vdDoxMjM0''"
    by (simp add: bytes_of_def b64_char_def b64_tab_def Let_def)
  have w: "wf_req ''DESCRIBE'' ''rtsp://h/stream=0'' fs" "wf_req ''DESCRIBE'' ''rtsp://h/stream=0'' fs0"
    unfolding fs_def fs0_def b by (simp_all add: wf_req_def wf_word_def wf_field_def isspace_def)
  have l: "lookup_field ''Authorization'' fs0 = None"
      "lookup_field ''Authorization'' fs = Some (''Basic '' @ base64_encode (bytes_of ''root:1234''))"
    by (simp_all add: fs_def fs0_def tolower_def)
  from basic_auth_exact [OF k_idle_ok(2) w(2) s(1-4), of "\<lambda>p s. None" "[]"]
  have "refused ''401 Authentication required'' k_idle (\<lambda>p s. None) srv c ''DESCRIBE'' ''rtsp://h/stream=0'' fs0 []"
    by (simp only: l(1) option.case conj_assoc simp_thms)
  moreover from basic_auth_exact [OF k_idle_ok(2) w(1) s(1-4), of "\<lambda>p s. None" "[]", THEN conjunct2, THEN spec, of "''root:1234''"]
  have "refused ''401 Invalid credentials'' k_idle (\<lambda>p s. None) srv c ''DESCRIBE'' ''rtsp://h/stream=0'' fs []"
    unfolding l(2) s(5) by simp
  ultimately show ?thesis by blast
qed

section \<open>Sessions\<close>

lemma isdigit_char: "d < 10 \<Longrightarrow> isdigit (char_of (48 + d)) \<and> digit_val (char_of (48 + d)) = d"
  by (simp add: isdigit_def digit_val_def)

lemma dec_digits: "\<forall>c \<in> set (dec n). isdigit c"
proof (induction n rule: dec.induct)
  case (1 n)
  then show ?case
    using isdigit_char [of n] isdigit_char [of "n mod 10"] by (subst dec.simps) auto
qed

lemma foldl_dec: "foldl (\<lambda>a c. 10 * a + digit_val c) 0 (dec n) = n"
proof (induction n rule: dec.induct)
  case (1 n)
  then show ?case
    using isdigit_char [of n] isdigit_char [of "n mod 10"] by (subst dec.simps) auto
qed

lemma read_digits_dec: "(sfx = [] \<or> \<not> isdigit (hd sfx)) \<Longrightarrow> read_digits (dec n @ sfx) = n"
proof -
  assume "sfx = [] \<or> \<not> isdigit (hd sfx)"
  then have "takeWhile isdigit (dec n @ sfx) = dec n"
    using dec_digits [of n] by (cases sfx) (simp_all add: takeWhile_append2)
  then show ?thesis by (simp add: read_digits_def foldl_dec)
qed

lemma strtoul_dec:
  assumes "n < 2 ^ 32" and "sfx = [] \<or> \<not> isdigit (hd sfx)"
  shows "strtoul (dec n @ sfx) = word_of_nat n"
proof -
  obtain x xs where x: "dec n = x # xs" using dec_nonempty by (cases "dec n") auto
  then have d: "isdigit x" using dec_digits [of n] by simp
  then have "\<not> isspace x" "x \<noteq> CHR ''-''" "x \<noteq> CHR ''+''" by (auto simp: isdigit_def isspace_def)
  moreover have "read_digits (x # xs @ sfx) = n" using read_digits_dec [OF assms(2), of n] x by simp
  ultimately show ?thesis using assms(1) by (simp add: strtoul_def x sat_u32_def)
qed

lemma unat_dec: "strtoul (dec (unat (w :: u32))) = w"
  using strtoul_dec [of "unat w" "[]"] unat_u32_less [of w] by simp






section \<open>What a playing client receives\<close>


























section \<open>DESCRIBE\<close>







end
