(* ===== verification/Isp_Win.thy ===== *)
theory Isp_Win
  imports Prelude
begin

text \<open>
  The statistics windows of the image signal processor in \<open>sdk/lib/isp_init.c\<close>: the fixed-point
  logarithm \<open>easylog2\<close>, the search for a window size \<open>isp_win_param\<close> and its driver
  \<open>isp_set_stat_param\<close>. The search loop is a partial function: \<open>None\<close> is a division by zero or
  no end, and both are proved not to happen for pictures of ordinary size.
\<close>

section \<open>The logarithm\<close>

text \<open>The counting loop: how often the argument is halved until nothing is left, less one and exactly.\<close>

function log_loop :: "u32 \<Rightarrow> u32 \<Rightarrow> u32 \<times> u32" where
  "log_loop v5 v2 =
     (let v1 = v2; v5 = drop_bit 1 v5; v2 = v1 + 1
      in if v5 \<noteq> 0 then log_loop v5 v2 else (v1, v2))"
  by auto
termination
proof (relation "measure (\<lambda>(v5, _). unat v5)")
  fix v5 v2 x xa xb :: u32
  assume "xa = drop_bit 1 v5" "xa \<noteq> 0"
  then have "unat v5 div 2 \<noteq> 0" by (metis unat_drop_bit_u32 power_one_right unat_eq_zero)
  then show "((xa, xb), v5, v2) \<in> measure (\<lambda>(v5, _). unat v5)"
    using \<open>xa = drop_bit 1 v5\<close> by (simp add: unat_drop_bit_u32 del: One_nat_def)
qed simp

declare log_loop.simps [simp del]

definition easylog2 :: "u32 \<Rightarrow> int" where
  "easylog2 x =
     (let v5 = drop_bit 1 x in
      if v5 = 0 then 0 + int_of_u32 (push_bit 8 (x - 1))
      else
        let (v1, v2) = log_loop v5 0 in
        if 7 < v2 then
          int_of_u32 (v2 * 0x100 + drop_bit (unat ((v1 - 7) AND 0xff)) (x - push_bit (unat (v2 AND 0xff)) 1))
        else
          let v5 = 8 - v2; v4 = int_of_u32 (v2 * 0x100); v3 = push_bit (unat (v2 AND 0xff)) (1 :: u32)
          in v4 + int_of_u32 (push_bit (unat (v5 AND 0xff)) (x - v3)))"

section \<open>The window search\<close>

text \<open>The smallest size of the search, where mode and selector have one.\<close>

definition win_limit :: "int \<Rightarrow> int \<Rightarrow> u32 \<Rightarrow> u32 option" where
  "win_limit mode sel v5 =
     (let v6 = v5 - 1 in
      if mode = 0 then
        (if sel = 1 then Some (if v5 * 10 < 0x43d then 7 else v5 * 10 div 0x9b)
         else if sel = 0 then Some (if v5 * 10 < 0x89d then 7 else v5 * 10 div 0x13b)
         else None)
      else if mode = 1 then
        (if sel = 1 then Some (v6 div 0x16 - 1) else if sel = 0 then Some (v6 div 0x12 - 1) else None)
      else None)"

text \<open>The first candidate, made odd; the fallback of the source is the case without a limit.\<close>

definition win_first :: "u32 \<Rightarrow> u32 \<Rightarrow> u32 option \<Rightarrow> u32" where
  "win_first p0 v6 lim =
     (let v3 = drop_bit 1 v6 - 1;
          v3 = (if p0 \<le> v3 then p0 else v3);
          v3 = (case lim of Some v7 \<Rightarrow> if v3 < v7 then v7 else v3 | None \<Rightarrow> v3);
          v7 = (case lim of Some v7 \<Rightarrow> v7 | None \<Rightarrow> 0)
      in if v3 AND 1 \<noteq> 0 then v3 else if v7 < v3 then v3 - 1 else v3 + 1)"

text \<open>
  The loop: candidates go down by two until one leaves a remainder that is zero or at least eight
  (the last component is then false) or the limit is passed (it is true).
\<close>

partial_function (option) win_loop :: "u32 \<Rightarrow> u32 \<Rightarrow> u32 \<Rightarrow> (u32 \<times> u32 \<times> bool) option" where
  "win_loop v5 v7 v4 =
     (let v3 = v4 - 2; v1 = v4 - 1; v2 = v5 - drop_bit 1 v1
      in if v3 < v7 then Some (v3, v1, True)
         else if v1 = 0 then None
         else if v2 mod v1 - 1 < 7 then win_loop v5 v7 v3
         else Some (v3, v1, False))"

declare win_loop.simps [code]

definition win_search :: "u32 \<Rightarrow> u32 \<Rightarrow> u32 \<Rightarrow> (u32 \<times> u32 \<times> bool) option" where
  "win_search v5 v7 v3 =
     (let v1 = v3 + 1; v2 = v5 - drop_bit 1 v1
      in if v3 < v7 then Some (v3, v1, True)
         else if v1 = 0 then None
         else if v2 mod v1 - 1 < 7 then win_loop v5 v7 v3
         else Some (v3, v1, False))"

text \<open>
  The whole function, on the five words of the array \<open>p\<close> from \<open>off\<close> on: word 0 is the size less
  one, word 1 its reciprocal, word 2 the number of windows, word 3 the shift, word 4 the extent.
\<close>

definition isp_win_param :: "u32 list \<Rightarrow> nat \<Rightarrow> int \<Rightarrow> int \<Rightarrow> u32 list option" where
  "isp_win_param p off mode sel =
     (let v5 = p ! (off + 4);
          v6 = v5 - 1;
          lim = win_limit mode sel v5;
          v7 = (case lim of Some v7 \<Rightarrow> v7 | None \<Rightarrow> 0)
      in case win_search v5 v7 (win_first (p ! off) v6 lim) of
           None \<Rightarrow> None
         | Some (v3, v1, fin) \<Rightarrow>
             let p = p[off := v3];
                 p = (if fin then p else p[off + 2 := v6 div (if v3 = 0xffffffff then 1 else v1) + 1]);
                 v5 = word_of_int (easylog2 v1);
                 v6 = (if v3 = 0xffffffff then 1 else v3 + 1);
                 v7 = drop_bit 1 (v3 + 1);
                 p = p[off + 3 := drop_bit 8 v5 + 2]
             in Some (p[off + 1 := (v7 + push_bit (unat ((drop_bit 8 v5 + 10) AND 0xff)) 1) div v6 - 1]))"

definition stat_presets :: "u32 list \<Rightarrow> u32 list \<times> u32 \<times> u32" where
  "stat_presets a =
     (let mode = a ! 20 AND 0xff in
      if mode = 0 then (a[2 := 0xe, 8 := 0x18, 14 := 6, 16 := 0x400, 12 := 0xcb], 0xd, 0x17)
      else if mode = 1 then (a[14 := 8, 8 := 0x10, 2 := 9, 12 := 0x6da, 16 := 0x3000], 8, 0xf)
      else (a, if a ! 2 - 1 = 0 then 1 else a ! 2 - 1, if a ! 8 - 1 = 0 then 1 else a ! 8 - 1))"

definition isp_set_stat_param :: "u32 list \<Rightarrow> u32 list option" where
  "isp_set_stat_param a =
     (let mode = int_of_u32 (a ! 20 AND 0xff);
          (a, preset_a, preset_b) = stat_presets a;
          a = a[4 := a ! 18];
          a = a[10 := a ! 19];
          a = a[17 := 1];
          a = a[6 := (a ! 19 - 1) div preset_b - 1];
          a = a[0 := (a ! 18 - 1) div preset_a - 1];
          a = a[5 := 0, 11 := 0]
      in case isp_win_param a 0 mode 0 of None \<Rightarrow> None
         | Some a \<Rightarrow>
             (case isp_win_param a 6 mode (int_of_u32 (a ! 11)) of None \<Rightarrow> None
              | Some a \<Rightarrow> isp_win_param a 12 mode (int_of_u32 (a ! 17))))"

section \<open>The logarithm is the logarithm\<close>

lemma sint_small:
  assumes "unat (w :: u32) < 2 ^ 31"
  shows "int_of_u32 w = int (unat w)"
proof -
  have "LENGTH(32) - Suc 0 = 31" by simp
  then have "sint w = signed_take_bit 31 (uint w)" using sint_uint [of w] by (simp only:)
  also have "\<dots> = uint w"
  proof (rule signed_take_bit_int_eq_self)
    show "- (2 ^ 31) \<le> uint w" by (rule order_trans [of _ 0]) simp_all
    have "int (unat w) < int (2 ^ 31)" using assms by (simp only: of_nat_less_iff)
    then show "uint w < 2 ^ 31" unfolding uint_nat by simp
  qed
  finally show ?thesis unfolding int_of_u32_def uint_nat .
qed

lemma log_loop_spec:
  "2 ^ n \<le> unat v5 \<Longrightarrow> unat v5 < 2 ^ Suc n \<Longrightarrow> log_loop v5 v2 = (v2 + word_of_nat n, v2 + word_of_nat n + 1)"
proof (induction n arbitrary: v5 v2)
  case 0
  have "drop_bit 1 v5 = 0" unfolding word_unat_eq_iff unat_drop_bit_u32 using 0 by simp
  then show ?case by (subst log_loop.simps) (simp only: Let_def, simp)
next
  case (Suc n)
  have u: "unat (drop_bit 1 v5) = unat v5 div 2" by (simp only: unat_drop_bit_u32 power_one_right)
  have p: "2 * 2 ^ n \<le> unat v5" "unat v5 < 2 * 2 ^ Suc n" using Suc.prems by (simp_all only: power_Suc)
  have q: "2 ^ n \<le> unat (drop_bit 1 v5)" "unat (drop_bit 1 v5) < 2 ^ Suc n" using p unfolding u by linarith+
  have nz: "drop_bit 1 v5 \<noteq> 0"
  proof
    assume "drop_bit 1 v5 = 0"
    then have "(2 :: nat) ^ n \<le> 0" using q(1) by (metis unat_0)
    then show False by simp
  qed
  have "log_loop (drop_bit 1 v5) (v2 + 1) = (v2 + 1 + word_of_nat n, v2 + 1 + word_of_nat n + 1)"
    using Suc.IH [OF q] .
  moreover have "log_loop v5 v2 = log_loop (drop_bit 1 v5) (v2 + 1)"
    using nz by (subst log_loop.simps) (simp only: Let_def if_True not_False_eq_True)
  moreover have "v2 + 1 + word_of_nat n = v2 + word_of_nat (Suc n)" by simp
  ultimately show ?case by (simp only:)
qed

lemma frac_high: "8 \<le> n \<Longrightarrow> y * 256 div 2 ^ n = y div (2 :: nat) ^ (n - 8)"
proof -
  assume "8 \<le> n"
  then have "(2 :: nat) ^ n = 2 ^ (n - 8 + 8)" by simp
  also have "\<dots> = 2 ^ (n - 8) * 256" by (simp only: power_add) simp
  finally show ?thesis by simp
qed

lemma frac_low: "n \<le> 8 \<Longrightarrow> y * 256 div 2 ^ n = y * (2 :: nat) ^ (8 - n)"
proof -
  assume "n \<le> 8"
  then have "(256 :: nat) = 2 ^ (8 - n) * 2 ^ n" by (simp flip: power_add)
  then have "y * 256 = y * 2 ^ (8 - n) * 2 ^ n" by (simp only: mult.assoc)
  then show ?thesis by (metis nonzero_mult_div_cancel_right power_not_zero zero_neq_numeral)
qed

lemma unat_of_nat_small: "n < 4294967296 \<Longrightarrow> unat (word_of_nat n :: u32) = n"
  by (simp add: unat_of_nat)

lemma unat_power_32: "n < 32 \<Longrightarrow> unat (push_bit n (1 :: u32)) = 2 ^ n"
proof -
  assume n: "n < 32"
  have e: "push_bit n (1 :: u32) = word_of_nat (2 ^ n)" by (simp add: push_bit_eq_mult)
  have "(2 :: nat) ^ n < 2 ^ 32" using n by (intro power_strict_increasing) simp_all
  then show ?thesis unfolding e by (intro unat_of_nat_small) simp
qed

lemma shift_amounts:
  assumes "n < 32"
  shows "unat ((word_of_nat n :: u32) AND 0xff) = n" and "8 \<le> n \<Longrightarrow> unat ((word_of_nat (n - 1) - 7 :: u32) AND 0xff) = n - 8"
    and "n \<le> 8 \<Longrightarrow> unat ((8 - word_of_nat n :: u32) AND 0xff) = 8 - n"
proof -
  have low: "unat (w AND 0xff) = unat w" if "unat w < 256" for w :: u32
  proof -
    have "w AND 0xff = take_bit 8 w" by (simp add: take_bit_eq_mask mask_eq_exp_minus_1)
    then show ?thesis using that by (simp add: unsigned_take_bit_eq take_bit_nat_eq_self_iff)
  qed
  show "unat ((word_of_nat n :: u32) AND 0xff) = n" using assms by (subst low) (simp_all only: unat_of_nat_small)
  show "unat ((word_of_nat (n - 1) - 7 :: u32) AND 0xff) = n - 8" if "8 \<le> n"
  proof -
    have "word_of_nat (n - 1) - 7 = (word_of_nat (n - 8) :: u32)" using that by (simp add: of_nat_diff)
    then show ?thesis using assms by (subst low) (simp_all only: unat_of_nat_small)
  qed
  show "unat ((8 - word_of_nat n :: u32) AND 0xff) = 8 - n" if "n \<le> 8"
  proof -
    have "8 - word_of_nat n = (word_of_nat (8 - n) :: u32)" using that by (simp add: of_nat_diff)
    then show ?thesis using assms by (subst low) (simp_all only: unat_of_nat_small)
  qed
qed

text \<open>The fixed-point logarithm is exact: for every positive argument between \<open>2 ^ n\<close> and \<open>2 ^ (n + 1)\<close> the
  result is \<open>n\<close> in the integer part and the distance from \<open>2 ^ n\<close>, as an eight-bit fraction of \<open>2 ^ n\<close>
  rounded down, in the low byte.\<close>
lemma easylog2_correct:
  assumes "2 ^ n \<le> unat x" and "unat x < 2 ^ Suc n"
  shows "easylog2 x = int (256 * n + (unat x - 2 ^ n) * 256 div 2 ^ n)"
proof -
  have "(2 :: nat) ^ n < 2 ^ 32" using assms(1) unat_u32_less [of x] by simp
  then have n: "n < 32" by (rule power_less_imp_less_exp [rotated]) simp
  have half: "unat (drop_bit 1 x) = unat x div 2" by (simp only: unat_drop_bit_u32 power_one_right)
  show ?thesis
  proof (cases n)
    case 0
    then have x: "x = 1" using assms by (simp add: word_unat_eq_iff)
    have "drop_bit 1 (1 :: u32) = 0" by simp
    then show ?thesis unfolding x 0 by (simp add: easylog2_def int_of_u32_def)
  next
    case (Suc m)
    define p where "p = push_bit n (1 :: u32)"
    have p: "unat p = 2 ^ n" unfolding p_def by (rule unat_power_32 [OF n])
    have xp: "unat (x - p) = unat x - 2 ^ n" by (subst unat_minus_nowrap) (use assms(1) p in \<open>simp_all add: word_le_nat_alt\<close>)
    have bnd: "unat x - 2 ^ n < 2 ^ n" using assms by simp
    have q: "2 * 2 ^ m \<le> unat x" "unat x < 2 * (2 * 2 ^ m)" using assms unfolding Suc by (simp_all only: power_Suc)
    have h: "2 ^ m \<le> unat (drop_bit 1 x)" "unat (drop_bit 1 x) < 2 ^ Suc m" using q unfolding half power_Suc by linarith+
    have nz: "drop_bit 1 x \<noteq> 0"
    proof
      assume "drop_bit 1 x = 0"
      then have "(2 :: nat) ^ m \<le> 0" using h(1) by (metis unat_0)
      then show False by simp
    qed
    have ll: "log_loop (drop_bit 1 x) 0 = (word_of_nat (n - 1), word_of_nat n)"
      using log_loop_spec [OF h, of 0] Suc by (simp add: add.commute)
    have pos: "unat (word_of_nat n * (0x100 :: u32)) = 256 * n"
      using n by (simp add: unat_word_ariths unat_of_nat)
    note sh = shift_amounts [OF n]
    have seven: "7 < (word_of_nat n :: u32) \<longleftrightarrow> 7 < n"
      using n by (simp add: word_less_nat_alt unat_of_nat_small)
    show ?thesis
    proof (cases "7 < n")
      case True
      then have n8: "8 \<le> n" by simp
      have f: "unat (drop_bit (n - 8) (x - p)) = (unat x - 2 ^ n) * 256 div 2 ^ n"
        unfolding unat_drop_bit_u32 xp frac_high [OF n8] ..
      have "(unat x - 2 ^ n) * 256 div 2 ^ n < 256" using bnd by (simp add: div_less_iff_less_mult mult.commute)
      then have u: "unat (word_of_nat n * 0x100 + drop_bit (n - 8) (x - p)) = 256 * n + (unat x - 2 ^ n) * 256 div 2 ^ n"
        using n \<open>_ < 256\<close> by (subst unat_plus_nowrap32) (simp_all only: pos f)
      have "easylog2 x = int_of_u32 (word_of_nat n * 0x100 + drop_bit (n - 8) (x - p))"
        unfolding easylog2_def Let_def if_not_P [OF nz] ll prod.case seven if_P [OF True] sh(1) sh(2) [OF n8] p_def ..
      also have "\<dots> = int (256 * n + (unat x - 2 ^ n) * 256 div 2 ^ n)"
        unfolding u [symmetric] by (rule sint_small) (use n \<open>_ < 256\<close> in \<open>simp only: u, simp\<close>)
      finally show ?thesis .
    next
      case False
      then have n8: "n \<le> 8" by simp
      have lt: "(unat x - 2 ^ n) * 2 ^ (8 - n) < 256"
      proof -
        have "(unat x - 2 ^ n) * 2 ^ (8 - n) < 2 ^ n * 2 ^ (8 - n)" using bnd by simp
        also have "\<dots> = 2 ^ (n + (8 - n))" by (simp only: power_add)
        finally show ?thesis using n8 by simp
      qed
      have f: "unat (push_bit (8 - n) (x - p)) = (unat x - 2 ^ n) * 2 ^ (8 - n)"
      proof -
        have "push_bit (8 - n) (x - p) = word_of_nat ((unat x - 2 ^ n) * 2 ^ (8 - n))"
          by (simp add: push_bit_eq_mult flip: xp)
        then show ?thesis using lt by (simp only: unat_of_nat_small)
      qed
      have i1: "int_of_u32 (word_of_nat n * 0x100) = int (256 * n)"
        unfolding pos [symmetric] by (rule sint_small) (use n in \<open>simp only: pos, simp\<close>)
      have i2: "int_of_u32 (push_bit (8 - n) (x - p)) = int ((unat x - 2 ^ n) * 2 ^ (8 - n))"
        unfolding f [symmetric] by (rule sint_small) (use lt in \<open>simp only: f, simp\<close>)
      have "easylog2 x = int_of_u32 (word_of_nat n * 0x100) + int_of_u32 (push_bit (8 - n) (x - p))"
        unfolding easylog2_def Let_def if_not_P [OF nz] ll prod.case seven if_not_P [OF False] sh(1) sh(3) [OF n8] p_def ..
      then show ?thesis unfolding i1 i2 frac_low [OF n8] by simp
    qed
  qed
qed

lemma easylog2_correct_witness: "easylog2 1000 = 2548"
  using easylog2_correct [of 9 1000] by simp

section \<open>The search finds the largest usable window\<close>

text \<open>A window size is usable when what is left of the extent is nothing or at least eight.\<close>

definition good_size :: "nat \<Rightarrow> nat \<Rightarrow> bool" where
  "good_size n b \<longleftrightarrow> (let r = (n - b div 2) mod b in r = 0 \<or> 8 \<le> r)"

lemma rem_test:
  fixes v1 v5 :: u32
  assumes "v1 \<noteq> 0" and "unat v1 div 2 \<le> unat v5"
  shows "(v5 - drop_bit 1 v1) mod v1 - 1 < 7 \<longleftrightarrow> \<not> good_size (unat v5) (unat v1)"
proof -
  define r where "r = (v5 - drop_bit 1 v1) mod v1"
  have d: "unat (drop_bit 1 v1) = unat v1 div 2" by (simp only: unat_drop_bit_u32 power_one_right)
  have "unat (v5 - drop_bit 1 v1) = unat v5 - unat v1 div 2"
    by (subst unat_minus_nowrap) (simp_all only: word_le_nat_alt d assms(2))
  then have r: "unat r = (unat v5 - unat v1 div 2) mod unat v1" by (simp add: r_def unat_mod_distrib)
  have "r - 1 < 7 \<longleftrightarrow> \<not> (unat r = 0 \<or> 8 \<le> unat r)"
  proof (cases "unat r = 0")
    case True
    then have "r = 0" by (simp add: word_unat_eq_iff)
    then show ?thesis by simp
  next
    case False
    then have "unat (r - 1) = unat r - 1" by (subst unat_minus_nowrap) (simp_all add: word_le_nat_alt)
    then show ?thesis using False by (auto simp: word_less_nat_alt)
  qed
  then show ?thesis unfolding good_size_def Let_def r [symmetric] r_def .
qed

lemma unat_pred: "0 < unat (w :: u32) \<Longrightarrow> unat (w - 1) = unat w - 1"
  by (subst unat_minus_nowrap) (simp_all add: word_le_nat_alt)

lemma unat_pred2: "2 \<le> unat (w :: u32) \<Longrightarrow> unat (w - 2) = unat w - 2"
  by (subst unat_minus_nowrap) (simp_all add: word_le_nat_alt)

text \<open>What the search returns, on numbers.\<close>

definition search_result :: "nat \<Rightarrow> nat \<Rightarrow> nat \<Rightarrow> (u32 \<times> u32 \<times> bool) option \<Rightarrow> bool" where
  "search_result n lim start res \<longleftrightarrow>
     (\<exists>s fin. res = Some (s, s + 1, fin) \<and> odd (unat s) \<and> unat s \<le> start \<and> (fin \<longleftrightarrow> unat s < lim) \<and>
        (\<not> fin \<longrightarrow> good_size n (unat s + 1)) \<and>
        (\<forall>x. odd x \<longrightarrow> unat s < x \<longrightarrow> x \<le> start \<longrightarrow> lim \<le> x \<longrightarrow> \<not> good_size n (x + 1)))"

lemma odd_between: "odd x \<Longrightarrow> odd (m :: nat) \<Longrightarrow> m < x \<Longrightarrow> x \<le> m + 2 \<Longrightarrow> x = m + 2"
  by presburger

lemma win_loop_spec:
  assumes "2 \<le> unat v7" and "unat v7 \<le> unat v4" and "odd (unat v4)" and "unat v4 < unat v5"
  shows "search_result (unat v5) (unat v7) (unat v4 - 2) (win_loop v5 v7 v4)"
  using assms(2-4)
proof (induction "unat v4" arbitrary: v4 rule: less_induct)
  case less
  have v4: "3 \<le> unat v4" using assms(1) less.prems(1,2) by presburger
  have u: "unat (v4 - 2) = unat v4 - 2" "unat (v4 - 1) = unat v4 - 1"
    by (rule unat_pred2, use v4 in simp) (rule unat_pred, use v4 in simp)
  have step: "v4 - 1 = v4 - 2 + 1" by simp
  have odd: "odd (unat v4 - 2)" using less.prems(2) v4 by presburger
  have nz: "v4 - 1 \<noteq> 0"
  proof
    assume "v4 - 1 = 0"
    then have "unat v4 - 1 = 0" using u(2) by (metis unat_0)
    then show False using v4 by linarith
  qed
  have half: "unat (v4 - 1) div 2 \<le> unat v5" using less.prems(3) unfolding u by linarith
  note test = rem_test [OF nz half, unfolded u(2)]
  have sz: "unat v4 - 1 = unat v4 - 2 + 1" using v4 by linarith
  show ?case
  proof (cases "v4 - 2 < v7")
    case True
    then have "win_loop v5 v7 v4 = Some (v4 - 2, v4 - 2 + 1, True)"
      by (subst win_loop.simps) (simp only: Let_def if_True step)
    then show ?thesis using True odd u(1) unfolding search_result_def
      by (intro exI [of _ "v4 - 2"] exI [of _ True]) (simp add: word_less_nat_alt)
  next
    case False
    then have ge: "unat v7 \<le> unat v4 - 2" using u(1) by (simp add: word_less_nat_alt)
    show ?thesis
    proof (cases "good_size (unat v5) (unat v4 - 1)")
      case True
      with False nz test have "win_loop v5 v7 v4 = Some (v4 - 2, v4 - 2 + 1, False)"
        by (subst win_loop.simps) (simp only: Let_def if_False not_True_eq_False step)
      then show ?thesis using ge odd u(1) True unfolding search_result_def sz
        by (intro exI [of _ "v4 - 2"] exI [of _ False]) simp
    next
      case bad: False
      with False nz test have w: "win_loop v5 v7 v4 = win_loop v5 v7 (v4 - 2)"
        by (subst win_loop.simps) (simp only: Let_def if_False if_True not_False_eq_True)
      have "search_result (unat v5) (unat v7) (unat (v4 - 2) - 2) (win_loop v5 v7 (v4 - 2))"
      proof (rule less.hyps)
        show "unat (v4 - 2) < unat v4" using v4 unfolding u(1) by linarith
        show "unat v7 \<le> unat (v4 - 2)" using ge unfolding u(1) .
        show "odd (unat (v4 - 2))" using odd unfolding u(1) .
        show "unat (v4 - 2) < unat v5" using less.prems(3) unfolding u(1) by linarith
      qed
      then obtain t fin where t: "win_loop v5 v7 (v4 - 2) = Some (t, t + 1, fin)" "odd (unat t)" "unat t \<le> unat v4 - 2 - 2"
        "fin \<longleftrightarrow> unat t < unat v7" "\<not> fin \<longrightarrow> good_size (unat v5) (unat t + 1)"
        "\<forall>x. odd x \<longrightarrow> unat t < x \<longrightarrow> x \<le> unat v4 - 2 - 2 \<longrightarrow> unat v7 \<le> x \<longrightarrow> \<not> good_size (unat v5) (x + 1)"
        unfolding search_result_def u(1) by blast
      have "\<not> good_size (unat v5) (x + 1)" if x: "odd x" "unat t < x" "x \<le> unat v4 - 2" "unat v7 \<le> x" for x
      proof (cases "x \<le> unat v4 - 2 - 2")
        case True
        then show ?thesis using t(6) x by blast
      next
        case False
        then have "x = unat v4 - 2" using x(1,3) odd by presburger
        then show ?thesis using bad sz by simp
      qed
      moreover have "unat t \<le> unat v4 - 2" using t(3) by linarith
      ultimately show ?thesis unfolding search_result_def w using t(1,2,4,5) by blast
    qed
  qed
qed

lemma win_search_spec:
  assumes "2 \<le> unat v7" and "unat v7 \<le> unat v3" and "odd (unat v3)" and "unat v3 < unat v5"
  shows "search_result (unat v5) (unat v7) (unat v3) (win_search v5 v7 v3)"
proof -
  have "unat v3 + unat (1 :: u32) < 4294967296" using assms(4) unat_u32_less [of v5] by simp
  then have u: "unat (v3 + 1) = unat v3 + 1" by (subst unat_plus_nowrap32) simp_all
  have nz: "v3 + 1 \<noteq> 0"
  proof
    assume "v3 + 1 = 0"
    then have "unat v3 + 1 = 0" using u by (metis unat_0)
    then show False by simp
  qed
  have ge: "\<not> v3 < v7" using assms(2) by (simp add: word_less_nat_alt)
  have half: "unat (v3 + 1) div 2 \<le> unat v5" using assms(4) unfolding u by linarith
  note test = rem_test [OF nz half, unfolded u]
  show ?thesis
  proof (cases "good_size (unat v5) (unat v3 + 1)")
    case True
    with ge nz test have "win_search v5 v7 v3 = Some (v3, v3 + 1, False)"
      unfolding win_search_def by (simp only: Let_def if_False not_True_eq_False)
    then show ?thesis using assms(2,3) True unfolding search_result_def
      by (intro exI [of _ v3] exI [of _ False]) simp
  next
    case bad: False
    with ge nz test have w: "win_search v5 v7 v3 = win_loop v5 v7 v3"
      unfolding win_search_def by (simp only: Let_def if_False if_True not_False_eq_True)
    from win_loop_spec [OF assms] obtain t fin where t: "win_loop v5 v7 v3 = Some (t, t + 1, fin)" "odd (unat t)"
      "unat t \<le> unat v3 - 2" "fin \<longleftrightarrow> unat t < unat v7" "\<not> fin \<longrightarrow> good_size (unat v5) (unat t + 1)"
      "\<forall>x. odd x \<longrightarrow> unat t < x \<longrightarrow> x \<le> unat v3 - 2 \<longrightarrow> unat v7 \<le> x \<longrightarrow> \<not> good_size (unat v5) (x + 1)"
      unfolding search_result_def by blast
    have "\<not> good_size (unat v5) (x + 1)" if x: "odd x" "unat t < x" "x \<le> unat v3" "unat v7 \<le> x" for x
    proof (cases "x \<le> unat v3 - 2")
      case True
      then show ?thesis using t(6) x by blast
    next
      case False
      then have "x = unat v3" using x(1,3) assms(3) by presburger
      then show ?thesis using bad by simp
    qed
    moreover have "unat t \<le> unat v3" using t(3) by linarith
    ultimately show ?thesis unfolding search_result_def w using t(1,2,4,5) by blast
  qed
qed

lemma odd_word: "v AND 1 \<noteq> 0 \<longleftrightarrow> odd (unat (v :: u32))"
proof -
  have "v AND 1 = take_bit 1 v" by (simp add: take_bit_eq_mask mask_eq_exp_minus_1)
  then have "unat (v AND 1) = unat v mod 2" by (simp add: take_bit_eq_mod unat_mod_distrib)
  then show ?thesis by (metis odd_iff_mod_2_eq_one parity_cases unat_0 unat_eq_zero zero_neq_one)
qed

lemma win_first_bounds:
  assumes "unat lim + 2 < n" and "unat v6 = n - 1" and "4 \<le> n" and "n < 4294967296"
  shows "odd (unat (win_first p0 v6 (Some lim))) \<and> unat lim \<le> unat (win_first p0 v6 (Some lim)) \<and>
     unat (win_first p0 v6 (Some lim)) < n"
proof -
  define m where "m = drop_bit 1 v6 - 1"
  have h: "unat (drop_bit 1 v6) = (n - 1) div 2" using assms(2) by (simp only: unat_drop_bit_u32 power_one_right)
  have pos: "0 < unat (drop_bit 1 v6)" unfolding h using assms(3) by linarith
  have um: "unat m = (n - 1) div 2 - 1" unfolding m_def unat_pred [OF pos] h ..
  define a where "a = (if p0 \<le> m then p0 else m)"
  have ua: "unat a \<le> unat m" by (auto simp: a_def word_le_nat_alt)
  define b where "b = (if a < lim then lim else a)"
  have ub: "unat lim \<le> unat b" "unat b + 1 < n"
    using ua um assms(1,3) by (auto simp: b_def word_less_nat_alt split: if_splits)
  have f: "win_first p0 v6 (Some lim) = (if b AND 1 \<noteq> 0 then b else if lim < b then b - 1 else b + 1)"
    by (simp add: win_first_def Let_def b_def a_def m_def)
  have plus: "unat (b + 1) = unat b + 1" by (subst unat_plus_nowrap32) (use ub(2) assms(4) in simp_all)
  have minus: "unat (b - 1) = unat b - 1" if "lim < b" by (rule unat_pred) (use that in \<open>simp add: word_less_nat_alt\<close>)
  show ?thesis
  proof (cases "odd (unat b)")
    case True
    then show ?thesis unfolding f odd_word using ub by simp
  next
    case even: False
    show ?thesis
    proof (cases "lim < b")
      case True
      then have "unat lim < unat b" by (simp add: word_less_nat_alt)
      then show ?thesis unfolding f odd_word using even True minus [OF True] ub by simp presburger
    next
      case False
      then show ?thesis unfolding f odd_word using even plus ub by simp
    qed
  qed
qed

text \<open>
  The result of the search in the array, for extent \<open>n\<close>, limit \<open>lim\<close> and first candidate
  \<open>start\<close>: the size is even, no larger even size from the first candidate down is usable, it is itself
  usable and counted unless the limit was passed, and the reciprocal has ten more bits than the size.
\<close>

definition window_ok :: "nat \<Rightarrow> nat \<Rightarrow> nat \<Rightarrow> u32 list \<Rightarrow> nat \<Rightarrow> bool" where
  "window_ok n lim start p off \<longleftrightarrow>
     (let b = unat (p ! off) + 1 in
        even b \<and> b \<le> start + 1 \<and>
        (\<forall>b'. even b' \<longrightarrow> b < b' \<longrightarrow> b' \<le> start + 1 \<longrightarrow> lim < b' \<longrightarrow> \<not> good_size n b') \<and>
        (lim < b \<longrightarrow> good_size n b \<and> unat (p ! (off + 2)) = (n - 1) div b + 1) \<and>
        (\<exists>e. 2 ^ e \<le> b \<and> b < 2 ^ Suc e \<and> unat (p ! (off + 3)) = e + 2 \<and>
           unat (p ! (off + 1)) = (b div 2 + 2 ^ (e + 10)) div b - 1))"

lemma exponent_exists: "0 < (b :: nat) \<Longrightarrow> \<exists>e. 2 ^ e \<le> b \<and> b < 2 ^ Suc e"
proof (induction b rule: nat_induct_non_zero)
  case (Suc b)
  then obtain e where e: "2 ^ e \<le> b" "b < 2 ^ Suc e" by blast
  show ?case
  proof (cases "Suc b < 2 ^ Suc e")
    case True
    with e(1) show ?thesis by (intro exI [of _ e]) simp
  next
    case False
    with e(2) have "Suc b = 2 ^ Suc e" by simp
    then show ?thesis by (intro exI [of _ "Suc e"]) simp
  qed
qed (auto intro: exI [of _ 0])

lemma window_reciprocal:
  assumes "2 ^ e \<le> unat b" and "unat b < 2 ^ Suc e" and "unat b \<le> 2 ^ 20" and "b = s + 1"
  shows "unat (drop_bit 8 (word_of_int (easylog2 b)) + 2 :: u32) = e + 2"
    and "unat ((drop_bit 1 (s + 1) + push_bit (unat ((drop_bit 8 (word_of_int (easylog2 b)) + 10 :: u32) AND 0xff)) 1)
           div (if s = 0xffffffff then 1 else s + 1) - 1) = (unat b div 2 + 2 ^ (e + 10)) div unat b - 1"
proof -
  have e: "e \<le> 20"
  proof -
    have "(2 :: nat) ^ e \<le> 2 ^ 20" using assms(1,3) by linarith
    then show ?thesis by (rule power_le_imp_le_exp [rotated]) simp
  qed
  define f where "f = (unat b - 2 ^ e) * 256 div 2 ^ e"
  have "unat b - 2 ^ e < 2 ^ e" using assms(1,2) by simp
  then have f: "f < 256" by (simp add: f_def div_less_iff_less_mult mult.commute)
  have "easylog2 b = int (256 * e + f)" unfolding f_def by (rule easylog2_correct [OF assms(1,2)])
  then have w: "word_of_int (easylog2 b) = (word_of_nat (256 * e + f) :: u32)" by (simp only: of_int_of_nat_eq)
  have small: "256 * e + f < 4294967296" using e f by simp
  have d: "unat (drop_bit 8 (word_of_int (easylog2 b)) :: u32) = e"
    unfolding w unat_drop_bit_u32 unat_of_nat_small [OF small] using f by simp
  then have dw: "drop_bit 8 (word_of_int (easylog2 b)) = (word_of_nat e :: u32)"
  proof -
    have "unat (word_of_nat e :: u32) = e" by (rule unat_of_nat_small) (use e in simp)
    then show ?thesis by (simp only: word_unat_eq_iff d)
  qed
  show "unat (drop_bit 8 (word_of_int (easylog2 b)) + 2 :: u32) = e + 2"
    by (subst unat_plus_nowrap32) (use d e in simp_all)
  have "unat ((word_of_nat (e + 10) :: u32) AND 0xff) = e + 10" by (rule shift_amounts) (use e in simp)
  then have sh: "unat ((drop_bit 8 (word_of_int (easylog2 b)) + 10 :: u32) AND 0xff) = e + 10" unfolding dw by simp
  have bpos: "0 < unat b" using assms(1) by (metis gr0I not_one_le_zero one_le_numeral one_le_power order_trans)
  have s: "s \<noteq> 0xffffffff"
  proof
    assume "s = 0xffffffff"
    then have "b = 0" using assms(4) by simp
    then show False using bpos by simp
  qed
  have pw: "unat (push_bit (e + 10) (1 :: u32)) = 2 ^ (e + 10)" by (rule unat_power_32) (use e in simp)
  have "(2 :: nat) ^ (e + 10) \<le> 2 ^ 30" using e by (intro power_increasing) simp_all
  then have no: "unat (drop_bit 1 b) + unat (push_bit (e + 10) (1 :: u32)) < 4294967296"
    unfolding pw unat_drop_bit_u32 using assms(3) by simp
  have num: "unat (drop_bit 1 b + push_bit (e + 10) 1) = unat b div 2 + 2 ^ (e + 10)"
    unfolding unat_plus_nowrap32 [OF no] pw by (simp only: unat_drop_bit_u32 power_one_right)
  have "unat b \<le> 2 ^ (e + 10)" using assms(2) by (simp add: power_add)
  then have q: "0 < (unat b div 2 + 2 ^ (e + 10)) div unat b" using bpos by (simp add: div_greater_zero_iff)
  have quot: "unat ((drop_bit 1 b + push_bit (e + 10) 1) div b) = (unat b div 2 + 2 ^ (e + 10)) div unat b"
    unfolding unat_div_distrib num ..
  have q': "0 < unat ((drop_bit 1 b + push_bit (e + 10) 1) div b)" unfolding quot by (rule q)
  show "unat ((drop_bit 1 (s + 1) + push_bit (unat ((drop_bit 8 (word_of_int (easylog2 b)) + 10 :: u32) AND 0xff)) 1)
           div (if s = 0xffffffff then 1 else s + 1) - 1) = (unat b div 2 + 2 ^ (e + 10)) div unat b - 1"
    unfolding sh if_not_P [OF s] assms(4) [symmetric] unat_pred [OF q'] quot ..
qed

lemma window_ok_cong:
  assumes "p ! off = q ! off" "p ! (off + 1) = q ! (off + 1)" "p ! (off + 2) = q ! (off + 2)" "p ! (off + 3) = q ! (off + 3)"
  shows "window_ok n lim start p off = window_ok n lim start q off"
  unfolding window_ok_def assms ..

text \<open>One window: the function returns, changes only its four words, and they are as specified.\<close>

lemma win_param_ok:
  assumes "win_limit mode sel v5 = Some lim" and "p ! (off + 4) = v5" and "off + 4 < length p"
    and "2 \<le> unat lim" and "unat lim + 2 < unat v5" and "unat v5 \<le> 2 ^ 20"
  defines "start \<equiv> win_first (p ! off) (v5 - 1) (Some lim)"
  shows "\<exists>p'. isp_win_param p off mode sel = Some p' \<and> length p' = length p \<and>
     (\<forall>i. i \<notin> {off, off + 1, off + 2, off + 3} \<longrightarrow> p' ! i = p ! i) \<and>
     window_ok (unat v5) (unat lim) (unat start) p' off"
proof -
  have n: "4 \<le> unat v5" "unat v5 < 4294967296" using assms(4,5,6) by simp_all
  have v6: "unat (v5 - 1) = unat v5 - 1" by (rule unat_pred) (use n(1) in simp)
  note st = win_first_bounds [OF assms(5) v6 n, of "p ! off", folded start_def]
  from win_search_spec [OF assms(4), of start v5] st obtain s fin where
    s: "win_search v5 lim start = Some (s, s + 1, fin)" "odd (unat s)" "unat s \<le> unat start" "fin \<longleftrightarrow> unat s < unat lim"
       "\<not> fin \<longrightarrow> good_size (unat v5) (unat s + 1)"
       "\<forall>x. odd x \<longrightarrow> unat s < x \<longrightarrow> x \<le> unat start \<longrightarrow> unat lim \<le> x \<longrightarrow> \<not> good_size (unat v5) (x + 1)"
    unfolding search_result_def by blast
  have small: "unat s + 1 \<le> 2 ^ 20" using s(3) st assms(6) by linarith
  then have ub: "unat (s + 1) = unat s + 1" by (subst unat_plus_nowrap32) simp_all
  obtain e where e: "2 ^ e \<le> unat (s + 1)" "unat (s + 1) < 2 ^ Suc e" using exponent_exists [of "unat (s + 1)"] ub by auto
  note rec = window_reciprocal [OF e, of s, unfolded ub, OF small refl]
  have nm: "s \<noteq> 0xffffffff"
  proof
    assume "s = 0xffffffff"
    then have "unat s = 4294967295" by simp
    then show False using small by simp
  qed
  define cnt where "cnt = (v5 - 1) div (s + 1) + 1"
  define sh where "sh = (drop_bit 8 (word_of_int (easylog2 (s + 1))) + 2 :: u32)"
  define rc where "rc = ((drop_bit 1 (s + 1) + push_bit (unat ((drop_bit 8 (word_of_int (easylog2 (s + 1))) + 10 :: u32) AND 0xff)) 1)
      div (if s = 0xffffffff then 1 else s + 1) - 1)"
  define p1 where "p1 = (if fin then p[off := s] else p[off := s, off + 2 := cnt])"
  define p' where "p' = p1[off + 3 := sh, off + 1 := rc]"
  have eq: "isp_win_param p off mode sel = Some p'"
    unfolding isp_win_param_def assms(2) assms(1) Let_def option.case start_def [symmetric] s(1) prod.case
      p'_def p1_def cnt_def sh_def rc_def if_not_P [OF nm] by simp
  have len: "length p' = length p" by (simp add: p'_def p1_def)
  have at: "p' ! off = s" "p' ! (off + 3) = sh" "p' ! (off + 1) = rc" "\<not> fin \<Longrightarrow> p' ! (off + 2) = cnt"
    using assms(3) by (simp_all add: p'_def p1_def)
  have other: "\<forall>i. i \<notin> {off, off + 1, off + 2, off + 3} \<longrightarrow> p' ! i = p ! i" by (simp add: p'_def p1_def)
  have quot: "unat ((v5 - 1) div (s + 1)) = (unat v5 - 1) div (unat s + 1)"
    unfolding unat_div_distrib v6 ub ..
  have lt: "unat ((v5 - 1) div (s + 1)) + unat (1 :: u32) < 4294967296"
    using div_le_dividend [of "unat v5 - 1" "unat s + 1"] n unfolding quot unat_1 by linarith
  have cnt: "unat cnt = (unat v5 - 1) div (unat s + 1) + 1"
    unfolding cnt_def unat_plus_nowrap32 [OF lt] quot unat_1 ..
  have max: "\<not> good_size (unat v5) b'" if b: "even b'" "unat s + 1 < b'" "b' \<le> unat start + 1" "unat lim < b'" for b'
  proof -
    have "odd (b' - 1)" "unat s < b' - 1" "b' - 1 \<le> unat start" "unat lim \<le> b' - 1" "b' - 1 + 1 = b'" using b by auto
    then show ?thesis using s(6) by metis
  qed
  have "window_ok (unat v5) (unat lim) (unat start) p' off"
    unfolding window_ok_def Let_def at(1-3)
  proof (intro conjI allI impI)
    show "even (unat s + 1)" using s(2) by simp
    show "unat s + 1 \<le> unat start + 1" using s(3) by simp
    show "\<exists>e. 2 ^ e \<le> unat s + 1 \<and> unat s + 1 < 2 ^ Suc e \<and> unat sh = e + 2 \<and>
        unat rc = ((unat s + 1) div 2 + 2 ^ (e + 10)) div (unat s + 1) - 1"
      unfolding sh_def rc_def using e rec unfolding ub by blast
    assume "unat lim < unat s + 1"
    then have "\<not> fin" using s(4) by simp
    then show "good_size (unat v5) (unat s + 1)" "unat (p' ! (off + 2)) = (unat v5 - 1) div (unat s + 1) + 1"
      using s(5) at(4) cnt by simp_all
  qed (use max in blast)
  then show ?thesis using eq len other by blast
qed

section \<open>Statistics parameters of a picture\<close>

text \<open>The smallest sizes for the rows and columns of a picture, on numbers.\<close>

definition extent_limit :: "int \<Rightarrow> nat \<Rightarrow> nat" where
  "extent_limit mode n = (if mode = 0 then if n * 10 < 0x89d then 7 else n * 10 div 0x13b else (n - 1) div 0x12 - 1)"

lemma win_limit_extent:
  assumes "mode = 0 \<or> mode = 1" and "64 \<le> unat v5" and "unat v5 \<le> 8192"
  shows "\<exists>lim. win_limit mode 0 v5 = Some lim \<and> unat lim = extent_limit mode (unat v5) \<and> 2 \<le> unat lim \<and> unat lim + 2 < unat v5"
proof -
  have t: "unat (v5 * 10) = unat v5 * 10" using assms(3) by (simp add: unat_word_ariths)
  have p: "unat (v5 - 1) = unat v5 - 1" by (rule unat_pred) (use assms(2) in simp)
  show ?thesis
  proof (cases "mode = 0")
    case True
    have q: "unat (v5 * 10 div 0x13b) = unat v5 * 10 div 0x13b" unfolding unat_div_distrib t by simp
    have l: "v5 * 10 < 0x89d \<longleftrightarrow> unat v5 * 10 < 0x89d" by (simp add: word_less_nat_alt t)
    show ?thesis
    proof (cases "unat v5 * 10 < 0x89d")
      case small: True
      then show ?thesis using True assms(2) l by (simp add: win_limit_def Let_def extent_limit_def)
    next
      case False
      then have "7 \<le> unat v5 * 10 div 0x13b" by (simp add: le_div_geq)
      moreover have "unat v5 * 10 div 0x13b + 2 < unat v5" using assms(2) by linarith
      ultimately show ?thesis using True False l q by (simp add: win_limit_def Let_def extent_limit_def)
    qed
  next
    case False
    have q: "unat ((v5 - 1) div 0x12) = (unat v5 - 1) div 0x12" unfolding unat_div_distrib p by simp
    have pos: "0 < unat ((v5 - 1) div 0x12)" using assms(2) unfolding q by linarith
    have q1: "unat ((v5 - 1) div 0x12 - 1) = (unat v5 - 1) div 0x12 - 1" unfolding unat_pred [OF pos] q ..
    have r: "2 \<le> (unat v5 - 1) div 0x12 - 1" "(unat v5 - 1) div 0x12 - 1 + 2 < unat v5" using assms(2) by linarith+
    have l: "win_limit mode 0 v5 = Some ((v5 - 1) div 0x12 - 1)" "extent_limit mode (unat v5) = (unat v5 - 1) div 0x12 - 1"
      using False assms(1) by (simp_all add: win_limit_def Let_def extent_limit_def)
    show ?thesis unfolding l by (rule exI, rule conjI, rule refl, unfold q1) (intro conjI refl r)
  qed
qed

text \<open>The first candidate for an extent: as many windows as the mode presets.\<close>

definition first_size :: "int \<Rightarrow> u32 \<Rightarrow> u32 \<Rightarrow> u32" where
  "first_size mode n parts = win_first ((n - 1) div parts - 1) (n - 1) (win_limit mode 0 n)"

lemma third_limit: "win_limit 0 1 0x400 = Some 66" "win_limit 1 1 0x3000 = Some 557"
  by (simp_all add: win_limit_def Let_def)

lemma stat_presets_cases:
  assumes "length a = 21" and "a ! 20 = 0 \<or> a ! 20 = 1"
  shows "\<exists>b pa pb. stat_presets a = (b, pa, pb) \<and> length b = 21 \<and> b ! 18 = a ! 18 \<and> b ! 19 = a ! 19 \<and>
     int_of_u32 (a ! 20 AND 0xff) = (if a ! 20 = 0 then 0 else 1) \<and>
     (if a ! 20 = 0 then b ! 12 = 0xcb \<and> b ! 16 = 0x400 \<and> pa = 0xd \<and> pb = 0x17
      else b ! 12 = 0x6da \<and> b ! 16 = 0x3000 \<and> pa = 8 \<and> pb = 0xf)"
  using assms by (auto simp: stat_presets_def int_of_u32_def)

text \<open>The three searches on one array, which keeps the sizes of the picture.\<close>

lemma stat_search:
  assumes "length a = 21" and "a ! 20 = 0 \<or> a ! 20 = 1"
    and "64 \<le> unat (a ! 18)" and "unat (a ! 18) \<le> 8192" and "64 \<le> unat (a ! 19)" and "unat (a ! 19) \<le> 8192"
  shows "\<exists>a'. isp_set_stat_param a = Some a' \<and> length a' = 21 \<and> a' ! 18 = a ! 18 \<and> a' ! 19 = a ! 19 \<and>
     (let m = (if a ! 20 = 0 then 0 else 1);
          third = (if a ! 20 = 0 then 0x400 else 0x3000);
          lim = (if a ! 20 = 0 then 66 else 557)
      in window_ok (unat (a ! 18)) (extent_limit m (unat (a ! 18))) (unat (first_size m (a ! 18) (if a ! 20 = 0 then 13 else 8))) a' 0 \<and>
         window_ok (unat (a ! 19)) (extent_limit m (unat (a ! 19))) (unat (first_size m (a ! 19) (if a ! 20 = 0 then 23 else 15))) a' 6 \<and>
         window_ok (unat third) (unat lim) (unat (win_first (if a ! 20 = 0 then 0xcb else 0x6da) (third - 1) (Some lim))) a' 12)"
proof -
  define m :: int where "m = (if a ! 20 = 0 then 0 else 1)"
  define third :: u32 where "third = (if a ! 20 = 0 then 0x400 else 0x3000)"
  define lim3 :: u32 where "lim3 = (if a ! 20 = 0 then 66 else 557)"
  define p3 :: u32 where "p3 = (if a ! 20 = 0 then 0xcb else 0x6da)"
  define na :: u32 where "na = (if a ! 20 = 0 then 13 else 8)"
  define nb :: u32 where "nb = (if a ! 20 = 0 then 23 else 15)"
  from stat_presets_cases [OF assms(1,2)] obtain b pa pb where
    b: "stat_presets a = (b, pa, pb)" "length b = 21" "b ! 18 = a ! 18" "b ! 19 = a ! 19"
       "int_of_u32 (a ! 20 AND 0xff) = m" "b ! 12 = p3" "b ! 16 = third" "pa = na" "pb = nb"
    unfolding m_def third_def p3_def na_def nb_def by (auto split: if_splits)
  define c where "c = b[4 := a ! 18, 10 := a ! 19, 17 := 1, 6 := (a ! 19 - 1) div nb - 1, 0 := (a ! 18 - 1) div na - 1, 5 := 0, 11 := 0]"
  have c: "length c = 21" "c ! 4 = a ! 18" "c ! 10 = a ! 19" "c ! 17 = 1" "c ! 6 = (a ! 19 - 1) div nb - 1"
    "c ! 0 = (a ! 18 - 1) div na - 1" "c ! 11 = 0" "c ! 12 = p3" "c ! 16 = third"
    using b(2,6,7) by (simp_all add: c_def)
  have m01: "m = 0 \<or> m = 1" by (simp add: m_def)
  from win_limit_extent [OF m01 assms(3,4)] obtain l1 where l1: "win_limit m 0 (a ! 18) = Some l1"
    "unat l1 = extent_limit m (unat (a ! 18))" "2 \<le> unat l1" "unat l1 + 2 < unat (a ! 18)" by blast
  from win_limit_extent [OF m01 assms(5,6)] obtain l2 where l2: "win_limit m 0 (a ! 19) = Some l2"
    "unat l2 = extent_limit m (unat (a ! 19))" "2 \<le> unat l2" "unat l2 + 2 < unat (a ! 19)" by blast
  have l3: "win_limit m 1 third = Some lim3" "2 \<le> unat lim3" "unat lim3 + 2 < unat third" "unat third \<le> 2 ^ 20"
    using third_limit by (simp_all add: m_def third_def lim3_def)
  have big: "unat (a ! 18) \<le> 2 ^ 20" "unat (a ! 19) \<le> 2 ^ 20" using assms(4,6) by simp_all
  from win_param_ok [of m 0 "a ! 18" l1 c 0] l1 c(1,2) big obtain d where d: "isp_win_param c 0 m 0 = Some d" "length d = 21"
    "\<forall>i. i \<notin> {0, 1, 2, 3} \<longrightarrow> d ! i = c ! i"
    "window_ok (unat (a ! 18)) (unat l1) (unat (win_first (c ! 0) (a ! 18 - 1) (Some l1))) d 0" by auto
  from win_param_ok [of m 0 "a ! 19" l2 d 6] l2 c d(2,3) big obtain e where e: "isp_win_param d 6 m 0 = Some e" "length e = 21"
    "\<forall>i. i \<notin> {6, 7, 8, 9} \<longrightarrow> e ! i = d ! i"
    "window_ok (unat (a ! 19)) (unat l2) (unat (win_first (c ! 6) (a ! 19 - 1) (Some l2))) e 6" by auto
  from win_param_ok [of m 1 third lim3 e 12] l3 c d(2,3) e(2,3) obtain f where f: "isp_win_param e 12 m 1 = Some f" "length f = 21"
    "\<forall>i. i \<notin> {12, 13, 14, 15} \<longrightarrow> f ! i = e ! i"
    "window_ok (unat third) (unat lim3) (unat (win_first p3 (third - 1) (Some lim3))) f 12" by auto
  have sel: "int_of_u32 (d ! 11) = 0" "int_of_u32 (e ! 17) = 1" using d(3) e(3) c by (simp_all add: int_of_u32_def)
  have eq: "isp_set_stat_param a = Some f"
    unfolding isp_set_stat_param_def b(1,5) Let_def prod.case b(3,4,8,9)
    using b(2) by (simp add: b(3,4) d(1) e(1) f(1) sel flip: c_def)
  have keep: "f ! 18 = a ! 18" "f ! 19 = a ! 19" using d(3) e(3) f(3) b(2-4) by (simp_all add: c_def)
  have same: "f ! i = d ! i" if "i \<in> {0, 1, 2, 3}" for i using e(3) f(3) that by auto
  have same6: "f ! i = e ! i" if "i \<in> {6, 7, 8, 9}" for i using f(3) that by auto
  have w1: "window_ok (unat (a ! 18)) (unat l1) (unat (win_first (c ! 0) (a ! 18 - 1) (Some l1))) f 0"
    by (subst window_ok_cong [of f 0 d]) (use same d(4) in simp_all)
  have w2: "window_ok (unat (a ! 19)) (unat l2) (unat (win_first (c ! 6) (a ! 19 - 1) (Some l2))) f 6"
    by (subst window_ok_cong [of f 6 e]) (use same6 e(4) in simp_all)
  have fs: "first_size m (a ! 18) na = win_first (c ! 0) (a ! 18 - 1) (Some l1)"
    "first_size m (a ! 19) nb = win_first (c ! 6) (a ! 19 - 1) (Some l2)"
    by (simp_all add: first_size_def l1(1) l2(1) c(5,6))
  show ?thesis
    by (rule exI [of _ f], unfold Let_def m_def [symmetric] third_def [symmetric] lim3_def [symmetric] p3_def [symmetric]
        na_def [symmetric] nb_def [symmetric] fs l1(2) [symmetric] l2(2) [symmetric])
      (intro conjI eq f(2) keep w1 w2 f(4))
qed

text \<open>C25: The statistics windows: for every picture with sides from 64 to 8192 and both modes the search ends
  without a division by zero, and for rows, columns and the tone-mapping extent it returns an even window
  size such that no larger even size from the first candidate down leaves a usable remainder; unless the
  lower limit was passed the size itself is usable and the number of windows is the one that covers the
  extent; the reciprocal and its shift belong to the size.\<close>
theorem stat_windows:
  assumes "length a = 21" and "a ! 20 = 0 \<or> a ! 20 = 1"
    and "64 \<le> unat (a ! 18)" and "unat (a ! 18) \<le> 8192" and "64 \<le> unat (a ! 19)" and "unat (a ! 19) \<le> 8192"
  shows "\<exists>a'. isp_set_stat_param a = Some a' \<and> length a' = 21 \<and>
     (let m = (if a ! 20 = 0 then 0 else 1);
          third = (if a ! 20 = 0 then 0x400 else 0x3000);
          lim = (if a ! 20 = 0 then 66 else 557)
      in window_ok (unat (a ! 18)) (extent_limit m (unat (a ! 18))) (unat (first_size m (a ! 18) (if a ! 20 = 0 then 13 else 8))) a' 0 \<and>
         window_ok (unat (a ! 19)) (extent_limit m (unat (a ! 19))) (unat (first_size m (a ! 19) (if a ! 20 = 0 then 23 else 15))) a' 6 \<and>
         window_ok (unat third) (unat lim) (unat (win_first (if a ! 20 = 0 then 0xcb else 0x6da) (third - 1) (Some lim))) a' 12)"
  using stat_search [OF assms] by blast

definition stat_array :: "u32 \<Rightarrow> u32 \<Rightarrow> u32 \<Rightarrow> u32 list" where
  "stat_array w h mode = (replicate 21 0)[18 := h, 19 := w, 20 := mode]"

lemma stat_windows_witness:
  "\<exists>a'. isp_set_stat_param (stat_array 1920 1080 0) = Some a' \<and> length a' = 21 \<and>
     window_ok 1080 (extent_limit 0 1080) (unat (first_size 0 1080 13)) a' 0 \<and>
     window_ok 1920 (extent_limit 0 1920) (unat (first_size 0 1920 23)) a' 6"
  using stat_windows [of "stat_array 1920 1080 0"] by (auto simp: stat_array_def Let_def)

end
