(* ===== verification/Isp_Init.thy ===== *)
theory Isp_Init
  imports Isp_Win Descriptors
begin

text \<open>
  \<open>sdk/lib/isp_init.c\<close>: mapping the registers of the image signal processor and writing its bring-up
  sequence. A register access is a \<open>Peek\<close> or \<open>Poke\<close> of the mapping; straight runs of assignments are
  lists of offsets and values. The context of the callers is the record \<open>isp_ctx\<close>, whose register
  pointer is 0 for the null pointer.
\<close>

section \<open>Context and register access\<close>

definition ISP_REG_BASE :: u32 where "ISP_REG_BASE = 0xE8400000"
definition ISP_REG_SIZE :: u32 where "ISP_REG_SIZE = 0x3240"

record isp_ctx =
  ctx_regs :: int
  mem_fd :: int
  ctx_width :: u32
  ctx_height :: u32

text \<open>\<open>O_RDWR | O_SYNC\<close> on this target, and \<open>MAP_FAILED\<close>.\<close>

definition O_RDWR_SYNC :: nat where "O_RDWR_SYNC = 0x101002"
definition MAP_FAILED :: int where "MAP_FAILED = - 1"

definition peek :: "kernel \<Rightarrow> int \<Rightarrow> nat \<Rightarrow> hist \<Rightarrow> u32 \<times> hist" where
  "peek k b off h = (let (r, h) = sys k (Peek b off) h in (overlay (rwords r) [0] ! 0, h))"

fun poke_all :: "kernel \<Rightarrow> int \<Rightarrow> (nat \<times> u32) list \<Rightarrow> hist \<Rightarrow> hist" where
  "poke_all k b [] h = h"
| "poke_all k b ((off, v) # ws) h = poke_all k b ws (sys_h k (Poke b off v) h)"

text \<open>\<open>R[off/4] = f (R[off/4])\<close>.\<close>

definition modify :: "kernel \<Rightarrow> int \<Rightarrow> nat \<Rightarrow> (u32 \<Rightarrow> u32) \<Rightarrow> hist \<Rightarrow> hist" where
  "modify k b off f h = (let (v, h) = peek k b off h in sys_h k (Poke b off (f v)) h)"

definition isp_mmap :: "kernel \<Rightarrow> isp_ctx \<Rightarrow> u32 \<Rightarrow> u32 \<Rightarrow> hist \<Rightarrow> int \<times> isp_ctx \<times> hist" where
  "isp_mmap k ctx width height h =
     (let ctx = ctx\<lparr>ctx_width := width, ctx_height := height\<rparr>;
          (f, h) = sys k (Open ''/dev/mem'' O_RDWR_SYNC) h;
          ctx = ctx\<lparr>mem_fd := rv f\<rparr>
      in if rv f < 0 then (- 1, ctx, h)
         else
           let (m, h) = sys k (Mmap (rv f) ISP_REG_SIZE ISP_REG_BASE) h;
               ctx = ctx\<lparr>ctx_regs := rv m\<rparr>
           in if rv m = MAP_FAILED then (- 1, ctx\<lparr>ctx_regs := 0\<rparr>, sys_h k (Close (rv f)) h)
              else (0, ctx, h))"

definition isp_reset :: "kernel \<Rightarrow> isp_ctx \<Rightarrow> hist \<Rightarrow> hist" where
  "isp_reset k ctx h =
     (let h = modify k (ctx_regs ctx) 0x0F0 (\<lambda>v. (v AND 0xFFFFFFCF) OR 0x10) h;
          h = modify k (ctx_regs ctx) 0x0F4 (\<lambda>v. (v AND 0xFFFFFFFC) OR 0x02) h
      in sys_h k (Usleep 1000) h)"

section \<open>Picture size\<close>

definition ISP_CNR_EXP_TABLE :: "u32 list" where
  "ISP_CNR_EXP_TABLE =
    [0x03c103ff, 0x03500387, 0x02ed031d, 0x029502bf, 0x0247026d, 0x02020224, 0x01c601e3, 0x019101aa,
     0x01610178, 0x0138014c, 0x01130125, 0x00f30102, 0x00d600e4, 0x00bd00c9, 0x00a700b1, 0x0093009d,
     0x0082008a, 0x0072007a, 0x0065006b, 0x0059005f, 0x004e0054, 0x0045004a, 0x003d0041, 0x00360039,
     0x002f0032, 0x002a002c, 0x00250027, 0x00200023, 0x001d001e, 0x0019001b, 0x00160018, 0x00130015,
     0x00110012, 0x000f0010, 0x000d000e, 0x000c000c, 0x000a000b, 0x0009000a, 0x00080008, 0x00070007,
     0x00060006, 0x00050006, 0x00050005, 0x00040004, 0x00030004, 0x00030003, 0x00030003, 0x00020002,
     0x00020002, 0x00020002, 0x00010001, 0x00010001, 0x00010001, 0x00010001, 0x00010001, 0x00000001]"

text \<open>The two passes of \<open>isp_set_nr3d_drc_win\<close>.\<close>

definition drc_writes0 :: "u32 list \<Rightarrow> (nat \<times> u32) list" where
  "drc_writes0 a =
     [(0x2ac, push_bit 16 (a ! 14) OR push_bit 8 (a ! 8) OR a ! 2),
      (0x2b0, a ! 0 OR push_bit 16 (a ! 6)),
      (0x2b4, a ! 12),
      (0x2b8, push_bit 16 (a ! 7) OR push_bit 10 (a ! 3) OR a ! 1 OR push_bit 26 (a ! 9)),
      (0x2bc, a ! 13 OR push_bit 10 (a ! 15)),
      (0x2d0, push_bit 16 (a ! 14) OR push_bit 8 (a ! 8) OR a ! 2),
      (0x2d4, a ! 0 OR push_bit 16 (a ! 6)),
      (0x2d8, a ! 12)]"

definition drc_writes1 :: "u32 list \<Rightarrow> (nat \<times> u32) list" where
  "drc_writes1 a =
     [(0x604, push_bit 16 (a ! 14) OR push_bit 8 (a ! 8) OR a ! 2),
      (0x608, a ! 0 OR push_bit 16 (a ! 6)),
      (0x60c, a ! 12),
      (0x610, push_bit 16 (a ! 7) OR push_bit 10 (a ! 3) OR a ! 1 OR push_bit 26 (a ! 9)),
      (0x614, a ! 13 OR push_bit 10 (a ! 15)),
      (0x624, push_bit 16 (a ! 14) OR push_bit 8 (a ! 8) OR a ! 2),
      (0x628, a ! 0 OR push_bit 16 (a ! 6)),
      (0x62c, a ! 12)]"

definition isp_set_nr3d_drc_win :: "kernel \<Rightarrow> isp_ctx \<Rightarrow> u32 \<Rightarrow> u32 \<Rightarrow> hist \<Rightarrow> hist option" where
  "isp_set_nr3d_drc_win k ctx width height h =
     (let a = replicate 21 0;
          a = a[18 := height];
          a = a[19 := width];
          a = a[20 := 0]
      in case isp_set_stat_param a of None \<Rightarrow> None
         | Some a \<Rightarrow>
             let h = poke_all k (ctx_regs ctx) (drc_writes0 a) h;
                 a = a[20 := 1]
             in (case isp_set_stat_param a of None \<Rightarrow> None
                 | Some a \<Rightarrow> Some (poke_all k (ctx_regs ctx) (drc_writes1 a) h)))"

definition lsc_zeros :: "(nat \<times> u32) list" where
  "lsc_zeros = map (\<lambda>i. (0x1590 + 4 * i, 0)) [0..<299]"

definition lsc_writes :: "u32 \<Rightarrow> u32 \<Rightarrow> (nat \<times> u32) list" where
  "lsc_writes blk_w blk_h =
     (let v0 = push_bit 16 blk_w OR push_bit 24 blk_w OR push_bit 8 blk_w;
          v1 = blk_w OR v0;
          v5 = push_bit 16 blk_h OR push_bit 24 blk_h OR push_bit 8 blk_h;
          v6 = blk_h OR v5
      in [(0x1a14, v0), (0x1a18, v1), (0x1a1c, v1), (0x1a20, v1), (0x1a24, blk_w - 1),
          (0x1a28, v5), (0x1a2c, v6), (0x1a30, v6), (0x1a34, v6), (0x1a38, blk_h - 1)])"

definition isp_set_lsc_tab :: "kernel \<Rightarrow> isp_ctx \<Rightarrow> u32 \<Rightarrow> u32 \<Rightarrow> hist \<Rightarrow> hist" where
  "isp_set_lsc_tab k ctx width height h =
     (let blk_w = drop_bit 5 width; blk_h = drop_bit 5 height;
          h = poke_all k (ctx_regs ctx) lsc_zeros h
      in poke_all k (ctx_regs ctx) (lsc_writes blk_w blk_h) h)"

definition size_writes :: "u32 \<Rightarrow> u32 \<Rightarrow> (nat \<times> u32) list" where
  "size_writes w h =
     (let input_size = (w - 1) OR push_bit 16 (h - 1);
          blk_h = drop_bit 5 h - 1;
          blk_w = drop_bit 5 w - 1;
          isp_size = (w - 1) OR push_bit 16 (h - 1)
      in [(0x130, input_size), (0x144, input_size), (0x138, isp_size), (0x14c, isp_size),
          (0x490, push_bit 24 blk_h OR push_bit 16 (w div 0x30 - 1)),
          (0x0d0, isp_size), (0x500, 0), (0x504, 0),
          (0x508, blk_w OR push_bit 16 blk_h OR 0x78007800)])"

definition grid_value :: "u32 \<Rightarrow> u32 \<Rightarrow> u32 \<Rightarrow> u32" where
  "grid_value w h old =
     (let blk_h = drop_bit 5 h - 1; blk_w = drop_bit 5 w - 1
      in ((blk_w OR push_bit 8 blk_h) AND 0x1fffffff) OR (old AND 0xe0000000) OR 0xf0f0000)"

definition stride_writes :: "u32 \<Rightarrow> (nat \<times> u32) list" where
  "stride_writes w =
     (let raw_stride = drop_bit 3 (w * 10 + 7) + 7;
          q_stride = drop_bit 3 (drop_bit 2 w * 10) + 7;
          q_stride_en = (q_stride AND 0x7ffffff8) OR 0x80000000
      in [(0x4e4, 0), (0x4e8, 0x1fff1), (0x2e8, raw_stride AND 0xfffffff8),
          (0x2f0, (raw_stride AND 0x7ffffff8) OR 0x80000000), (0x2f8, 0x280), (0x300, 0x80000280),
          (0x308, q_stride AND 0xfffffff8), (0x310, q_stride_en), (0x318, q_stride AND 0xfffffff8),
          (0x320, q_stride_en), (0x41c, q_stride AND 0xfff8), (0xaa8, q_stride AND 0xfff8),
          (0x648, 0x80000348), (0x658, 0x80000348), (0x134, 0), (0x148, 0)])"

definition cnr_writes :: "(nat \<times> u32) list" where
  "cnr_writes = map (\<lambda>i. (0xb4c + 4 * i, ISP_CNR_EXP_TABLE ! i)) [0..<56]"

definition isp_set_pic_size :: "kernel \<Rightarrow> isp_ctx \<Rightarrow> hist \<Rightarrow> hist option" where
  "isp_set_pic_size k ctx hh =
     (let w = ctx_width ctx; h = ctx_height ctx;
          hh = poke_all k (ctx_regs ctx) (size_writes w h) hh;
          hh = modify k (ctx_regs ctx) 0x4e0 (grid_value w h) hh;
          hh = poke_all k (ctx_regs ctx) (stride_writes w) hh;
          hh = isp_set_lsc_tab k ctx w h hh
      in case isp_set_nr3d_drc_win k ctx w h hh of None \<Rightarrow> None
         | Some hh \<Rightarrow> Some (poke_all k (ctx_regs ctx) cnr_writes hh))"

section \<open>Pipeline and filters\<close>

definition ISP_GAMMA_TABLE :: "u32 list" where
  "ISP_GAMMA_TABLE =
    [0x00050000, 0x000f000a, 0x00190014, 0x0022001e, 0x002c0027, 0x00350031, 0x003e003a, 0x00470043,
     0x0050004c, 0x00590055, 0x0062005d, 0x006a0066, 0x0073006f, 0x007b0077, 0x0083007f, 0x008b0087,
     0x0093008f, 0x009b0097, 0x00a3009f, 0x00aa00a7, 0x00b200ae, 0x00b900b6, 0x00c100bd, 0x00c800c4,
     0x00cf00cb, 0x00d600d3, 0x00dd00d9, 0x00e400e0, 0x00eb00e7, 0x00f100ee, 0x00f800f5, 0x00fe00fb,
     0x010e0102, 0x0127011b, 0x013e0132, 0x01540149, 0x0169015f, 0x017d0173, 0x01910187, 0x01a3019a,
     0x01b501ac, 0x01c601be, 0x01d601ce, 0x01e601de, 0x01f501ee, 0x020401fd, 0x0212020b, 0x021f0219,
     0x022c0226, 0x02390233, 0x0245023f, 0x0251024b, 0x025c0256, 0x02670262, 0x0272026c, 0x027c0277,
     0x02940281, 0x02b702a6, 0x02d702c7, 0x02f302e5, 0x030c0300, 0x03230318, 0x0338032e, 0x034b0342,
     0x035d0354, 0x036d0365, 0x037c0375, 0x038a0383, 0x03970391, 0x03a3039d, 0x03ae03a9, 0x03b903b4,
     0x03c303be, 0x03cc03c7, 0x03d503d0, 0x03dd03d9, 0x03e503e1, 0x03ec03e8, 0x03f303f0, 0x03fa03f6]"

definition ispp_writes :: "(nat \<times> u32) list" where
  "ispp_writes =
    [(0x008, 0x7ffffff), (0x080, 0x50402010), (0x084, 0x90807060), (0x088, 0xd0c0b0a0), (0x08c, 0xfff0e0), (0x090, 0x10101010),
     (0x094, 0x10101010), (0x098, 0x10101010), (0x09c, 0xf1010), (0x0a0, 0x30281810), (0x0a4, 0x50484038), (0x0a8, 0x80706058),
     (0x0ac, 0xc8c0a090), (0x0b0, 0xe0d8d0), (0x0b4, 0), (0x0b8, 0), (0x494, 0x9015), (0x13c, 0),
     (0x140, 0), (0x150, 0), (0x154, 0), (0x578, 0), (0x57c, 0)]"

definition gamma_writes :: "(nat \<times> u32) list" where
  "gamma_writes =
     concat (map (\<lambda>i. let raw = ISP_GAMMA_TABLE ! i; shifted = push_bit 2 raw
                      in [(0x1a40 + 4 * i, shifted), (0x1b80 + 4 * i, shifted), (0x1cc0 + 4 * i, shifted), (0x1e00 + 4 * i, raw)])
                 [0..<80])"

definition isp_ispp_init :: "kernel \<Rightarrow> isp_ctx \<Rightarrow> hist \<Rightarrow> hist" where
  "isp_ispp_init k ctx h =
     poke_all k (ctx_regs ctx) gamma_writes (poke_all k (ctx_regs ctx) ispp_writes h)"

definition ISP_DRC_KLCURVE_TABLE :: "u32 list" where
  "ISP_DRC_KLCURVE_TABLE =
    [0x03000000, 0x03fe037b, 0x050e0484, 0x0629059a, 0x074b06ba, 0x087307de, 0x099d0908, 0x0aca0a33,
     0x0bf90b61, 0x0d280c90, 0x0e570dbf, 0x0f850eee, 0x10b3101c, 0x11e0114a, 0x130b1275, 0x1433139f,
     0x155b14c8, 0x167f15ee, 0x17a11711, 0x18c11832, 0x19de1950, 0x1af71a6b, 0x1c0e1b83, 0x1d221c99,
     0x1e321daa, 0x1f3f1eb9, 0x20481fc4, 0x214e20cb, 0x224f21cf, 0x234e22cf, 0x244823cc, 0x253f24c5,
     0x26aa25b9, 0x28812798, 0x2a482967, 0x2bff2b26, 0x2da72cd5, 0x2f3e2e74, 0x30c63004, 0x323e3184,
     0x33a732f5, 0x35013456, 0x364c35a8, 0x378836eb, 0x38b53820, 0x39d53947, 0x3ae83a60, 0x3bed3b6c,
     0x3d5e3c6b, 0x3f213e45, 0x40bc3ff3, 0x4233417b, 0x439042e4, 0x44dd4438, 0x46214580, 0x475d46c0,
     0x489047f7, 0x49bc4927, 0x4ae14a4f, 0x4bff4b70, 0x4d164c8b, 0x4e284da0, 0x4f344eaf, 0x503b4fb8,
     0x51bb50bc, 0x53ac52b6, 0x558b549e, 0x575b5675, 0x591d583e, 0x5ad159f8, 0x5c795ba6, 0x5e155d48,
     0x5fa75ee0, 0x612f606d, 0x62ae61f0, 0x6424636a, 0x659264dc, 0x66f86646, 0x685767a9, 0x69af6904,
     0x6ba76a58, 0x6e316cef, 0x70a66f6e, 0x730671d8, 0x7554742f, 0x77917674, 0x79be78a9, 0x7bdd7acf,
     0x7dee7ce7, 0x7ff37ef2, 0x81ed80f1, 0x83db82e5, 0x85bf84ce, 0x879986ad, 0x896b8883, 0x8b338a50,
     0x8dd28c15, 0x91358f87, 0x947e92dd, 0x97ae9619, 0x9ac9993e, 0x9dcf9c4e, 0xa0c29f4b, 0xa3a5a236,
     0xa678a511, 0xa93da7dd, 0xabf5aa9b, 0xaea0ad4c, 0xb140aff1, 0xb3d5b28c, 0xb660b51c, 0xb8e2b7a2,
     0xbc95ba20, 0xc169bf03, 0xc621c3c8, 0xcac2c874, 0xcf4dcd0a, 0xd3c5d18b, 0xd82dd5fb, 0xdc87da5c,
     0xe0d4deaf, 0xe516e2f6, 0xe94ee733, 0xed7deb66, 0xf1a5ef92, 0xf5c7f3b7, 0xf9e4f7d6, 0xfdfcfbf1,
     0x00010007]"

definition ispf_writes1 :: "(nat \<times> u32) list" where
  "ispf_writes1 =
    [(0x400, 1), (0x404, 0xf001f4a0), (0x408, 0xf001f4a0), (0x40c, 0xf001f4a0), (0x410, 0xf001f4a0), (0x414, 0x1fff009c),
     (0x1c4, 0xc), (0x510, 0x400), (0x514, 0x3ffffbff), (0x518, 0x3ff00001), (0x51c, 0x3feffc00), (0x520, 0xffbfe),
     (0x50c, 0x100fff), (0x548, 0xfff), (0x54c, 0xfff0000), (0x550, 0xfff), (0x554, 0xfff0fff), (0x558, 0xfff0000),
     (0x55c, 0xfff0fff), (0x538, 0x40), (0x53c, 0), (0x570, 0x20002e4), (0x574, 0x35c0200), (0x578, 0),
     (0x57c, 0), (0xc2c, 0x404), (0xc30, 0x10000404), (0xc34, 0x786e6868), (0xc38, 0x7e7a7a78), (0xc3c, 0x8000000),
     (0xc40, 0xa140204), (0xc44, 0xa141325), (0xc48, 0x10101325), (0xc4c, 0x3ff0000), (0xc50, 0x1400c04), (0xc54, 0x7c000606),
     (0xc58, 0x7f7d7d7c), (0xc5c, 0x6000000), (0xc60, 0x1a140204), (0xc64, 0x1a143425), (0xc68, 0x48483425), (0xc6c, 0x3fc0000),
     (0xc70, 0x4000), (0xaac, 0), (0xab0, 0x160000), (0xab4, 0x100010), (0xab8, 0x801), (0xabc, 0x1000805b),
     (0xac0, 0x80030000), (0xac4, 0x11100a10), (0xac8, 0x400040), (0xacc, 0x400040), (0xad0, 0x400040), (0xad4, 0x400040),
     (0xad8, 0x400040), (0xadc, 0x400040), (0xae0, 0x400040), (0xae4, 0x400040), (0xae8, 0x400040), (0xaec, 0x400040),
     (0xaf0, 0x400040), (0xaf4, 0x400040), (0xaf8, 0x400040), (0xafc, 0x400040), (0xb00, 0x400040), (0xb04, 0x400040),
     (0xb08, 0x400040), (0xb0c, 0x400040), (0xb10, 0x400040), (0xb14, 0x400040), (0xb18, 0x400040), (0xb1c, 0x400040),
     (0xb20, 0x400040), (0xb24, 0x400040), (0xb28, 0xaa00a0), (0xb2c, 0x2800280), (0xb30, 0x7800780), (0xb34, 0x1200120),
     (0xb38, 0x360036), (0xb3c, 0x260026), (0xb40, 0x30181414), (0xb44, 0x4000), (0xb48, 0x80404000), (0xe00, 0x40),
     (0xe04, 0x800000), (0xe08, 0xcc011c), (0xe0c, 0x10101), (0xe10, 0xff0000), (0xe14, 0), (0xe18, 0x29c0054),
     (0xe1c, 0x29c0260), (0xe20, 0x1640260), (0xe24, 0x16403ac), (0xe28, 0x16401a4), (0xe2c, 0x36401a4), (0xa30, 0x200),
     (0xa34, 0), (0xa38, 0x200), (0xa3c, 0), (0xa40, 0x200), (0xa44, 0), (0xc74, 0x105),
     (0xa60, 0x2590132), (0xa64, 0xf530074), (0xa68, 0x2000ead), (0xa6c, 0xe530200), (0xa70, 0xfad), (0xa74, 0x4000400),
     (0xa78, 0x3ff3ff11)]"

definition ispf_writes2 :: "(nat \<times> u32) list" where
  "ispf_writes2 =
    [(0x250, 0xff3983), (0x254, 0x1000100), (0x258, 0x1000100), (0x25c, 0x80), (0x260, 0x80), (0x264, 0x80),
     (0x268, 0x80), (0x26c, 0x200c000), (0x278, 0xc8081a0a), (0x27c, 0x2408c23), (0x280, 0x2d0a026), (0x284, 0x6511c37),
     (0x288, 0x1603a898), (0x28c, 0x30da29f2), (0x290, 0x3d0eaf6d), (0x294, 0x3f8fc7e5), (0x298, 0x3feff7fb), (0x29c, 0x3ffffffe),
     (0x2a8, 2), (0x2c0, 0x3523120a), (0x2c4, 0x9b5e9b5b), (0x2c8, 0xff), (0x590, 0xd), (0x594, 0x30303),
     (0x598, 0x1400a0), (0x59c, 0xfc0de0), (0x5a0, 0x1800c00), (0x5a4, 0x334), (0x5a8, 0x3e6), (0x5ac, 0xff),
     (0x5b4, 0xc208f), (0x5b8, 0x163117), (0x5bc, 0x22e1c4), (0x5c0, 0x3a829d), (0x5c4, 0x4a2), (0x5c8, 0x2b211607),
     (0x5cc, 0x514e4639), (0x5d0, 0x61c394c), (0x5d8, 0x1340ab), (0x5dc, 0x3b0263), (0x5e0, 0x7a2589), (0x5e4, 0xd689b1),
     (0x5e8, 0xf1e), (0x5ec, 199), (0x5f0, 0x80e06080), (0x5f4, 0x4006480), (0x5f8, 0x4006480), (0x5fc, 0xb40d9a),
     (0x600, 0x10000cd), (0x618, 0x3523120a), (0x61c, 0x9b5e9b5b), (0x620, 0xff), (0x664, 0x20222e), (0x668, 0),
     (0x66c, 0x3f0)]"

text \<open>The two values between them that are addresses of strings in the vendor's program are not written.\<close>

definition ispf_writes :: "(nat \<times> u32) list" where
  "ispf_writes = ispf_writes1 @ ispf_writes2"

definition klcurve_writes :: "(nat \<times> u32) list" where
  "klcurve_writes = map (\<lambda>i. (0x690 + 4 * i, ISP_DRC_KLCURVE_TABLE ! i)) [0..<129]"

definition isp_ispf_init :: "kernel \<Rightarrow> isp_ctx \<Rightarrow> hist \<Rightarrow> hist" where
  "isp_ispf_init k ctx h =
     (let h = poke_all k (ctx_regs ctx) [(0x0e0, 0x400102)] h;
          h = modify k (ctx_regs ctx) 0x0e4 (\<lambda>v. v OR 2) h;
          h = poke_all k (ctx_regs ctx) ispf_writes h
      in poke_all k (ctx_regs ctx) klcurve_writes h)"

section \<open>Bring-up\<close>

definition isp_apply_module_bypass :: "kernel \<Rightarrow> isp_ctx \<Rightarrow> hist \<Rightarrow> hist" where
  "isp_apply_module_bypass k ctx h = modify k (ctx_regs ctx) 0x02c (\<lambda>v. v OR 0x400) h"

definition isp_pkg_enable :: "kernel \<Rightarrow> isp_ctx \<Rightarrow> hist \<Rightarrow> hist" where
  "isp_pkg_enable k ctx h =
     modify k (ctx_regs ctx) 0x100 (\<lambda>v. v OR 1) (poke_all k (ctx_regs ctx) [(0x100, 4), (0x034, 5)] h)"

text \<open>\<open>None\<close> is a division by zero in the window search.\<close>

definition isp_hw_init :: "kernel \<Rightarrow> isp_ctx \<Rightarrow> u32 \<Rightarrow> u32 \<Rightarrow> hist \<Rightarrow> (int \<times> isp_ctx \<times> hist) option" where
  "isp_hw_init k ctx width height h =
     (let (r, ctx, h) = isp_mmap k ctx width height h in
      if r < 0 then Some (- 1, ctx, h)
      else
        let (chip, h) = peek k (ctx_regs ctx) 0 h in
        if chip \<noteq> 0x5A542093 then
          let (again, h) = peek k (ctx_regs ctx) 0 h
          in Some (- 1, ctx, sys_h k (Print (''ISP chip ID mismatch: 0x'' @ hex_fixed_upper 8 (unat again) @ [LF])) h)
        else
          let h = isp_reset k ctx h;
              h = isp_ispp_init k ctx h;
              h = isp_ispf_init k ctx h
          in case isp_set_pic_size k ctx h of None \<Rightarrow> None
             | Some h \<Rightarrow> Some (0, ctx, isp_apply_module_bypass k ctx h))"

definition isp_start_processing :: "kernel \<Rightarrow> isp_ctx \<Rightarrow> hist \<Rightarrow> hist" where
  "isp_start_processing k ctx h = isp_pkg_enable k ctx h"

definition isp_cleanup :: "kernel \<Rightarrow> isp_ctx \<Rightarrow> hist \<Rightarrow> isp_ctx \<times> hist" where
  "isp_cleanup k ctx h =
     (let (ctx, h) = (if ctx_regs ctx \<noteq> 0
                      then (ctx\<lparr>ctx_regs := 0\<rparr>, sys_h k (Munmap (ctx_regs ctx) ISP_REG_SIZE) h) else (ctx, h))
      in if 0 \<le> mem_fd ctx then (ctx\<lparr>mem_fd := - 1\<rparr>, sys_h k (Close (mem_fd ctx)) h) else (ctx, h))"

end
