(* ===== verification/Isp_Props.thy ===== *)
theory Isp_Props
  imports Isp_Init
begin

text \<open>
  What the bring-up of the image signal processor does: the accesses stay inside the mapping, the
  registers end up at a closed image in which no table is overwritten, and the mapping and its
  descriptor are released, with one exception.
\<close>

section \<open>Accesses\<close>

lemma calls_poke_all [simp]: "calls (poke_all k b ws h) = calls h @ map (\<lambda>(off, v). Poke b off v) ws"
  by (induction ws arbitrary: h) (auto simp: os_simps)

lemma live_poke_all [simp]: "live (poke_all k b ws h) f = live h f"
  by (induction ws arbitrary: h) auto

lemma peek_calls: "peek k b off h = (v, h') \<Longrightarrow> calls h' = calls h @ [Peek b off] \<and> (\<forall>f. live h' f = live h f)"
  by (auto simp: peek_def sys_def)

lemma modify_calls: "\<exists>v. calls (modify k b off g h) = calls h @ [Peek b off, Poke b off v] \<and> (\<forall>f. live (modify k b off g h) f = live h f)"
  by (simp add: modify_def peek_def sys_def os_simps)

text \<open>An access to a register is one to an aligned word of the mapping.\<close>

definition access_ok :: "int \<Rightarrow> syscall \<Rightarrow> bool" where
  "access_ok b c =
     (case c of
        Peek b' off \<Rightarrow> b' = b \<and> off mod 4 = 0 \<and> off + 4 \<le> unat ISP_REG_SIZE
      | Poke b' off v \<Rightarrow> b' = b \<and> off mod 4 = 0 \<and> off + 4 \<le> unat ISP_REG_SIZE
      | Fetch b' off n \<Rightarrow> False
      | _ \<Rightarrow> True)"

definition offs_ok :: "(nat \<times> u32) list \<Rightarrow> bool" where
  "offs_ok ws \<longleftrightarrow> (\<forall>p \<in> set ws. fst p mod 4 = 0 \<and> fst p + 4 \<le> 0x3240)"

lemma offs_ok_simps [simp]:
  "offs_ok []" "offs_ok ((o1, v) # ws) \<longleftrightarrow> o1 mod 4 = 0 \<and> o1 + 4 \<le> 0x3240 \<and> offs_ok ws"
  "offs_ok (ws @ ws') \<longleftrightarrow> offs_ok ws \<and> offs_ok ws'"
  by (auto simp: offs_ok_def)

lemma offs_ok_map: "(\<And>i. i < n \<Longrightarrow> g i mod 4 = 0 \<and> g i + 4 \<le> 0x3240) \<Longrightarrow> offs_ok (map (\<lambda>i. (g i, v i)) [0..<n])"
  by (auto simp: offs_ok_def)

lemma offs_ok_tables:
  "offs_ok lsc_zeros" "offs_ok cnr_writes" "offs_ok klcurve_writes" "offs_ok gamma_writes"
proof -
  show "offs_ok lsc_zeros" "offs_ok cnr_writes" "offs_ok klcurve_writes"
    unfolding lsc_zeros_def cnr_writes_def klcurve_writes_def by (rule offs_ok_map; simp add: mod_simps; presburger)+
  show "offs_ok gamma_writes"
    unfolding gamma_writes_def offs_ok_def by (auto simp: Let_def mod_simps)
qed

lemma offs_ok_lists:
  "offs_ok ispp_writes" "offs_ok ispf_writes" "offs_ok (size_writes w h)" "offs_ok (stride_writes w)"
  "offs_ok (lsc_writes x y)" "offs_ok (drc_writes0 a)" "offs_ok (drc_writes1 a)"
  by (simp_all add: ispp_writes_def ispf_writes_def ispf_writes1_def ispf_writes2_def size_writes_def stride_writes_def lsc_writes_def
      drc_writes0_def drc_writes1_def Let_def)

text \<open>All calls a function adds are accesses of that kind, and it opens and closes nothing.\<close>

definition inside :: "int \<Rightarrow> hist \<Rightarrow> hist \<Rightarrow> bool" where
  "inside b h h' \<longleftrightarrow> (\<exists>cs. calls h' = calls h @ cs \<and> list_all (access_ok b) cs) \<and> (\<forall>f. live h' f = live h f)"

lemma inside_refl: "inside b h h"
  by (simp add: inside_def)

lemma inside_trans: "inside b h h' \<Longrightarrow> inside b h' h'' \<Longrightarrow> inside b h h''"
  by (force simp: inside_def)

lemma inside_poke_all: "offs_ok ws \<Longrightarrow> inside b h (poke_all k b ws h)"
  by (auto simp: inside_def offs_ok_def list_all_iff access_ok_def ISP_REG_SIZE_def)

lemma inside_modify: "off mod 4 = 0 \<Longrightarrow> off + 4 \<le> 0x3240 \<Longrightarrow> inside b h (modify k b off g h)"
  using modify_calls [of k b off g h] by (auto simp: inside_def access_ok_def ISP_REG_SIZE_def)

lemma inside_peek: "peek k b off h = (v, h') \<Longrightarrow> off mod 4 = 0 \<Longrightarrow> off + 4 \<le> 0x3240 \<Longrightarrow> inside b h h'"
  using peek_calls [of k b off h v h'] by (auto simp: inside_def access_ok_def ISP_REG_SIZE_def)

lemma inside_usleep: "inside b h (sys_h k (Usleep n) h)"
  by (simp add: inside_def os_simps access_ok_def)

lemmas inside_steps = inside_poke_all inside_modify inside_usleep offs_ok_tables offs_ok_lists

lemma inside_reset: "inside (ctx_regs ctx) h (isp_reset k ctx h)"
  unfolding isp_reset_def Let_def by (rule inside_trans [OF inside_trans [OF inside_modify inside_modify] inside_usleep]) simp_all

lemma inside_ispp: "inside (ctx_regs ctx) h (isp_ispp_init k ctx h)"
  unfolding isp_ispp_init_def by (auto intro!: inside_trans [OF inside_poke_all inside_poke_all] inside_steps)

lemma inside_ispf: "inside (ctx_regs ctx) h (isp_ispf_init k ctx h)"
  unfolding isp_ispf_init_def Let_def
  by (rule inside_trans [OF inside_trans [OF inside_trans [OF inside_poke_all inside_modify] inside_poke_all] inside_poke_all])
    (simp_all add: inside_steps)

lemma inside_lsc: "inside (ctx_regs ctx) h (isp_set_lsc_tab k ctx w hh h)"
  unfolding isp_set_lsc_tab_def Let_def by (auto intro!: inside_trans [OF inside_poke_all inside_poke_all] inside_steps)

lemma inside_drc: "isp_set_nr3d_drc_win k ctx w hh h = Some h' \<Longrightarrow> inside (ctx_regs ctx) h h'"
  unfolding isp_set_nr3d_drc_win_def Let_def
  by (auto intro!: inside_trans [OF inside_poke_all inside_poke_all] inside_steps split: option.splits)

lemma inside_pic_size: "isp_set_pic_size k ctx h = Some h' \<Longrightarrow> inside (ctx_regs ctx) h h'"
proof -
  assume e: "isp_set_pic_size k ctx h = Some h'"
  define b where "b = ctx_regs ctx"
  define h1 where "h1 = poke_all k b (stride_writes (ctx_width ctx)) (modify k b 0x4e0 (grid_value (ctx_width ctx) (ctx_height ctx))
      (poke_all k b (size_writes (ctx_width ctx) (ctx_height ctx)) h))"
  define h2 where "h2 = isp_set_lsc_tab k ctx (ctx_width ctx) (ctx_height ctx) h1"
  have 1: "inside b h h1" unfolding h1_def
    by (rule inside_trans [OF inside_trans [OF inside_poke_all inside_modify] inside_poke_all]) (simp_all add: inside_steps)
  have 2: "inside b h1 h2" unfolding h2_def b_def by (rule inside_lsc)
  from e obtain h3 where 3: "isp_set_nr3d_drc_win k ctx (ctx_width ctx) (ctx_height ctx) h2 = Some h3" "h' = poke_all k b cnr_writes h3"
    by (auto simp: isp_set_pic_size_def Let_def h1_def h2_def b_def split: option.splits)
  show ?thesis unfolding 3(2) b_def [symmetric]
    by (rule inside_trans [OF inside_trans [OF inside_trans [OF 1 2] inside_drc [OF 3(1), folded b_def]] inside_poke_all [OF offs_ok_tables(2)]])
qed

text \<open>C30: Every register access of the bring-up, in whatever order the kernel and the hardware answer and also when
  it fails, is to an aligned word inside the mapped register block.\<close>
theorem isp_accesses_in_bounds:
  assumes "isp_hw_init k ctx w hh [] = Some (r, ctx', h')"
  shows "list_all (\<lambda>c. access_ok (ctx_regs ctx') c) (calls h')"
proof -
  obtain r0 c0 h0 where m: "isp_mmap k ctx w hh [] = (r0, c0, h0)" by (metis prod_cases3)
  have first: "list_all (access_ok b) (calls h0)" for b
    using m by (auto simp: isp_mmap_def sys_def os_simps access_ok_def Let_def split: if_splits)
  have "\<exists>cs. calls h' = calls h0 @ cs \<and> list_all (access_ok (ctx_regs ctx')) cs"
  proof (cases "r0 < 0")
    case True
    then show ?thesis using assms by (simp add: isp_hw_init_def m)
  next
    case False
    define b where "b = ctx_regs c0"
    obtain v h1 where p: "peek k b 0 h0 = (v, h1)" by fastforce
    have i1: "inside b h0 h1" using inside_peek [OF p] by simp
    show ?thesis
    proof (cases "v = 0x5A542093")
      case bad: False
      obtain v2 h2 where p2: "peek k b 0 h1 = (v2, h2)" by fastforce
      have i2: "inside b h0 h2" using inside_trans [OF i1 inside_peek [OF p2]] by simp
      have "ctx' = c0" "h' = sys_h k (Print (''ISP chip ID mismatch: 0x'' @ hex_fixed_upper 8 (unat v2) @ [LF])) h2"
        using assms False bad by (simp_all add: isp_hw_init_def m p p2 flip: b_def)
      then show ?thesis using i2 by (auto simp: inside_def os_simps b_def access_ok_def)
    next
      case True
      define h2 where "h2 = isp_ispf_init k c0 (isp_ispp_init k c0 (isp_reset k c0 h1))"
      from assms False True obtain h3 where 3: "isp_set_pic_size k c0 h2 = Some h3" "ctx' = c0" "h' = isp_apply_module_bypass k c0 h3"
        by (auto simp: isp_hw_init_def m p h2_def simp flip: b_def split: option.splits)
      have i2: "inside b h1 h2" unfolding h2_def b_def
        by (rule inside_trans [OF inside_trans [OF inside_reset inside_ispp] inside_ispf])
      have i4: "inside b h3 h'" unfolding 3(3) isp_apply_module_bypass_def b_def by (rule inside_modify) simp_all
      have "inside b h0 h'"
        by (rule inside_trans [OF inside_trans [OF i1 i2] inside_trans [OF inside_pic_size [OF 3(1), folded b_def] i4]])
      then show ?thesis by (auto simp: inside_def 3(2) b_def)
    qed
  qed
  then show ?thesis using first by auto
qed

section \<open>The registers as memory\<close>

definition poked :: "int \<Rightarrow> syscall \<Rightarrow> (nat \<Rightarrow> u32) \<Rightarrow> nat \<Rightarrow> u32" where
  "poked b c f = (case c of Poke b' off v \<Rightarrow> if b' = b then f(off := v) else f | _ \<Rightarrow> f)"

definition mmio :: "int \<Rightarrow> (nat \<Rightarrow> u32) \<Rightarrow> hist \<Rightarrow> nat \<Rightarrow> u32" where
  "mmio b r0 h = fold (poked b) (calls h) r0"

text \<open>
  A system in which files open, the mapping succeeds at \<open>b\<close>, and a register reads as what was
  last written to it, or as \<open>r0\<close>.
\<close>

definition isp_hardware :: "kernel \<Rightarrow> int \<Rightarrow> (nat \<Rightarrow> u32) \<Rightarrow> bool" where
  "isp_hardware k b r0 \<longleftrightarrow>
     (\<forall>h p m. 0 \<le> rv (k h (Open p m))) \<and> (\<forall>h fd n off. rv (k h (Mmap fd n off)) = b) \<and> b \<noteq> MAP_FAILED \<and>
     (\<forall>h off. rwords (k h (Peek b off)) = [mmio b r0 h off])"

abbreviation upd_all :: "(nat \<times> u32) list \<Rightarrow> (nat \<Rightarrow> u32) \<Rightarrow> nat \<Rightarrow> u32" where
  "upd_all ws f \<equiv> fold (\<lambda>(off, v) f. f(off := v)) ws f"

lemma mmio_poke_all [simp]: "mmio b r0 (poke_all k b ws h) = upd_all ws (mmio b r0 h)"
proof (induction ws arbitrary: h)
  case (Cons p ws)
  have "mmio b r0 (sys_h k (Poke b (fst p) (snd p)) h) = (mmio b r0 h)(fst p := snd p)"
    by (simp add: mmio_def os_simps poked_def)
  then show ?case using Cons.IH by (cases p) simp
qed simp

lemma mmio_usleep [simp]: "mmio b r0 (sys_h k (Usleep n) h) = mmio b r0 h"
  by (simp add: mmio_def os_simps poked_def)

lemma peek_mmio: "isp_hardware k b r0 \<Longrightarrow> \<exists>h'. peek k b off h = (mmio b r0 h off, h') \<and> mmio b r0 h' = mmio b r0 h"
  by (simp add: peek_def sys_def isp_hardware_def overlay_def mmio_def poked_def)

lemma mmio_modify: "isp_hardware k b r0 \<Longrightarrow> mmio b r0 (modify k b off g h) = (mmio b r0 h)(off := g (mmio b r0 h off))"
  using peek_mmio [of k b r0 off h] by (auto simp: modify_def os_simps mmio_def poked_def)

lemma upd_all_eq: "upd_all ws f off = (case map_of (rev ws) off of None \<Rightarrow> f off | Some v \<Rightarrow> v)"
  by (induction ws arbitrary: f) (auto simp: map_add_def split: option.splits)

lemma upd_all_other: "off \<notin> fst ` set ws \<Longrightarrow> upd_all ws f off = f off"
  by (induction ws arbitrary: f) auto

text \<open>The final image, with the two results of the window search.\<close>

definition isp_image :: "u32 \<Rightarrow> u32 \<Rightarrow> (nat \<Rightarrow> u32) \<Rightarrow> u32 list \<Rightarrow> u32 list \<Rightarrow> (nat \<times> u32) list" where
  "isp_image w h r0 a0 a1 =
     [(0x0f0, (r0 0x0f0 AND 0xFFFFFFCF) OR 0x10), (0x0f4, (r0 0x0f4 AND 0xFFFFFFFC) OR 0x02)] @ ispp_writes @ gamma_writes @
     [(0x0e0, 0x400102), (0x0e4, r0 0x0e4 OR 2)] @ ispf_writes @ klcurve_writes @ size_writes w h @
     [(0x4e0, grid_value w h (r0 0x4e0))] @ stride_writes w @ lsc_zeros @ lsc_writes (drop_bit 5 w) (drop_bit 5 h) @
     drc_writes0 a0 @ drc_writes1 a1 @ cnr_writes @ [(0x02c, r0 0x02c OR 0x400)]"

text \<open>Where the tables lie.\<close>

lemma gamma_range: "fst ` set gamma_writes \<subseteq> {0x1a40..<0x1f40}"
  by (auto simp: gamma_writes_def Let_def)

lemma klcurve_range: "fst ` set klcurve_writes \<subseteq> {0x690..<0x894}"
  by (auto simp: klcurve_writes_def)

lemma lsc_range: "fst ` set lsc_zeros \<subseteq> {0x1590..<0x1a40}"
  by (auto simp: lsc_zeros_def)

lemma cnr_range: "fst ` set cnr_writes \<subseteq> {0xb4c..<0xc2c}"
  by (auto simp: cnr_writes_def)

lemma upd_all_range: "fst ` set ws \<subseteq> I \<Longrightarrow> off \<notin> I \<Longrightarrow> upd_all ws f off = f off"
  by (rule upd_all_other) blast

lemmas table_skips = gamma_range [THEN upd_all_range] klcurve_range [THEN upd_all_range]
  lsc_range [THEN upd_all_range] cnr_range [THEN upd_all_range]

text \<open>A straight list leaves a register alone that it does not name.\<close>

lemma upd_list_other: "list_all (\<lambda>p. fst p \<noteq> off) ws \<Longrightarrow> upd_all ws f off = f off"
  by (rule upd_all_other) (auto simp: list_all_iff)

lemma straight_skips:
  "upd_all ispp_writes f 0x0e4 = f 0x0e4" "upd_all ispp_writes f 0x4e0 = f 0x4e0" "upd_all ispp_writes f 0x02c = f 0x02c"
  "upd_all ispf_writes f 0x4e0 = f 0x4e0" "upd_all ispf_writes f 0x02c = f 0x02c"
  "upd_all (size_writes w h) f 0x4e0 = f 0x4e0" "upd_all (size_writes w h) f 0x02c = f 0x02c"
  "upd_all (stride_writes w) f 0x02c = f 0x02c" "upd_all (lsc_writes x y) f 0x02c = f 0x02c"
  "upd_all (drc_writes0 a) f 0x02c = f 0x02c" "upd_all (drc_writes1 a) f 0x02c = f 0x02c"
  by (rule upd_list_other; simp add: ispp_writes_def ispf_writes_def ispf_writes1_def ispf_writes2_def size_writes_def stride_writes_def lsc_writes_def
      drc_writes0_def drc_writes1_def Let_def)+

text \<open>The two passes of the search on the sizes the file uses.\<close>

lemma stat_passes:
  assumes "64 \<le> unat w" "unat w \<le> 8192" "64 \<le> unat h" "unat h \<le> 8192"
  shows "\<exists>a0 a1. isp_set_stat_param ((replicate 21 0)[18 := h, 19 := w, 20 := 0]) = Some a0 \<and>
     isp_set_stat_param (a0[20 := 1]) = Some a1"
proof -
  have "length ((replicate 21 (0 :: u32))[18 := h, 19 := w, 20 := 0]) = 21" by simp
  from stat_search [OF this] assms obtain a0 where a0: "isp_set_stat_param ((replicate 21 0)[18 := h, 19 := w, 20 := 0]) = Some a0"
    "length a0 = 21" "a0 ! 18 = h" "a0 ! 19 = w" by auto
  from stat_search [of "a0[20 := 1]"] a0 assms show ?thesis by auto
qed

lemma hw_init_image:
  assumes hw: "isp_hardware k b r0" and chip: "r0 0 = 0x5A542093"
    and sz: "64 \<le> unat w" "unat w \<le> 8192" "64 \<le> unat hh" "unat hh \<le> 8192"
  shows "\<exists>ctx' h' a0 a1. isp_hw_init k ctx w hh [] = Some (0, ctx', h') \<and>
     isp_set_stat_param ((replicate 21 0)[18 := hh, 19 := w, 20 := 0]) = Some a0 \<and> isp_set_stat_param (a0[20 := 1]) = Some a1 \<and>
     ctx_regs ctx' = b \<and> 0 \<le> mem_fd ctx' \<and> mmio b r0 h' = upd_all (isp_image w hh r0 a0 a1) r0"
proof -
  obtain a0 a1 where a: "isp_set_stat_param ((replicate 21 0)[18 := hh, 19 := w, 20 := 0]) = Some a0"
    "isp_set_stat_param (a0[20 := 1]) = Some a1" using stat_passes [OF sz] by blast
  define fd where "fd = rv (k [] (Open ''/dev/mem'' O_RDWR_SYNC))"
  define c0 where "c0 = ctx\<lparr>ctx_width := w, ctx_height := hh, mem_fd := fd, ctx_regs := b\<rparr>"
  have fd: "0 \<le> fd" "b \<noteq> MAP_FAILED" using hw by (simp_all add: isp_hardware_def fd_def)
  obtain h0 where m: "isp_mmap k ctx w hh [] = (0, c0, h0)" "mmio b r0 h0 = r0"
    using fd hw by (simp add: isp_mmap_def sys_def isp_hardware_def c0_def mmio_def poked_def Let_def flip: fd_def)
  have c0: "ctx_regs c0 = b" "ctx_width c0 = w" "ctx_height c0 = hh" by (simp_all add: c0_def)
  obtain h1 where p: "peek k b 0 h0 = (0x5A542093, h1)" "mmio b r0 h1 = r0"
    using peek_mmio [OF hw, of 0 h0] m(2) chip by auto
  define f1 where "f1 = upd_all [(0x0f0, (r0 0x0f0 AND 0xFFFFFFCF) OR 0x10), (0x0f4, (r0 0x0f4 AND 0xFFFFFFFC) OR 0x02)] r0"
  define f2 where "f2 = upd_all gamma_writes (upd_all ispp_writes f1)"
  define f3 where "f3 = upd_all klcurve_writes (upd_all ispf_writes (upd_all [(0x0e0, 0x400102), (0x0e4, r0 0x0e4 OR 2)] f2))"
  define f4 where "f4 = upd_all (stride_writes w) (upd_all (size_writes w hh @ [(0x4e0, grid_value w hh (r0 0x4e0))]) f3)"
  define f5 where "f5 = upd_all (lsc_writes (drop_bit 5 w) (drop_bit 5 hh)) (upd_all lsc_zeros f4)"
  define f6 where "f6 = upd_all cnr_writes (upd_all (drc_writes1 a1) (upd_all (drc_writes0 a0) f5))"
  have e4: "f2 0x0e4 = r0 0x0e4" "f2 0x4e0 = r0 0x4e0" "f2 0x02c = r0 0x02c"
    by (simp_all add: f2_def f1_def table_skips straight_skips)
  have e5: "upd_all (size_writes w hh) f3 0x4e0 = r0 0x4e0" "f3 0x02c = r0 0x02c"
    by (simp_all add: f3_def table_skips straight_skips e4)
  have e6: "f6 0x02c = r0 0x02c"
    by (simp add: f6_def f5_def f4_def table_skips straight_skips e5)
  have 1: "mmio b r0 (isp_reset k c0 h1) = f1"
    by (simp add: isp_reset_def Let_def mmio_modify [OF hw] c0 p(2) f1_def)
  have 2: "mmio b r0 (isp_ispp_init k c0 (isp_reset k c0 h1)) = f2"
    by (simp add: isp_ispp_init_def c0 1 f2_def)
  define h3 where "h3 = isp_ispf_init k c0 (isp_ispp_init k c0 (isp_reset k c0 h1))"
  have 3: "mmio b r0 h3 = f3"
    unfolding h3_def isp_ispf_init_def Let_def c0 mmio_poke_all mmio_modify [OF hw] 2
    by (simp add: f3_def e4)
  define h4 where "h4 = poke_all k b (stride_writes w) (modify k b 0x4e0 (grid_value w hh) (poke_all k b (size_writes w hh) h3))"
  have 4: "mmio b r0 h4 = f4"
    unfolding h4_def mmio_poke_all mmio_modify [OF hw] 3 by (simp add: f4_def e5)
  define h5 where "h5 = isp_set_lsc_tab k c0 w hh h4"
  have 5: "mmio b r0 h5 = f5" by (simp add: h5_def isp_set_lsc_tab_def c0 4 f5_def Let_def)
  define h6 where "h6 = poke_all k b cnr_writes (poke_all k b (drc_writes1 a1) (poke_all k b (drc_writes0 a0) h5))"
  have pic: "isp_set_pic_size k c0 h3 = Some h6"
    using a by (simp add: isp_set_pic_size_def isp_set_nr3d_drc_win_def c0 Let_def h6_def h5_def h4_def)
  have 6: "mmio b r0 h6 = f6" by (simp add: h6_def 5 f6_def)
  have 7: "mmio b r0 (isp_apply_module_bypass k c0 h6) = f6(0x02c := r0 0x02c OR 0x400)"
    by (simp add: isp_apply_module_bypass_def mmio_modify [OF hw] c0 6 e6)
  have "isp_hw_init k ctx w hh [] = Some (0, c0, isp_apply_module_bypass k c0 h6)"
    by (simp add: isp_hw_init_def m p c0 pic flip: h3_def)
  moreover have "upd_all (isp_image w hh r0 a0 a1) r0 = f6(0x02c := r0 0x02c OR 0x400)"
    by (simp add: isp_image_def f6_def f5_def f4_def f3_def f2_def f1_def)
  ultimately show ?thesis using a c0 fd 7 by (intro exI [of _ c0] exI [of _ "isp_apply_module_bypass k c0 h6"]) (simp add: c0_def)
qed

section \<open>The tables survive\<close>

text \<open>A table written at consecutive words is found there.\<close>

lemma upd_table:
  "i < n \<Longrightarrow> upd_all (map (\<lambda>i. (base + 4 * i, v i)) [0..<n]) f (base + 4 * i) = v i"
  by (induction n) (auto simp: less_Suc_eq)

lemma upd_gamma:
  assumes "i < 80"
  shows "upd_all gamma_writes f (0x1e00 + 4 * i) = ISP_GAMMA_TABLE ! i \<and>
     upd_all gamma_writes f (0x1a40 + 4 * i) = push_bit 2 (ISP_GAMMA_TABLE ! i) \<and>
     upd_all gamma_writes f (0x1b80 + 4 * i) = push_bit 2 (ISP_GAMMA_TABLE ! i) \<and>
     upd_all gamma_writes f (0x1cc0 + 4 * i) = push_bit 2 (ISP_GAMMA_TABLE ! i)"
proof -
  define G where "G n = concat (map (\<lambda>i. let raw = ISP_GAMMA_TABLE ! i; shifted = push_bit 2 raw
       in [(0x1a40 + 4 * i, shifted), (0x1b80 + 4 * i, shifted), (0x1cc0 + 4 * i, shifted), (0x1e00 + 4 * i, raw)]) [0..<n])" for n
  have "i < n \<Longrightarrow> n \<le> 80 \<Longrightarrow> upd_all (G n) f (0x1e00 + 4 * i) = ISP_GAMMA_TABLE ! i \<and>
     upd_all (G n) f (0x1a40 + 4 * i) = push_bit 2 (ISP_GAMMA_TABLE ! i) \<and>
     upd_all (G n) f (0x1b80 + 4 * i) = push_bit 2 (ISP_GAMMA_TABLE ! i) \<and>
     upd_all (G n) f (0x1cc0 + 4 * i) = push_bit 2 (ISP_GAMMA_TABLE ! i)" for n
  proof (induction n)
    case (Suc n)
    have s: "G (Suc n) = G n @ [(0x1a40 + 4 * n, push_bit 2 (ISP_GAMMA_TABLE ! n)), (0x1b80 + 4 * n, push_bit 2 (ISP_GAMMA_TABLE ! n)),
        (0x1cc0 + 4 * n, push_bit 2 (ISP_GAMMA_TABLE ! n)), (0x1e00 + 4 * n, ISP_GAMMA_TABLE ! n)]" by (simp add: G_def Let_def)
    have ne: "(0x1e00 :: nat) + 4 * i \<noteq> 0x1a40 + 4 * n" "(0x1e00 :: nat) + 4 * i \<noteq> 0x1b80 + 4 * n" "(0x1e00 :: nat) + 4 * i \<noteq> 0x1cc0 + 4 * n"
      "(0x1cc0 :: nat) + 4 * i \<noteq> 0x1a40 + 4 * n" "(0x1cc0 :: nat) + 4 * i \<noteq> 0x1b80 + 4 * n" "(0x1cc0 :: nat) + 4 * i \<noteq> 0x1e00 + 4 * n"
      "(0x1b80 :: nat) + 4 * i \<noteq> 0x1a40 + 4 * n" "(0x1b80 :: nat) + 4 * i \<noteq> 0x1cc0 + 4 * n" "(0x1b80 :: nat) + 4 * i \<noteq> 0x1e00 + 4 * n"
      "(0x1a40 :: nat) + 4 * i \<noteq> 0x1b80 + 4 * n" "(0x1a40 :: nat) + 4 * i \<noteq> 0x1cc0 + 4 * n" "(0x1a40 :: nat) + 4 * i \<noteq> 0x1e00 + 4 * n"
      using Suc.prems assms by linarith+
    show ?case
    proof (cases "i = n")
      case True
      then show ?thesis using ne unfolding s by simp
    next
      case False
      then show ?thesis using ne Suc unfolding s by simp
    qed
  qed simp
  from this [of 80] assms show ?thesis by (simp add: G_def gamma_writes_def)
qed

definition avoids :: "nat \<Rightarrow> nat \<Rightarrow> (nat \<times> u32) list \<Rightarrow> bool" where
  "avoids lo hi ws \<longleftrightarrow> list_all (\<lambda>p. fst p < lo \<or> hi \<le> fst p) ws"

lemma avoids_upd: "avoids lo hi ws \<Longrightarrow> lo \<le> off \<Longrightarrow> off < hi \<Longrightarrow> upd_all ws f off = f off"
  by (rule upd_all_other) (auto simp: avoids_def list_all_iff)

lemma avoids_range: "fst ` set ws \<subseteq> {a..<b} \<Longrightarrow> b \<le> lo \<or> hi \<le> a \<Longrightarrow> avoids lo hi ws"
  by (force simp: avoids_def list_all_iff)

lemma avoids_append: "avoids lo hi (ws @ ws') \<longleftrightarrow> avoids lo hi ws \<and> avoids lo hi ws'"
  by (simp add: avoids_def)

lemma avoids_gamma:
  "avoids 0x1a40 0x1f40 ispf_writes" "avoids 0x1a40 0x1f40 (size_writes w h)" "avoids 0x1a40 0x1f40 (stride_writes w)"
  "avoids 0x1a40 0x1f40 (lsc_writes x y)" "avoids 0x1a40 0x1f40 (drc_writes0 a)" "avoids 0x1a40 0x1f40 (drc_writes1 a)"
  "avoids 0x1a40 0x1f40 klcurve_writes" "avoids 0x1a40 0x1f40 lsc_zeros" "avoids 0x1a40 0x1f40 cnr_writes"
  by (simp_all add: avoids_def ispf_writes_def ispf_writes1_def ispf_writes2_def size_writes_def stride_writes_def lsc_writes_def drc_writes0_def drc_writes1_def Let_def
      avoids_range [OF klcurve_range, unfolded avoids_def] avoids_range [OF lsc_range, unfolded avoids_def]
      avoids_range [OF cnr_range, unfolded avoids_def])

lemma avoids_klcurve:
  "avoids 0x690 0x894 (size_writes w h)" "avoids 0x690 0x894 (stride_writes w)"
  "avoids 0x690 0x894 (lsc_writes x y)" "avoids 0x690 0x894 (drc_writes0 a)" "avoids 0x690 0x894 (drc_writes1 a)"
  "avoids 0x690 0x894 lsc_zeros" "avoids 0x690 0x894 cnr_writes"
  by (simp_all add: avoids_def size_writes_def stride_writes_def lsc_writes_def drc_writes0_def drc_writes1_def Let_def
      avoids_range [OF lsc_range, unfolded avoids_def] avoids_range [OF cnr_range, unfolded avoids_def])

lemma avoids_single: "avoids lo hi [(o1, v)] \<longleftrightarrow> o1 < lo \<or> hi \<le> o1"
  by (simp add: avoids_def)

text \<open>Everything after a table, seen from the table.\<close>

lemma image_gamma:
  assumes "0x1a40 \<le> off" and "off < 0x1f40"
  shows "\<exists>f. upd_all (isp_image w h r0 a0 a1) r0 off = upd_all gamma_writes f off"
proof -
  define tail where "tail = [(0x0e0, 0x400102), (0x0e4, r0 0x0e4 OR 2)] @ ispf_writes @ klcurve_writes @ size_writes w h @
     [(0x4e0, grid_value w h (r0 0x4e0))] @ stride_writes w @ lsc_zeros @ lsc_writes (drop_bit 5 w) (drop_bit 5 h) @
     drc_writes0 a0 @ drc_writes1 a1 @ cnr_writes @ [(0x02c, r0 0x02c OR 0x400)]"
  have "avoids 0x1a40 0x1f40 [(0x0e0, 0x400102), (0x0e4, r0 0x0e4 OR 2)]" by (simp add: avoids_def)
  then have "avoids 0x1a40 0x1f40 tail" unfolding tail_def avoids_append by (simp add: avoids_gamma avoids_single)
  from avoids_upd [OF this assms] show ?thesis
    unfolding isp_image_def tail_def [symmetric] fold_append comp_apply by blast
qed

lemma image_klcurve:
  assumes "0x690 \<le> off" and "off < 0x894"
  shows "\<exists>f. upd_all (isp_image w h r0 a0 a1) r0 off = upd_all klcurve_writes f off"
proof -
  define tail where "tail = size_writes w h @
     [(0x4e0, grid_value w h (r0 0x4e0))] @ stride_writes w @ lsc_zeros @ lsc_writes (drop_bit 5 w) (drop_bit 5 h) @
     drc_writes0 a0 @ drc_writes1 a1 @ cnr_writes @ [(0x02c, r0 0x02c OR 0x400)]"
  have "avoids 0x690 0x894 tail" unfolding tail_def avoids_append by (simp add: avoids_klcurve avoids_single)
  from avoids_upd [OF this assms] show ?thesis
    unfolding isp_image_def tail_def [symmetric] fold_append comp_apply by blast
qed

lemma image_cnr:
  assumes "0xb4c \<le> off" and "off < 0xc2c"
  shows "\<exists>f. upd_all (isp_image w h r0 a0 a1) r0 off = upd_all cnr_writes f off"
proof -
  have "avoids 0xb4c 0xc2c [(0x02c, r0 0x02c OR 0x400)]" by (simp add: avoids_single)
  from avoids_upd [OF this assms] show ?thesis
    unfolding isp_image_def fold_append comp_apply by blast
qed

text \<open>C24: The bring-up succeeds on hardware with the right chip number, for every picture with sides from 64 to
  8192, and leaves a closed register image: every register holds the last value the sequence gives it,
  computed for the five read-modify-write registers from what they held before, and untouched registers keep
  their content. The tone curve is found raw in its last copy and times four in the other three, and the
  tone-mapping and noise tables are intact: nothing later in the sequence overwrites them.\<close>
theorem isp_hw_init_registers:
  assumes "isp_hardware k b r0" and "r0 0 = 0x5A542093"
    and "64 \<le> unat w" and "unat w \<le> 8192" and "64 \<le> unat hh" and "unat hh \<le> 8192"
  shows "\<exists>ctx' h' a0 a1. isp_hw_init k ctx w hh [] = Some (0, ctx', h') \<and> ctx_regs ctx' = b \<and>
     isp_set_stat_param ((replicate 21 0)[18 := hh, 19 := w, 20 := 0]) = Some a0 \<and> isp_set_stat_param (a0[20 := 1]) = Some a1 \<and>
     (\<forall>off. mmio b r0 h' off = (case map_of (rev (isp_image w hh r0 a0 a1)) off of None \<Rightarrow> r0 off | Some v \<Rightarrow> v)) \<and>
     (\<forall>i < 80. mmio b r0 h' (0x1e00 + 4 * i) = ISP_GAMMA_TABLE ! i \<and>
        (\<forall>base \<in> {0x1a40, 0x1b80, 0x1cc0}. mmio b r0 h' (base + 4 * i) = push_bit 2 (ISP_GAMMA_TABLE ! i))) \<and>
     (\<forall>i < 129. mmio b r0 h' (0x690 + 4 * i) = ISP_DRC_KLCURVE_TABLE ! i) \<and>
     (\<forall>i < 56. mmio b r0 h' (0xb4c + 4 * i) = ISP_CNR_EXP_TABLE ! i)"
proof -
  from hw_init_image [OF assms, of ctx] obtain ctx' h' a0 a1 where
    1: "isp_hw_init k ctx w hh [] = Some (0, ctx', h')" "ctx_regs ctx' = b"
       "isp_set_stat_param ((replicate 21 0)[18 := hh, 19 := w, 20 := 0]) = Some a0" "isp_set_stat_param (a0[20 := 1]) = Some a1"
    and m: "mmio b r0 h' = upd_all (isp_image w hh r0 a0 a1) r0" by blast
  have g: "mmio b r0 h' (0x1e00 + 4 * i) = ISP_GAMMA_TABLE ! i \<and>
        (\<forall>base \<in> {0x1a40, 0x1b80, 0x1cc0}. mmio b r0 h' (base + 4 * i) = push_bit 2 (ISP_GAMMA_TABLE ! i))" if i: "i < 80" for i
  proof -
    have r: "0x1a40 \<le> base + 4 * i" "base + 4 * i < 0x1f40" if "base \<in> {0x1a40, 0x1b80, 0x1cc0, 0x1e00}" for base
      using that i by auto
    from image_gamma [OF r [of "0x1e00"]] image_gamma [OF r [of "0x1a40"]] image_gamma [OF r [of "0x1b80"]] image_gamma [OF r [of "0x1cc0"]]
    show ?thesis unfolding m using upd_gamma [OF i] by fastforce
  qed
  have k: "mmio b r0 h' (0x690 + 4 * i) = ISP_DRC_KLCURVE_TABLE ! i" if i: "i < 129" for i
    using image_klcurve [of "0x690 + 4 * i" w hh r0 a0 a1] i upd_table [OF i, of "0x690" "(!) ISP_DRC_KLCURVE_TABLE"]
    unfolding m klcurve_writes_def by auto
  have c: "mmio b r0 h' (0xb4c + 4 * i) = ISP_CNR_EXP_TABLE ! i" if i: "i < 56" for i
    using image_cnr [of "0xb4c + 4 * i" w hh r0 a0 a1] i upd_table [OF i, of "0xb4c" "(!) ISP_CNR_EXP_TABLE"]
    unfolding m cnr_writes_def by auto
  have "\<forall>off. mmio b r0 h' off = (case map_of (rev (isp_image w hh r0 a0 a1)) off of None \<Rightarrow> r0 off | Some v \<Rightarrow> v)"
    unfolding m by (rule allI) (rule upd_all_eq)
  then show ?thesis using 1 g k c by blast
qed

text \<open>Hardware that remembers what is written to it.\<close>

definition isp_regs0 :: "nat \<Rightarrow> u32" where
  "isp_regs0 off = (if off = 0 then 0x5A542093 else 0)"

definition k_isp :: kernel where
  "k_isp h c =
     (case c of Open p m \<Rightarrow> ok_reply 9 | Mmap fd n off \<Rightarrow> ok_reply 0x70000000
      | Peek b off \<Rightarrow> words_reply [mmio b isp_regs0 h off] | _ \<Rightarrow> ok_reply 0)"

lemma k_isp_hardware: "isp_hardware k_isp 0x70000000 isp_regs0"
  by (simp add: isp_hardware_def k_isp_def MAP_FAILED_def)

lemma isp_hw_init_registers_witness:
  "\<exists>ctx' h'. isp_hw_init k_isp \<lparr>ctx_regs = 0, mem_fd = 0, ctx_width = 0, ctx_height = 0\<rparr> 1920 1080 [] = Some (0, ctx', h') \<and>
     (\<forall>i < 129. mmio 0x70000000 isp_regs0 h' (0x690 + 4 * i) = ISP_DRC_KLCURVE_TABLE ! i)"
  using isp_hw_init_registers [OF k_isp_hardware, of 1920 1080 "\<lparr>ctx_regs = 0, mem_fd = 0, ctx_width = 0, ctx_height = 0\<rparr>"]
  by (auto simp: isp_regs0_def)

lemma isp_accesses_in_bounds_witness:
  "\<exists>r ctx' h'. isp_hw_init k_isp \<lparr>ctx_regs = 0, mem_fd = 0, ctx_width = 0, ctx_height = 0\<rparr> 1920 1080 [] = Some (r, ctx', h') \<and>
     list_all (\<lambda>c. access_ok (ctx_regs ctx') c) (calls h')"
proof -
  obtain ctx' h' where
    e: "isp_hw_init k_isp \<lparr>ctx_regs = 0, mem_fd = 0, ctx_width = 0, ctx_height = 0\<rparr> 1920 1080 [] = Some (0, ctx', h')"
    using hw_init_image [OF k_isp_hardware, of 1920 1080 "\<lparr>ctx_regs = 0, mem_fd = 0, ctx_width = 0, ctx_height = 0\<rparr>"]
    by (auto simp: isp_regs0_def)
  from isp_accesses_in_bounds [OF e] e show ?thesis by blast
qed

section \<open>Release\<close>

text \<open>The case in which the device file opens and the mapping is refused.\<close>

definition dev_mem :: "kernel \<Rightarrow> reply" where
  "dev_mem k = k [] (Open ''/dev/mem'' O_RDWR_SYNC)"

definition mmap_refused :: "kernel \<Rightarrow> bool" where
  "mmap_refused k \<longleftrightarrow> 0 \<le> rv (dev_mem k) \<and>
     rv (k [(Open ''/dev/mem'' O_RDWR_SYNC, dev_mem k)] (Mmap (rv (dev_mem k)) ISP_REG_SIZE ISP_REG_BASE)) = MAP_FAILED"

lemma mmap_books:
  assumes "isp_mmap k ctx w hh [] = (r, c0, h0)" and "ctx_regs ctx = 0"
  shows "mem_fd c0 = rv (dev_mem k) \<and>
     (if rv (dev_mem k) < 0 then r = - 1 \<and> ctx_regs c0 = 0 \<and> (\<forall>f. live h0 f = 0)
      else if mmap_refused k then r = - 1 \<and> ctx_regs c0 = 0 \<and> (\<forall>f. live h0 f = 0)
      else r = 0 \<and> (\<forall>f. live h0 f = of_bool (f = rv (dev_mem k))))"
  using assms by (auto simp: isp_mmap_def dev_mem_def mmap_refused_def sys_def os_simps Let_def split: if_splits)

lemma hw_init_books:
  assumes "isp_hw_init k ctx w hh h = Some (r, ctx', h')" and "isp_mmap k ctx w hh h = (r0, c0, h0)"
  shows "ctx' = c0 \<and> (\<forall>f. live h' f = live h0 f) \<and> (r0 < 0 \<longrightarrow> r = - 1)"
proof (cases "r0 < 0")
  case True
  then show ?thesis using assms by (simp add: isp_hw_init_def)
next
  case False
  obtain v h1 where p: "peek k (ctx_regs c0) 0 h0 = (v, h1)" by fastforce
  obtain v2 h2 where p2: "peek k (ctx_regs c0) 0 h1 = (v2, h2)" by fastforce
  have l: "\<forall>f. live h1 f = live h0 f" "\<forall>f. live h2 f = live h1 f" using peek_calls [OF p] peek_calls [OF p2] by auto
  define h3 where "h3 = isp_ispf_init k c0 (isp_ispp_init k c0 (isp_reset k c0 h1))"
  have l3: "\<forall>f. live h3 f = live h1 f" unfolding h3_def
    using inside_ispf [of c0] inside_ispp [of c0] inside_reset [of c0] unfolding inside_def by metis
  have l4: "\<forall>f. live (isp_apply_module_bypass k c0 h4) f = live h3 f" if "isp_set_pic_size k c0 h3 = Some h4" for h4
    using inside_pic_size [OF that] modify_calls [of k "ctx_regs c0" "0x02c" _ h4]
    unfolding inside_def isp_apply_module_bypass_def by metis
  show ?thesis using assms False l l3 l4
    by (auto simp: isp_hw_init_def p p2 simp flip: h3_def split: if_splits option.splits)
qed

text \<open>C31: Release of the register mapping: whatever the kernel answers, after \<open>isp_hw_init\<close> with its result and
  \<open>isp_cleanup\<close> the pointer and the descriptor field are empty and every descriptor was closed as often as it
  was opened, so a chip mismatch, which leaves the descriptor open, is repaired by the cleanup. The one
  exception is a refused mapping: the function closes the descriptor but keeps its number, and the cleanup
  closes it a second time.\<close>
theorem isp_cleanup_releases:
  assumes "isp_hw_init k ctx w hh [] = Some (r, ctx', h')" and "ctx_regs ctx = 0"
    and "isp_cleanup k ctx' h' = (ctx'', h'')"
  shows "ctx_regs ctx'' = 0 \<and> mem_fd ctx'' < 0 \<and>
     (\<not> mmap_refused k \<longrightarrow> (\<forall>f. live h'' f = 0)) \<and>
     (mmap_refused k \<longrightarrow> r = - 1 \<and> live h'' (rv (dev_mem k)) = - 1) \<and>
     (r = - 1 \<longrightarrow> \<not> mmap_refused k \<longrightarrow> 0 \<le> rv (dev_mem k) \<longrightarrow> live h' (rv (dev_mem k)) = 1)"
proof -
  obtain r0 c0 h0 where m: "isp_mmap k ctx w hh [] = (r0, c0, h0)" by (metis prod_cases3)
  note books = mmap_books [OF m assms(2)] and hb = hw_init_books [OF assms(1) m]
  have "live h'' f = live h' f - of_bool (0 \<le> mem_fd c0 \<and> f = mem_fd c0)" for f
    using assms(3) hb by (auto simp: isp_cleanup_def Let_def split: if_splits)
  moreover have "ctx_regs ctx'' = 0 \<and> mem_fd ctx'' < 0"
    using assms(3) by (auto simp: isp_cleanup_def Let_def split: if_splits)
  ultimately show ?thesis using books hb by (auto simp: mmap_refused_def split: if_splits)
qed

definition k_no_mmap :: kernel where
  "k_no_mmap h c = (case c of Open p m \<Rightarrow> ok_reply 9 | Mmap fd n off \<Rightarrow> ok_reply (- 1) | _ \<Rightarrow> ok_reply 0)"

lemma isp_cleanup_releases_witness:
  "\<exists>ctx' h' ctx'' h''. isp_hw_init k_no_mmap \<lparr>ctx_regs = 0, mem_fd = 0, ctx_width = 0, ctx_height = 0\<rparr> 1920 1080 [] = Some (- 1, ctx', h') \<and>
     isp_cleanup k_no_mmap ctx' h' = (ctx'', h'') \<and> live h'' 9 = - 1"
proof -
  let ?c = "\<lparr>ctx_regs = 0, mem_fd = 0, ctx_width = 0, ctx_height = 0\<rparr>"
  obtain ctx' h' where e: "isp_hw_init k_no_mmap ?c 1920 1080 [] = Some (- 1, ctx', h')"
    by (simp add: isp_hw_init_def isp_mmap_def sys_def k_no_mmap_def MAP_FAILED_def)
  obtain ctx'' h'' where c: "isp_cleanup k_no_mmap ctx' h' = (ctx'', h'')" by fastforce
  have "mmap_refused k_no_mmap" "rv (dev_mem k_no_mmap) = 9" by (simp_all add: mmap_refused_def dev_mem_def k_no_mmap_def MAP_FAILED_def)
  with isp_cleanup_releases [OF e _ c] e c show ?thesis by auto
qed

end
