(* ===== verification/Sensor_Bus.thy ===== *)
theory Sensor_Bus
  imports Descriptors
begin

text \<open>
  The register interface both CV2003 drivers stand on: sixteen-bit register numbers, eight-bit
  values, one I2C transfer per access. The interface is a locale of register devices, whose client
  lemmas say what a table of writes and a read-modify-write do to the registers. The I2C sensor
  itself is not in the repository: what a history of transfers leaves in its registers is
  \<open>regfile\<close>, and that the bus answers with that content is the hypothesis \<open>sensor_acks\<close>.
\<close>

named_theorems sensor_simps \<open>effect of driver operations on the registers\<close>

section \<open>Transfers\<close>

definition I2C_TENBIT :: u32 where "I2C_TENBIT = 0x0704"
definition I2C_SLAVE :: u32 where "I2C_SLAVE = 0x0706"
definition I2C_RDWR :: u32 where "I2C_RDWR = 0x0707"
definition I2C_M_RD :: u16 where "I2C_M_RD = 1"

text \<open>\<open>O_RDWR | O_NONBLOCK\<close> on this target.\<close>

definition O_RDWR_NONBLOCK :: nat where "O_RDWR_NONBLOCK = 2050"

definition reg_bytes :: "u16 \<Rightarrow> u8 list" where
  "reg_bytes reg = [ucast (drop_bit 8 reg), ucast reg]"

definition write_msgs :: "u16 \<Rightarrow> u16 \<Rightarrow> u8 \<Rightarrow> i2c_msg list" where
  "write_msgs addr reg val = [\<lparr>i2c_addr = addr, i2c_flags = 0, i2c_len = 3, i2c_buf = reg_bytes reg @ [val]\<rparr>]"

definition read_msgs :: "u16 \<Rightarrow> u16 \<Rightarrow> i2c_msg list" where
  "read_msgs addr reg =
     [\<lparr>i2c_addr = addr, i2c_flags = 0, i2c_len = 2, i2c_buf = reg_bytes reg\<rparr>,
      \<lparr>i2c_addr = addr, i2c_flags = I2C_M_RD, i2c_len = 1, i2c_buf = [0]\<rparr>]"

definition reg_of :: "u8 list \<Rightarrow> u16" where
  "reg_of bs = push_bit 8 (ucast (bs ! 0)) OR ucast (bs ! 1)"

lemma reg_of_bytes [simp]: "reg_of (ucast (drop_bit 8 r) # ucast r # bs) = r"
  by (rule bit_word_eqI) (auto simp: reg_of_def bit_simps)

lemma ucast_u8_u16 [simp]: "ucast (ucast (v :: u8) :: u16) = v"
  by (rule bit_word_eqI) (auto simp: bit_simps)

section \<open>The registers behind the bus\<close>

text \<open>A transfer of one message of three bytes to the sensor's address stores a byte.\<close>

fun stored :: "u16 \<Rightarrow> syscall \<Rightarrow> (u16 \<times> u8) option" where
  "stored addr (Ioctl fd req (Arg_i2c [m])) =
     (if req = I2C_RDWR \<and> i2c_addr m = addr \<and> i2c_flags m = 0 \<and> length (i2c_buf m) = 3
      then Some (reg_of (i2c_buf m), i2c_buf m ! 2) else None)"
| "stored addr _ = None"

definition store_reg :: "(u16 \<times> u8) option \<Rightarrow> (u16 \<Rightarrow> u8) \<Rightarrow> u16 \<Rightarrow> u8" where
  "store_reg w regs = (case w of None \<Rightarrow> regs | Some (r, v) \<Rightarrow> regs(r := v))"

definition regfile :: "u16 \<Rightarrow> (u16 \<Rightarrow> u8) \<Rightarrow> hist \<Rightarrow> u16 \<Rightarrow> u8" where
  "regfile addr regs0 h = fold (\<lambda>c. store_reg (stored addr c)) (calls h) regs0"

lemma regfile_append [simp]: "regfile addr regs0 (h @ h') = regfile addr (regfile addr regs0 h) h'"
  by (simp add: regfile_def)

lemma regfile_Cons [simp]: "regfile addr regs0 (p # h) = regfile addr (store_reg (stored addr (fst p)) regs0) h"
  by (simp add: regfile_def)

lemma regfile_Nil [simp]: "regfile addr regs0 [] = regs0"
  by (simp add: regfile_def)

lemma regfile_sys_h [simp]: "regfile addr regs0 (sys_h k c h) = store_reg (stored addr c) (regfile addr regs0 h)"
  by (simp add: os_simps)

lemma store_reg_simps [simp]: "store_reg None regs = regs" "store_reg (Some (r, v)) regs = regs(r := v)"
  by (simp_all add: store_reg_def)

lemma stored_write [simp]:
  "stored addr (Ioctl fd I2C_RDWR (Arg_i2c (write_msgs addr reg val))) = Some (reg, val)"
  by (simp add: write_msgs_def reg_bytes_def)

lemma stored_read [simp]: "stored a (Ioctl fd req (Arg_i2c (read_msgs addr reg))) = None"
  by (simp add: read_msgs_def)

lemma stored_write_other: "a \<noteq> addr \<Longrightarrow> stored a (Ioctl fd req (Arg_i2c (write_msgs addr reg val))) = None"
  by (simp add: write_msgs_def)

text \<open>
  A bus on which a sensor answers at \<open>addr\<close>: transfers to it succeed, and a read returns the byte
  its register holds after the transfers so far.
\<close>

definition sensor_acks :: "kernel \<Rightarrow> u16 \<Rightarrow> (u16 \<Rightarrow> u8) \<Rightarrow> bool" where
  "sensor_acks k addr regs0 \<longleftrightarrow>
     (\<forall>h fd reg val. 0 \<le> rv (k h (Ioctl fd I2C_RDWR (Arg_i2c (write_msgs addr reg val))))) \<and>
     (\<forall>h fd reg. let r = k h (Ioctl fd I2C_RDWR (Arg_i2c (read_msgs addr reg))) in
        0 \<le> rv r \<and> rbytes r = [regfile addr regs0 h reg])"

text \<open>No sensor answers at \<open>addr\<close>.\<close>

definition sensor_absent :: "kernel \<Rightarrow> u16 \<Rightarrow> bool" where
  "sensor_absent k addr \<longleftrightarrow>
     (\<forall>h fd ms. ms \<noteq> [] \<longrightarrow> i2c_addr (hd ms) = addr \<longrightarrow> rv (k h (Ioctl fd I2C_RDWR (Arg_i2c ms))) < 0)"

text \<open>A concrete bus with one sensor; files open as descriptor 5 and everything else succeeds.\<close>

definition k_sensor :: "u16 \<Rightarrow> (u16 \<Rightarrow> u8) \<Rightarrow> kernel" where
  "k_sensor addr regs0 h c =
     (case c of
        Open p m \<Rightarrow> ok_reply 5
      | Ioctl fd req (Arg_i2c (m # ms)) \<Rightarrow>
          if i2c_addr m \<noteq> addr then ok_reply (- 1)
          else if ms = [] then ok_reply 1
          else (ok_reply 2)\<lparr>rbytes := [regfile addr regs0 h (reg_of (i2c_buf m))]\<rparr>
      | _ \<Rightarrow> ok_reply 0)"

lemma k_sensor_acks: "sensor_acks (k_sensor addr regs0) addr regs0"
  by (simp add: sensor_acks_def k_sensor_def write_msgs_def read_msgs_def reg_bytes_def Let_def)

lemma k_sensor_absent: "a \<noteq> addr \<Longrightarrow> sensor_absent (k_sensor addr regs0) a"
  by (auto simp: sensor_absent_def k_sensor_def neq_Nil_conv)

section \<open>Values spread over byte registers\<close>

text \<open>The blanking value of the exposure registers, and a little-endian pair of registers.\<close>

definition exposure_regs :: "(u16 \<Rightarrow> u8) \<Rightarrow> nat" where
  "exposure_regs R = unat (R 0x304a) * 65536 + unat (R 0x3049) * 256 + unat (R 0x3048)"

definition pair_regs :: "(u16 \<Rightarrow> u8) \<Rightarrow> u16 \<Rightarrow> nat" where
  "pair_regs R lo = unat (R (lo + 1)) * 256 + unat (R lo)"

lemma three_bytes:
  assumes "unat (v :: u32) < 2 ^ 24"
  shows "unat (ucast (drop_bit 16 v) :: u8) * 65536 + unat (ucast (drop_bit 8 v) :: u8) * 256 + unat (ucast v :: u8) = unat v"
proof -
  have p: "(2 :: nat) ^ 16 = 65536" "(2 :: nat) ^ 8 = 256" by simp_all
  show ?thesis unfolding unat_low_byte unat_drop_bit_u32 p by (rule three_digits) (use assms in simp)
qed

section \<open>Register devices\<close>

locale register_device =
  fixes wr :: "u16 \<Rightarrow> u8 \<Rightarrow> 's \<Rightarrow> 's"
    and rd :: "u16 \<Rightarrow> 's \<Rightarrow> u16 \<times> 's"
    and regs :: "'s \<Rightarrow> u16 \<Rightarrow> u8"
    and good :: bool
  assumes wr_regs: "good \<Longrightarrow> regs (wr r v s) = (regs s)(r := v)"
    and rd_val: "good \<Longrightarrow> fst (rd r s) = ucast (regs s r)"
    and rd_regs: "good \<Longrightarrow> regs (snd (rd r s)) = regs s"
begin

definition wr_all :: "(u16 \<times> u8) list \<Rightarrow> 's \<Rightarrow> 's" where
  "wr_all t s = fold (\<lambda>(r, v). wr r v) t s"

lemma regs_wr_all: "good \<Longrightarrow> regs (wr_all t s) = fold (\<lambda>(r, v) f. f(r := v)) t (regs s)"
  unfolding wr_all_def by (induction t arbitrary: s) (auto simp: wr_regs)

text \<open>After a table of writes a register holds the last value the table gives it, or its old one.\<close>

lemma fold_upd: "fold (\<lambda>(r, v) f. f(r := v)) t f r = (case map_of (rev t) r of None \<Rightarrow> f r | Some v \<Rightarrow> v)"
  by (induction t arbitrary: f) (auto simp: map_add_def split: option.splits)

lemma wr_all_value:
  "good \<Longrightarrow> regs (wr_all t s) r = (case map_of (rev t) r of None \<Rightarrow> regs s r | Some v \<Rightarrow> v)"
  by (simp add: regs_wr_all fold_upd)

text \<open>Read, modify, write back.\<close>

lemma read_modify_write:
  "good \<Longrightarrow> rd r s = (x, s') \<Longrightarrow> regs (wr r (f x) s') = (regs s)(r := f (ucast (regs s r)))"
  using rd_val [of r s] rd_regs [of r s] by (simp add: wr_regs)

lemma write_read: "good \<Longrightarrow> fst (rd r (wr r v s)) = ucast v"
  by (simp add: rd_val wr_regs)

end

end
