(* ===== verification/Cv2003_Driver.thy ===== *)
theory Cv2003_Driver
  imports Sensor_Bus
begin

text \<open>
  \<open>sdk/lib/cv2003_driver.c\<close>: finding the CV2003 image sensor on the I2C bus, loading its
  1080p25 register table, starting the stream, and its exposure and gain registers. The file's
  static variables are the record \<open>cv2003\<close>.
\<close>

section \<open>Tables and state\<close>

definition MIPI_IOCTL_CTRL_INIT :: u32 where "MIPI_IOCTL_CTRL_INIT = 0x40036954"
definition MIPI_IOCTL_WRAP_INIT :: u32 where "MIPI_IOCTL_WRAP_INIT = 0x40066955"

definition PROBE_ADDRS_8BIT :: "u16 list" where "PROBE_ADDRS_8BIT = [0x6a, 0x6c]"

definition SENSOR_CFG_1080P25 :: "(u16 \<times> u8) list" where
  "SENSOR_CFG_1080P25 =
    [(0x3300, 0x03), (0x3422, 0xbf), (0x3401, 0x00), (0x3440, 0x01), (0x3442, 0x00), (0x3806, 0x00),
     (0x3908, 0x5f), (0x3909, 0x00), (0x3929, 0x01), (0x3158, 0x01), (0x3159, 0x01), (0x315a, 0x01),
     (0x315b, 0x01), (0x35b3, 0x15), (0x3148, 0x64), (0x3031, 0x00), (0x3118, 0x01), (0x3119, 0x06),
     (0x3670, 0x00), (0x3679, 0x02), (0x3330, 0x00), (0x320e, 0x02), (0x3804, 0x10), (0x35a1, 0x06),
     (0x35a8, 0x06), (0x35a9, 0x06), (0x35aa, 0x06), (0x35ab, 0x06), (0x35ac, 0x06), (0x35ad, 0x06),
     (0x35ae, 0x07), (0x35af, 0x07), (0x333b, 0x01), (0x3338, 0x08), (0x3339, 0x00), (0x3144, 0x20),
     (0x3030, 0x01), (0x3020, 0x8c), (0x3021, 0x0a), (0x3024, 0xd0), (0x3025, 0x02), (0x3038, 0x06),
     (0x3039, 0x00), (0x303a, 0x80), (0x303b, 0x07), (0x3034, 0x04), (0x3035, 0x00), (0x3036, 0x38),
     (0x3037, 0x04), (0x3908, 0x51), (0x390a, 0x02), (0x3000, 0x00)]"

definition TAB_SENSOR_REG_TO_GAIN :: "u16 list" where
  "TAB_SENSOR_REG_TO_GAIN =
    [0x0040, 0x0040, 0x0040, 0x0040, 0x0041, 0x0041, 0x0041, 0x0041, 0x0042, 0x0042, 0x0042, 0x0042, 0x0043, 0x0043,
     0x0043, 0x0043, 0x0044, 0x0044, 0x0044, 0x0045, 0x0045, 0x0045, 0x0046, 0x0046, 0x0046, 0x0046, 0x0047, 0x0047,
     0x0047, 0x0048, 0x0048, 0x0048, 0x0049, 0x0049, 0x0049, 0x004a, 0x004a, 0x004a, 0x004b, 0x004b, 0x004b, 0x004c,
     0x004c, 0x004c, 0x004d, 0x004d, 0x004e, 0x004e, 0x004e, 0x004f, 0x004f, 0x004f, 0x0050, 0x0050, 0x0051, 0x0051,
     0x0051, 0x0052, 0x0052, 0x0053, 0x0053, 0x0054, 0x0054, 0x0054, 0x0055, 0x0055, 0x0056, 0x0056, 0x0057, 0x0057,
     0x0058, 0x0058, 0x0059, 0x0059, 0x005a, 0x005a, 0x005b, 0x005b, 0x005c, 0x005c, 0x005d, 0x005d, 0x005e, 0x005e,
     0x005f, 0x005f, 0x0060, 0x0060, 0x0061, 0x0062, 0x0062, 0x0063, 0x0063, 0x0064, 0x0065, 0x0065, 0x0066, 0x0067,
     0x0067, 0x0068, 0x0069, 0x0069, 0x006a, 0x006b, 0x006b, 0x006c, 0x006d, 0x006d, 0x006e, 0x006f, 0x0070, 0x0071,
     0x0071, 0x0072, 0x0073, 0x0074, 0x0075, 0x0075, 0x0076, 0x0077, 0x0078, 0x0079, 0x007a, 0x007b, 0x007c, 0x007d,
     0x007e, 0x007e, 0x0080, 0x0081, 0x0082, 0x0083, 0x0084, 0x0085, 0x0086, 0x0087, 0x0088, 0x0089, 0x008a, 0x008c,
     0x008d, 0x008e, 0x008f, 0x0090, 0x0092, 0x0093, 0x0094, 0x0096, 0x0097, 0x0099, 0x009a, 0x009c, 0x009d, 0x009f,
     0x00a0, 0x00a2, 0x00a3, 0x00a5, 0x00a7, 0x00a8, 0x00aa, 0x00ac, 0x00ae, 0x00b0, 0x00b2, 0x00b4, 0x00b6, 0x00b8,
     0x00ba, 0x00bc, 0x00be, 0x00c0, 0x00c3, 0x00c5, 0x00c7, 0x00ca, 0x00cc, 0x00cf, 0x00d2, 0x00d4, 0x00d7, 0x00da,
     0x00dd, 0x00e0, 0x00e3, 0x00e6, 0x00ea, 0x00ed, 0x00f0, 0x00f4, 0x00f8, 0x00fc, 0x0100, 0x0104, 0x0108, 0x010c,
     0x0111, 0x0115, 0x011a, 0x011f, 0x0124, 0x0129, 0x012f, 0x0135, 0x013b, 0x0141, 0x0147, 0x014e, 0x0155, 0x015c,
     0x0164, 0x016c, 0x0174, 0x017c, 0x0186, 0x018f, 0x0199, 0x01a4, 0x01af, 0x01ba, 0x01c7, 0x01d4, 0x01e1, 0x01f0,
     0x0200, 0x0210, 0x0222, 0x0234, 0x0249, 0x025e, 0x0276, 0x028f, 0x02aa, 0x02c8, 0x02e8, 0x030c, 0x0333, 0x035e,
     0x038e, 0x03c3, 0x0400, 0x0444, 0x0492, 0x04ec, 0x0555, 0x05d1, 0x0666, 0x071c, 0x0800, 0xffff]"

record cv2003 =
  g_i2c_fd :: int
  g_i2c_addr :: u16
  g_v_cycle :: u32

text \<open>The static variables before any call.\<close>

definition cv2003_0 :: cv2003 where
  "cv2003_0 = \<lparr>g_i2c_fd = - 1, g_i2c_addr = 0, g_v_cycle = 0\<rparr>"

section \<open>The device\<close>

definition sensor_device_init :: "kernel \<Rightarrow> u16 \<Rightarrow> cv2003 \<Rightarrow> hist \<Rightarrow> int \<times> cv2003 \<times> hist" where
  "sensor_device_init k addr st h =
     (let (f, h) = sys k (Open ''/dev/i2c-0'' O_RDWR_NONBLOCK) h;
          st = st\<lparr>g_i2c_fd := rv f\<rparr>
      in if rv f < 0 then (- 1, st, sys_h k (Perror ''ERROR: Unable to open sensor!'') h)
         else
           let st = st\<lparr>g_i2c_addr := addr\<rparr>;
               (r, h) = ioctl_r k (rv f) I2C_TENBIT (Arg_val 0) h
           in if r < 0 then (- 1, st, sys_h k (Perror ''Error: Unable to set address mode!'') h)
              else
                let (r, h) = ioctl_r k (rv f) I2C_SLAVE (Arg_val (ucast addr)) h
                in if r < 0 then (- 1, st, sys_h k (Perror ''Error: Unable to set slave address!'') h)
                   else (0, st, h))"

definition sensor_device_close :: "kernel \<Rightarrow> cv2003 \<Rightarrow> hist \<Rightarrow> cv2003 \<times> hist" where
  "sensor_device_close k st h =
     (st\<lparr>g_i2c_fd := - 1\<rparr>, if 0 \<le> g_i2c_fd st then sys_h k (Close (g_i2c_fd st)) h else h)"

definition sns_write :: "kernel \<Rightarrow> cv2003 \<Rightarrow> u16 \<Rightarrow> u8 \<Rightarrow> hist \<Rightarrow> hist" where
  "sns_write k st reg val h =
     (let (r, h) = ioctl_r k (g_i2c_fd st) I2C_RDWR (Arg_i2c (write_msgs (g_i2c_addr st) reg val)) h
      in if r < 0 then
           sys_h k (Print (''addr: 0x'' @ hex (unat reg) @ '', data: 0x'' @ hex (unat val) @ [LF]))
             (sys_h k (Perror ''ERROR: Unable to write sensor register!'') h)
         else h)"

definition sns_read :: "kernel \<Rightarrow> cv2003 \<Rightarrow> u16 \<Rightarrow> hist \<Rightarrow> u16 \<times> hist" where
  "sns_read k st reg h =
     (let (r, h) = sys k (Ioctl (g_i2c_fd st) I2C_RDWR (Arg_i2c (read_msgs (g_i2c_addr st) reg))) h
      in if rv r < 0 then (0xFFFF, sys_h k (Perror ''ERROR: Unable to read sensor register!'') h)
         else (ucast (overlay (rbytes r) [0 :: u8] ! 0), h))"

definition is_cv2003 :: "u16 \<Rightarrow> u16 \<Rightarrow> bool" where
  "is_cv2003 pid1 pid2 \<longleftrightarrow> (pid1 = 0x02 \<or> pid1 = 0x20) \<and> pid2 = 0x03"

fun probe_loop :: "kernel \<Rightarrow> u16 list \<Rightarrow> cv2003 \<Rightarrow> hist \<Rightarrow> u16 \<times> cv2003 \<times> hist" where
  "probe_loop k [] st h = (drop_bit 1 (PROBE_ADDRS_8BIT ! 0), st, h)"
| "probe_loop k (a # as) st h =
     (let (_, st, h) = sensor_device_init k (drop_bit 1 a) st h;
          (pid1, h) = sns_read k st 0x307a h;
          (pid2, h) = sns_read k st 0x3138 h;
          h = sys_h k (Print (''addr=0x'' @ hex (unat a) @ '',pid1='' @ hex (unat pid1) @ '',pid2='' @ hex (unat pid2) @ [LF])) h;
          (st, h) = sensor_device_close k st h
      in if is_cv2003 pid1 pid2 then (drop_bit 1 a, st, h) else probe_loop k as st h)"

definition probe_addr :: "kernel \<Rightarrow> cv2003 \<Rightarrow> hist \<Rightarrow> u16 \<times> cv2003 \<times> hist" where
  "probe_addr k st h = probe_loop k PROBE_ADDRS_8BIT st h"

definition mipi_init :: "kernel \<Rightarrow> hist \<Rightarrow> int \<times> hist" where
  "mipi_init k h =
     (let (f, h) = sys k (Open ''/dev/isp'' 0) h
      in if rv f < 0 then (- 1, sys_h k (Print (''Mipi Device Init Failed!'' @ [LF])) h)
         else
           let (wrap_r, h) = ioctl_r k (rv f) MIPI_IOCTL_WRAP_INIT (Arg_bytes [0, 0, 0, 1, 0, 0]) h;
               (ctrl_r, h) = ioctl_r k (rv f) MIPI_IOCTL_CTRL_INIT (Arg_bytes [0, 9, 1]) h;
               h = sys_h k (Close (rv f)) h
           in (if wrap_r < 0 \<or> ctrl_r < 0 then - 1 else 0, h))"

section \<open>Exposure and gain\<close>

text \<open>The lines of blanking the exposure registers hold, all arithmetic modulo \<open>2 ^ 32\<close>.\<close>

definition intt_value :: "u32 \<Rightarrow> u32 \<Rightarrow> u32" where
  "intt_value v_cyc intt =
     (let v = v_cyc - intt * 2;
          v = (if v < 8 then 8 else v)
      in if v_cyc - 4 < v then v_cyc - 4 else v)"

definition set_intt :: "kernel \<Rightarrow> cv2003 \<Rightarrow> u32 \<Rightarrow> hist \<Rightarrow> hist" where
  "set_intt k st intt h =
     (let v = intt_value (g_v_cycle st) intt;
          h = sns_write k st 0x304a (ucast (drop_bit 16 v)) h;
          h = sns_write k st 0x3049 (ucast (drop_bit 8 v)) h
      in sns_write k st 0x3048 (ucast v) h)"

function gain_idx :: "u32 \<Rightarrow> nat \<Rightarrow> nat" where
  "gain_idx gain idx =
     (if idx + 1 < length TAB_SENSOR_REG_TO_GAIN \<and>
         (gain < ucast (TAB_SENSOR_REG_TO_GAIN ! idx) \<or> ucast (TAB_SENSOR_REG_TO_GAIN ! (idx + 1)) < gain)
      then gain_idx gain (idx + 1) else idx)"
  by auto
termination by (relation "measure (\<lambda>(_, idx). length TAB_SENSOR_REG_TO_GAIN - idx)") auto

declare gain_idx.simps [simp del]

definition fine_gain :: "u32 \<Rightarrow> u32" where
  "fine_gain gain =
     (if drop_bit 5 gain < 0x40 then 0x40 else if 0x3FF < drop_bit 5 gain then 0x400 else drop_bit 5 gain)"

definition set_gain :: "kernel \<Rightarrow> cv2003 \<Rightarrow> u32 \<Rightarrow> hist \<Rightarrow> hist" where
  "set_gain k st gain h =
     (let idx = gain_idx gain 0;
          reg = fine_gain gain;
          h = (if gain < 0x401 then sns_write k st 0x3804 0x10 h else h);
          h = (if 0x7FF < gain then sns_write k st 0x3804 0x15 h else h);
          h = sns_write k st 0x3154 (word_of_nat idx) h;
          h = sns_write k st 0x314d (ucast (drop_bit 8 reg)) h
      in sns_write k st 0x314c (ucast reg) h)"

section \<open>Public operations\<close>

definition cv2003_init :: "kernel \<Rightarrow> cv2003 \<Rightarrow> hist \<Rightarrow> int \<times> cv2003 \<times> hist" where
  "cv2003_init k st h =
     (let (addr, st, h) = probe_addr k st h in sensor_device_init k addr st h)"

fun write_table :: "kernel \<Rightarrow> cv2003 \<Rightarrow> (u16 \<times> u8) list \<Rightarrow> hist \<Rightarrow> hist" where
  "write_table k st [] h = h"
| "write_table k st ((r, v) # t) h = write_table k st t (sns_write k st r v h)"

definition cv2003_set_format :: "kernel \<Rightarrow> cv2003 \<Rightarrow> hist \<Rightarrow> int \<times> cv2003 \<times> hist" where
  "cv2003_set_format k st h =
     (let (st, h) = sensor_device_close k st h;
          (r, st, h) = sensor_device_init k (g_i2c_addr st) st h
      in if r < 0 then (- 1, st, h)
         else
           let (m, h) = mipi_init k h
           in if m < 0 then (- 1, st, h)
              else
                let h = write_table k st SENSOR_CFG_1080P25 h;
                    h = sys_h k (Usleep 10000) h;
                    h = sns_write k st 0x3141 0x01 h;
                    (v_hi, h) = sns_read k st 0x3021 h;
                    (v_lo, h) = sns_read k st 0x3020 h;
                    st = st\<lparr>g_v_cycle := push_bit 8 (ucast v_hi) OR ucast v_lo\<rparr>;
                    h = set_intt k st (g_v_cycle st div 2 - 5) h
                in (0, st, set_gain k st 0x40 h))"

definition cv2003_deinit :: "kernel \<Rightarrow> cv2003 \<Rightarrow> hist \<Rightarrow> cv2003 \<times> hist" where
  "cv2003_deinit k st h = sensor_device_close k st h"

section \<open>The driver's accesses are a register device\<close>

lemma sns_read_ok:
  assumes "sensor_acks k (g_i2c_addr st) regs0"
  shows "sns_read k st reg h =
     (ucast (regfile (g_i2c_addr st) regs0 h reg),
      h @ [(Ioctl (g_i2c_fd st) I2C_RDWR (Arg_i2c (read_msgs (g_i2c_addr st) reg)),
            k h (Ioctl (g_i2c_fd st) I2C_RDWR (Arg_i2c (read_msgs (g_i2c_addr st) reg))))])"
proof -
  let ?r = "k h (Ioctl (g_i2c_fd st) I2C_RDWR (Arg_i2c (read_msgs (g_i2c_addr st) reg)))"
  have "0 \<le> rv ?r" "rbytes ?r = [regfile (g_i2c_addr st) regs0 h reg]"
    using assms by (simp_all add: sensor_acks_def Let_def)
  then show ?thesis by (simp add: sns_read_def sys_def overlay_def)
qed

interpretation sns: register_device "sns_write k st" "sns_read k st" "regfile (g_i2c_addr st) regs0"
    "sensor_acks k (g_i2c_addr st) regs0" for k st regs0
proof
  fix r v h assume a: "sensor_acks k (g_i2c_addr st) regs0"
  then have "0 \<le> rv (k h (Ioctl (g_i2c_fd st) I2C_RDWR (Arg_i2c (write_msgs (g_i2c_addr st) r v))))"
    by (simp add: sensor_acks_def)
  then show "regfile (g_i2c_addr st) regs0 (sns_write k st r v h) = (regfile (g_i2c_addr st) regs0 h)(r := v)"
    by (simp add: sns_write_def ioctl_eq)
  show "fst (sns_read k st r h) = ucast (regfile (g_i2c_addr st) regs0 h r)"
    "regfile (g_i2c_addr st) regs0 (snd (sns_read k st r h)) = regfile (g_i2c_addr st) regs0 h"
    by (simp_all add: sns_read_ok [OF a])
qed

lemma write_table_all: "write_table k st t h = sns.wr_all k st t h"
  by (induction t arbitrary: h) (auto simp: sns.wr_all_def)

end
