(* ===== verification/Libcv2003_Mipi.thy ===== *)
theory Libcv2003_Mipi
  imports Sensor_Bus
begin

text \<open>
  \<open>majestic/libcv2003_mipi.c\<close>: the CV2003 sensor library the streamer loads, thirty-one
  callbacks behind a table of entries. The global variables are the record \<open>mipi_sensor\<close>. A pointer
  argument is an option, \<open>None\<close> for a null pointer; a buffer the caller passes is the list of its
  words, written in place.
\<close>

section \<open>Registers and tables\<close>

definition CV2003_DEFAULT_ADDR :: u16 where "CV2003_DEFAULT_ADDR = 0x35"
definition CV2003_ALT_ADDR :: u16 where "CV2003_ALT_ADDR = 0x36"
definition CV2003_I2C_DEV :: string where "CV2003_I2C_DEV = ''/dev/i2c-0''"

definition REG_PID1 :: u16 where "REG_PID1 = 0x307a"
definition REG_PID2 :: u16 where "REG_PID2 = 0x3138"
definition REG_STANDBY :: u16 where "REG_STANDBY = 0x3000"
definition REG_VCYC_LO :: u16 where "REG_VCYC_LO = 0x3020"
definition REG_VCYC_HI :: u16 where "REG_VCYC_HI = 0x3021"
definition REG_HCYC_LO :: u16 where "REG_HCYC_LO = 0x3024"
definition REG_HCYC_HI :: u16 where "REG_HCYC_HI = 0x3025"
definition REG_FLIP_MIRROR :: u16 where "REG_FLIP_MIRROR = 0x3028"
definition REG_PLL_DIV :: u16 where "REG_PLL_DIV = 0x3031"
definition REG_STREAM_EN :: u16 where "REG_STREAM_EN = 0x3141"
definition REG_EXP_LO :: u16 where "REG_EXP_LO = 0x3048"
definition REG_EXP_MID :: u16 where "REG_EXP_MID = 0x3049"
definition REG_EXP_HI :: u16 where "REG_EXP_HI = 0x304a"
definition REG_GAIN_IDX :: u16 where "REG_GAIN_IDX = 0x3154"
definition REG_GAIN_LO :: u16 where "REG_GAIN_LO = 0x314c"
definition REG_GAIN_HI :: u16 where "REG_GAIN_HI = 0x314d"
definition REG_GAIN_MODE :: u16 where "REG_GAIN_MODE = 0x3804"

lemmas reg_names = REG_PID1_def REG_PID2_def REG_STANDBY_def REG_VCYC_LO_def REG_VCYC_HI_def
  REG_HCYC_LO_def REG_HCYC_HI_def REG_FLIP_MIRROR_def REG_PLL_DIV_def REG_STREAM_EN_def
  REG_EXP_LO_def REG_EXP_MID_def REG_EXP_HI_def REG_GAIN_IDX_def REG_GAIN_LO_def REG_GAIN_HI_def
  REG_GAIN_MODE_def

definition regs_1080p25 :: "(u16 \<times> u16) list" where
  "regs_1080p25 =
    [(0x3300, 0x03), (0x3422, 0xbf), (0x3401, 0x00), (0x3440, 0x01), (0x3442, 0x00), (0x3806, 0x00),
     (0x3908, 0x5f), (0x3909, 0x00), (0x3929, 0x01), (0x3158, 0x01), (0x3159, 0x01), (0x315a, 0x01),
     (0x315b, 0x01), (0x35b3, 0x15), (0x3148, 0x64), (0x3031, 0x00), (0x3118, 0x01), (0x3119, 0x06),
     (0x3670, 0x00), (0x3679, 0x02), (0x3330, 0x00), (0x320e, 0x02), (0x3804, 0x10), (0x35a1, 0x06),
     (0x35a8, 0x06), (0x35a9, 0x06), (0x35aa, 0x06), (0x35ab, 0x06), (0x35ac, 0x06), (0x35ad, 0x06),
     (0x35ae, 0x07), (0x35af, 0x07), (0x333b, 0x01), (0x3338, 0x08), (0x3339, 0x00), (0x3144, 0x20),
     (0x3030, 0x01), (0x3020, 0x8c), (0x3021, 0x0a), (0x3024, 0xd0), (0x3025, 0x02), (0x3038, 0x06),
     (0x3039, 0x00), (0x303a, 0x80), (0x303b, 0x07), (0x3034, 0x04), (0x3035, 0x00), (0x3036, 0x38),
     (0x3037, 0x04), (0x3908, 0x51), (0x390a, 0x02), (0x3000, 0x00)]"

definition regs_1080p30 :: "(u16 \<times> u16) list" where
  "regs_1080p30 =
    [(0x3300, 0x03), (0x3422, 0xbf), (0x3401, 0x00), (0x3440, 0x01), (0x3442, 0x00), (0x3806, 0x00),
     (0x3908, 0x5f), (0x3909, 0x00), (0x3929, 0x01), (0x3158, 0x01), (0x3159, 0x01), (0x315a, 0x01),
     (0x315b, 0x01), (0x35b3, 0x15), (0x3148, 0x64), (0x3031, 0x00), (0x3118, 0x01), (0x3119, 0x06),
     (0x3670, 0x00), (0x3679, 0x02), (0x3330, 0x00), (0x320e, 0x02), (0x3804, 0x10), (0x35a1, 0x06),
     (0x35a8, 0x06), (0x35a9, 0x06), (0x35aa, 0x06), (0x35ab, 0x06), (0x35ac, 0x06), (0x35ad, 0x06),
     (0x35ae, 0x07), (0x35af, 0x07), (0x333b, 0x01), (0x3338, 0x08), (0x3339, 0x00), (0x3144, 0x20),
     (0x3030, 0x01), (0x3020, 0xca), (0x3021, 0x08), (0x3024, 0xd0), (0x3025, 0x02), (0x3038, 0x06),
     (0x3039, 0x00), (0x303a, 0x80), (0x303b, 0x07), (0x3034, 0x04), (0x3035, 0x00), (0x3036, 0x38),
     (0x3037, 0x04), (0x3908, 0x51), (0x390a, 0x02), (0x3000, 0x00)]"

record sensor_cfg =
  format_id :: u32
  reg_count :: u32
  cfg_regs :: "(u16 \<times> u16) list"
  cfg_width :: u16
  cfg_height :: u16
  cfg_fps :: u16
  cfg_v_cycle :: u16
  cfg_h_cycle :: u16
  mipi_lanes :: u8
  bayer_format :: u8

definition Sensor_Cfg_CV2003_MIPI_1080P25 :: sensor_cfg where
  "Sensor_Cfg_CV2003_MIPI_1080P25 = \<lparr>format_id = 0x203, reg_count = word_of_nat (length regs_1080p25),
     cfg_regs = regs_1080p25, cfg_width = 1920, cfg_height = 1080, cfg_fps = 25, cfg_v_cycle = 2700,
     cfg_h_cycle = 720, mipi_lanes = 1, bayer_format = 0x03\<rparr>"

definition Sensor_Cfg_CV2003_MIPI_1080P30 :: sensor_cfg where
  "Sensor_Cfg_CV2003_MIPI_1080P30 = \<lparr>format_id = 0x204, reg_count = word_of_nat (length regs_1080p30),
     cfg_regs = regs_1080p30, cfg_width = 1920, cfg_height = 1080, cfg_fps = 30, cfg_v_cycle = 2250,
     cfg_h_cycle = 720, mipi_lanes = 1, bayer_format = 0x03\<rparr>"

definition gain_lut :: "u16 list" where
  "gain_lut =
    [64, 68, 72, 76, 80, 84, 88, 92, 96, 100, 104, 108, 112, 116, 120, 124,
     128, 132, 136, 140, 144, 148, 152, 156, 160, 168, 176, 184, 192, 200, 208, 216,
     224, 232, 240, 248, 256, 272, 288, 304, 320, 336, 352, 368, 384, 400, 416, 432,
     448, 464, 480, 496, 512, 544, 576, 608, 640, 672, 704, 736, 768, 800, 832, 864,
     896, 928, 960, 992, 1024]"

definition GAIN_LUT_SIZE :: nat where "GAIN_LUT_SIZE = length gain_lut"

definition cv2003_name :: string where "cv2003_name = ''cv2003_mipi''"

section \<open>State\<close>

text \<open>An entry of the callback table: a null word, the name, or the address of a callback.\<close>

datatype sensor_entry =
    Null_entry | Name_entry string | Fn_GetSensorViAttr | Fn_SetSensorFlipMirror
  | Fn_GetSensorFlipMirror | Fn_SetSensorIris | Fn_Sensor_Init | Fn_SensorReset
  | Fn_Sensor_DeInit | Fn_SetSensorFmt | Fn_Sensor_Kick | Fn_SetSensorReg
  | Fn_SetExposureRatio | Fn_GetExposureRatio | Fn_GetSensorAttribute | Fn_SetLaneNumMax
  | Fn_GetSensorReg | Fn_GetSensorAwbGain | Fn_SetSensorAwbGain | Fn_SensorCommonIf
  | Fn_GetAEDefault | Fn_GetAEInfo | Fn_SetIntt | Fn_CalcSnsValidIntt
  | Fn_SetGain | Fn_CalcSnsValidGain | Fn_SetSnsFrameH | Fn_GetMirrorFlipBayerFormat
  | Fn_GetUserSensorAwbGain | Fn_GetSensorLtmCurve | Fn_Sensor_Isconnect

record mipi_sensor =
  g_fd :: int
  g_slave_addr :: u16
  g_addr_mode :: u8
  g_dev_path :: "string option"
  g_v_cycle :: u32
  g_exposure :: u32
  g_gain :: u32
  g_format :: u32
  sensor_version :: string
  AwbGain :: "u32 list"
  contrast :: u32
  saturation :: u32
  sharpness :: u32
  ImageParam :: "u32 list"
  MirrorFlipBayerFormat :: "u32 list"
  LtmMapping :: "u32 list list"
  cv2003_mipi_sensor_if :: "sensor_entry list"

definition mipi_sensor0 :: mipi_sensor where
  "mipi_sensor0 = \<lparr>g_fd = - 1, g_slave_addr = 0, g_addr_mode = 2, g_dev_path = None,
     g_v_cycle = 2700, g_exposure = 0, g_gain = 0x40, g_format = 0,
     sensor_version = ''cv2003_mipi V1.0.0'',
     AwbGain = replicate 4 0, contrast = 0, saturation = 0, sharpness = 0, ImageParam = replicate 4 0,
     MirrorFlipBayerFormat = [0x03, 0x03, 0x03, 0x03], LtmMapping = replicate 11 (replicate 128 0),
     cv2003_mipi_sensor_if = replicate 31 Null_entry\<rparr>"

section \<open>The bus\<close>

definition SensorDevice_Close :: "kernel \<Rightarrow> mipi_sensor \<Rightarrow> hist \<Rightarrow> mipi_sensor \<times> hist" where
  "SensorDevice_Close k st h =
     (if 0 \<le> g_fd st then (st\<lparr>g_fd := - 1\<rparr>, sys_h k (Close (g_fd st)) h) else (st, h))"

definition SensorDevice_Init :: "kernel \<Rightarrow> u16 \<Rightarrow> u8 \<Rightarrow> mipi_sensor \<Rightarrow> hist \<Rightarrow> int \<times> mipi_sensor \<times> hist" where
  "SensorDevice_Init k slave addr_mode st h =
     (if 0 \<le> g_fd st then (- 1, st, sys_h k (Perror ''Error: Sensor device opened !'') h)
      else
        let path = (if addr_mode < 4 then CV2003_I2C_DEV else ''/dev/spi1'');
            st = st\<lparr>g_addr_mode := addr_mode, g_slave_addr := slave, g_dev_path := Some path\<rparr>;
            (f, h) = sys k (Open path O_RDWR_NONBLOCK) h;
            st = st\<lparr>g_fd := rv f\<rparr>
        in if rv f < 0 then (- 1, st, sys_h k (Perror ''ERROR: Unable to open sensor!'') h)
           else
             let (r, h) = ioctl_r k (rv f) I2C_TENBIT (Arg_val 0) h
             in if r < 0 then (- 1, st, sys_h k (Perror ''Error: Unable to set address mode!'') h)
                else
                  let (r, h) = ioctl_r k (rv f) I2C_SLAVE (Arg_val (ucast slave)) h
                  in if r < 0 then (- 1, st, sys_h k (Perror ''Error: Unable to set slave address!'') h)
                     else (0, st, h))"

definition I2CSensor_WriteEx :: "kernel \<Rightarrow> mipi_sensor \<Rightarrow> u16 \<Rightarrow> u16 \<Rightarrow> bool \<Rightarrow> hist \<Rightarrow> hist" where
  "I2CSensor_WriteEx k st reg val suppress_err h =
     (let (ret, h) = ioctl_r k (g_fd st) I2C_RDWR (Arg_i2c (write_msgs (g_slave_addr st) reg (ucast val))) h
      in if ret < 0 \<and> \<not> suppress_err then
           sys_h k (Print (''addr: 0x'' @ hex (unat reg) @ '', data: 0x'' @ hex (unat val) @ [LF]))
             (sys_h k (Perror ''ERROR: Unable to write sensor register!'') h)
         else h)"

definition I2CSensor_Write :: "kernel \<Rightarrow> mipi_sensor \<Rightarrow> u16 \<Rightarrow> u16 \<Rightarrow> hist \<Rightarrow> hist" where
  "I2CSensor_Write k st reg val h = I2CSensor_WriteEx k st reg val False h"

text \<open>
  The array holds register and value in turn; \<open>None\<close> is a read past its end. The loop is given
  by the index and the number of iterations left.
\<close>

fun multi_loop :: "kernel \<Rightarrow> mipi_sensor \<Rightarrow> u16 list \<Rightarrow> nat \<Rightarrow> nat \<Rightarrow> bool \<Rightarrow> hist \<Rightarrow> hist option" where
  "multi_loop k st arr i 0 suppress_err h = Some h"
| "multi_loop k st arr i (Suc n) suppress_err h =
     (if i * 2 + 1 < length arr
      then multi_loop k st arr (i + 1) n suppress_err
             (I2CSensor_WriteEx k st (arr ! (i * 2)) (arr ! (i * 2 + 1)) suppress_err h)
      else None)"

definition I2CSensor_WriteEx_Multi :: "kernel \<Rightarrow> mipi_sensor \<Rightarrow> u16 list \<Rightarrow> int \<Rightarrow> bool \<Rightarrow> hist \<Rightarrow> hist option" where
  "I2CSensor_WriteEx_Multi k st arr count suppress_err h = multi_loop k st arr 0 (nat count) suppress_err h"

definition I2CSensor_Write_Multi :: "kernel \<Rightarrow> mipi_sensor \<Rightarrow> u16 list \<Rightarrow> int \<Rightarrow> hist \<Rightarrow> hist option" where
  "I2CSensor_Write_Multi k st arr count h = I2CSensor_WriteEx_Multi k st arr count False h"

definition I2CSensor_Read :: "kernel \<Rightarrow> mipi_sensor \<Rightarrow> u16 \<Rightarrow> hist \<Rightarrow> u16 \<times> hist" where
  "I2CSensor_Read k st reg h =
     (let (r, h) = sys k (Ioctl (g_fd st) I2C_RDWR (Arg_i2c (read_msgs (g_slave_addr st) reg))) h
      in if rv r < 0 then (0xFFFF, sys_h k (Perror ''ERROR: Unable to read sensor register!'') h)
         else (ucast (overlay (rbytes r) [0 :: u8] ! 0), h))"

definition Sensor_Read :: "kernel \<Rightarrow> mipi_sensor \<Rightarrow> u16 \<Rightarrow> hist \<Rightarrow> u16 \<times> hist" where
  "Sensor_Read k st reg h = I2CSensor_Read k st reg h"

definition Sensor_Write :: "kernel \<Rightarrow> mipi_sensor \<Rightarrow> u16 \<Rightarrow> u16 \<Rightarrow> hist \<Rightarrow> hist" where
  "Sensor_Write k st reg val h = I2CSensor_Write k st reg val h"

definition Sensor_Write_Multi :: "kernel \<Rightarrow> mipi_sensor \<Rightarrow> u16 list \<Rightarrow> int \<Rightarrow> hist \<Rightarrow> hist option" where
  "Sensor_Write_Multi k st arr count h = I2CSensor_Write_Multi k st arr count h"

definition Sensor_WriteEx :: "kernel \<Rightarrow> mipi_sensor \<Rightarrow> u16 \<Rightarrow> u16 \<Rightarrow> bool \<Rightarrow> hist \<Rightarrow> hist" where
  "Sensor_WriteEx k st reg val suppress h = I2CSensor_WriteEx k st reg val suppress h"

definition SPISensor_Write :: "u16 \<Rightarrow> u16 \<Rightarrow> mipi_sensor \<Rightarrow> mipi_sensor" where
  "SPISensor_Write reg val st = st"

definition SPISensor_Read :: "u16 \<Rightarrow> u16" where
  "SPISensor_Read reg = 0"

section \<open>Callbacks: picture and format\<close>

definition GetSensorViAttr :: "u32 list option \<Rightarrow> int \<times> u32 list option" where
  "GetSensorViAttr attr =
     (case attr of None \<Rightarrow> (- 1, None) | Some p \<Rightarrow> (0, Some (overlay [1920, 1080, 1, 0x203] p)))"

text \<open>Bit 0 of the mode goes to bit 1 of the register and the other way round.\<close>

definition swap_bits :: "'a::len word \<Rightarrow> 'a word" where
  "swap_bits v = push_bit 1 (v AND 1) OR (drop_bit 1 v AND 1)"

definition SetSensorFlipMirror :: "kernel \<Rightarrow> u32 \<Rightarrow> mipi_sensor \<Rightarrow> hist \<Rightarrow> int \<times> hist" where
  "SetSensorFlipMirror k mode st h =
     (let (x, h) = Sensor_Read k st REG_FLIP_MIRROR h;
          val = ucast (x AND 0xFC) :: u8;
          val = val OR ucast (swap_bits mode)
      in (0, Sensor_Write k st REG_FLIP_MIRROR (ucast val) h))"

definition GetSensorFlipMirror :: "kernel \<Rightarrow> u32 option \<Rightarrow> mipi_sensor \<Rightarrow> hist \<Rightarrow> int \<times> u32 option \<times> hist" where
  "GetSensorFlipMirror k mode st h =
     (case mode of None \<Rightarrow> (- 1, None, h)
      | Some _ \<Rightarrow>
          let (x, h) = Sensor_Read k st REG_FLIP_MIRROR h;
              val = ucast x :: u8
          in (0, Some (swap_bits (ucast val)), h))"

definition SetSensorIris :: "u32 \<Rightarrow> int" where "SetSensorIris val = 0"

fun cfg_loop :: "kernel \<Rightarrow> mipi_sensor \<Rightarrow> (u16 \<times> u16) list \<Rightarrow> hist \<Rightarrow> hist" where
  "cfg_loop k st [] h = h"
| "cfg_loop k st ((r, v) # t) h = cfg_loop k st t (Sensor_Write k st r v h)"

definition Sensor_Init :: "kernel \<Rightarrow> int \<Rightarrow> mipi_sensor \<Rightarrow> hist \<Rightarrow> int \<times> mipi_sensor \<times> hist" where
  "Sensor_Init k format st h =
     (let cfg = (if format = 0x204 then Sensor_Cfg_CV2003_MIPI_1080P30 else Sensor_Cfg_CV2003_MIPI_1080P25);
          h = cfg_loop k st (take (unat (reg_count cfg)) (cfg_regs cfg)) h;
          h = sys_h k (Usleep 10000) h
      in (0, st\<lparr>g_v_cycle := ucast (cfg_v_cycle cfg), g_format := word_of_int format\<rparr>, h))"

definition SensorReset :: int where "SensorReset = 0"

definition Sensor_DeInit :: "kernel \<Rightarrow> mipi_sensor \<Rightarrow> hist \<Rightarrow> int \<times> mipi_sensor \<times> hist" where
  "Sensor_DeInit k st h =
     (let h = Sensor_Write k st REG_STANDBY 0x01 h in (0, SensorDevice_Close k st h))"

definition SetSensorFmt :: "kernel \<Rightarrow> int \<Rightarrow> mipi_sensor \<Rightarrow> hist \<Rightarrow> int \<times> mipi_sensor \<times> hist" where
  "SetSensorFmt k format st h =
     (let (st, h) = SensorDevice_Close k st h;
          (_, st, h) = SensorDevice_Init k CV2003_DEFAULT_ADDR 2 st h;
          (_, st, h) = Sensor_Init k format st h;
          h = Sensor_Write k st REG_STREAM_EN 0x01 h;
          (xl, h) = Sensor_Read k st REG_VCYC_LO h;
          vl = ucast xl :: u8;
          (xh, h) = Sensor_Read k st REG_VCYC_HI h;
          vh = ucast xh :: u8;
          st = st\<lparr>g_v_cycle := push_bit 8 (ucast vh) OR ucast vl\<rparr>;
          h = sys_h k (Print (''cv2003: format=0x'' @ hex (unat (word_of_int format :: u32)) @ '' v_cycle=''
                @ dec (unat (g_v_cycle st)) @ [LF])) h
      in (0, st, h))"

definition Sensor_Kick :: "kernel \<Rightarrow> mipi_sensor \<Rightarrow> hist \<Rightarrow> int \<times> hist" where
  "Sensor_Kick k st h = (0, Sensor_Write k st REG_STREAM_EN 0x01 h)"

definition SetSensorReg :: "kernel \<Rightarrow> u32 \<Rightarrow> u32 \<Rightarrow> mipi_sensor \<Rightarrow> hist \<Rightarrow> int \<times> hist" where
  "SetSensorReg k reg val st h = (0, Sensor_Write k st (ucast reg) (ucast val) h)"

definition SetExposureRatio :: "u32 \<Rightarrow> int" where "SetExposureRatio ratio = 0"

definition GetExposureRatio :: "u32 option \<Rightarrow> int \<times> u32 option" where
  "GetExposureRatio ratio = (0, map_option (\<lambda>_. 64) ratio)"

definition GetSensorAttribute :: "u32 list option \<Rightarrow> mipi_sensor \<Rightarrow> int \<times> u32 list option" where
  "GetSensorAttribute attr st =
     (case attr of None \<Rightarrow> (- 1, None) | Some p \<Rightarrow> (0, Some (overlay [1920, 1080, g_v_cycle st, 720] p)))"

definition SetLaneNumMax :: "u32 \<Rightarrow> int" where "SetLaneNumMax lanes = 0"

definition GetSensorReg :: "kernel \<Rightarrow> u32 \<Rightarrow> u32 option \<Rightarrow> mipi_sensor \<Rightarrow> hist \<Rightarrow> int \<times> u32 option \<times> hist" where
  "GetSensorReg k reg val st h =
     (case val of None \<Rightarrow> (- 1, None, h)
      | Some _ \<Rightarrow> let (x, h) = Sensor_Read k st (ucast reg) h in (0, Some (ucast x), h))"

section \<open>Callbacks: white balance, exposure and gain\<close>

definition GetSensorAwbGain :: "u32 list option \<Rightarrow> mipi_sensor \<Rightarrow> int \<times> u32 list option" where
  "GetSensorAwbGain gain st = (0, map_option (overlay (AwbGain st)) gain)"

definition SetSensorAwbGain :: "u32 list option \<Rightarrow> mipi_sensor \<Rightarrow> int \<times> mipi_sensor" where
  "SetSensorAwbGain gain st =
     (0, case gain of None \<Rightarrow> st | Some g \<Rightarrow> st\<lparr>AwbGain := overlay g (AwbGain st)\<rparr>)"

definition SensorCommonIf :: string where "SensorCommonIf = cv2003_name"

definition GetAEDefault :: "u32 list option \<Rightarrow> mipi_sensor \<Rightarrow> int \<times> u32 list option" where
  "GetAEDefault ae st =
     (case ae of None \<Rightarrow> (- 1, None) | Some p \<Rightarrow> (0, Some (overlay [0, g_v_cycle st - 4, 0x40, 0x400] p)))"

definition GetAEInfo :: "u32 list option \<Rightarrow> mipi_sensor \<Rightarrow> int \<times> u32 list option" where
  "GetAEInfo ae st =
     (case ae of None \<Rightarrow> (- 1, None) | Some p \<Rightarrow> (0, Some (overlay [g_exposure st, g_gain st, g_v_cycle st] p)))"

definition intt_lines :: "u32 \<Rightarrow> u32 \<Rightarrow> u32" where
  "intt_lines v_cyc intt =
     (let val = v_cyc - intt;
          val = (if val < 8 then 8 else val)
      in if v_cyc - 4 < val then v_cyc - 4 else val)"

definition SetIntt :: "kernel \<Rightarrow> u32 \<Rightarrow> mipi_sensor \<Rightarrow> hist \<Rightarrow> int \<times> mipi_sensor \<times> hist" where
  "SetIntt k intt st h =
     (let val = intt_lines (g_v_cycle st) intt;
          st = st\<lparr>g_exposure := intt\<rparr>;
          h = Sensor_Write k st REG_EXP_HI (ucast (drop_bit 16 val AND 0xFF)) h;
          h = Sensor_Write k st REG_EXP_MID (ucast (drop_bit 8 val AND 0xFF)) h
      in (0, st, Sensor_Write k st REG_EXP_LO (ucast (val AND 0xFF)) h))"

definition CalcSnsValidIntt :: "u32 option \<Rightarrow> mipi_sensor \<Rightarrow> int \<times> u32 option" where
  "CalcSnsValidIntt intt st =
     (case intt of None \<Rightarrow> (- 1, None)
      | Some i \<Rightarrow> (0, Some (if g_v_cycle st - 4 < i then g_v_cycle st - 4 else i)))"

text \<open>The search of the gain table: the index of the first entry that is large enough, else the last.\<close>

fun lut_loop :: "u32 \<Rightarrow> u16 list \<Rightarrow> nat \<Rightarrow> nat" where
  "lut_loop gain [] idx = idx"
| "lut_loop gain (e # es) idx = (if gain \<le> ucast e then idx else lut_loop gain es (idx + 1))"

definition lut_idx :: "u32 \<Rightarrow> nat" where
  "lut_idx gain = lut_loop gain (take (GAIN_LUT_SIZE - 1) gain_lut) 0"

definition reg_gain :: "u32 \<Rightarrow> u32" where
  "reg_gain gain =
     (let r = drop_bit 5 gain; r = (if r < 0x40 then 0x40 else r) in if 0x3FF < r then 0x3FF else r)"

definition SetGain :: "kernel \<Rightarrow> u32 \<Rightarrow> mipi_sensor \<Rightarrow> hist \<Rightarrow> int \<times> mipi_sensor \<times> hist" where
  "SetGain k gain st h =
     (let st = st\<lparr>g_gain := gain\<rparr>;
          h = (if gain < 0x401 then Sensor_Write k st REG_GAIN_MODE 0x10 h
               else if 0x7FF < gain then Sensor_Write k st REG_GAIN_MODE 0x15 h else h);
          h = Sensor_Write k st REG_GAIN_IDX (ucast (word_of_nat (lut_idx gain) AND (0xFF :: u32))) h;
          h = Sensor_Write k st REG_GAIN_HI (ucast (drop_bit 8 (reg_gain gain) AND 0xFF)) h
      in (0, st, Sensor_Write k st REG_GAIN_LO (ucast (reg_gain gain AND 0xFF)) h))"

definition CalcSnsValidGain :: "u32 option \<Rightarrow> int \<times> u32 option" where
  "CalcSnsValidGain gain =
     (case gain of None \<Rightarrow> (- 1, None)
      | Some g \<Rightarrow> let g = (if g < 0x40 then 0x40 else g) in (0, Some (if 0x400 < g then 0x400 else g)))"

definition SetSnsFrameH :: "kernel \<Rightarrow> u32 \<Rightarrow> mipi_sensor \<Rightarrow> hist \<Rightarrow> int \<times> mipi_sensor \<times> hist" where
  "SetSnsFrameH k frame_h st h =
     (let frame_h = (if frame_h < 1125 then 1125 else frame_h);
          st = st\<lparr>g_v_cycle := frame_h\<rparr>;
          h = Sensor_Write k st REG_VCYC_HI (ucast (drop_bit 8 frame_h AND 0xFF)) h
      in (0, st, Sensor_Write k st REG_VCYC_LO (ucast (frame_h AND 0xFF)) h))"

definition GetMirrorFlipBayerFormat :: "u32 \<Rightarrow> u32 option \<Rightarrow> mipi_sensor \<Rightarrow> int \<times> u32 option" where
  "GetMirrorFlipBayerFormat mode fmt st =
     (case fmt of None \<Rightarrow> (- 1, None)
      | Some _ \<Rightarrow> (0, Some (if mode < 4 then MirrorFlipBayerFormat st ! unat mode else 0x03)))"

definition GetUserSensorAwbGain :: "u32 list option \<Rightarrow> mipi_sensor \<Rightarrow> int \<times> u32 list option" where
  "GetUserSensorAwbGain gain st = (0, map_option (overlay (AwbGain st)) gain)"

text \<open>The caller's array receives pointers to the eleven tables: a pointer is the index of its table.\<close>

definition GetSensorLtmCurve :: "nat list option \<Rightarrow> int \<times> nat list option" where
  "GetSensorLtmCurve curves =
     (case curves of None \<Rightarrow> (- 1, None) | Some p \<Rightarrow> (0, Some (overlay [0, 1, 2, 3, 4, 5, 6, 7, 8, 9, 10] p)))"

section \<open>Detection and the table of callbacks\<close>

fun connect_loop :: "kernel \<Rightarrow> u16 list \<Rightarrow> mipi_sensor \<Rightarrow> hist \<Rightarrow> int \<times> mipi_sensor \<times> hist" where
  "connect_loop k [] st h = (0, st, h)"
| "connect_loop k (a # as) st h =
     (let (_, st, h) = SensorDevice_Init k a 2 st h;
          (pid1, h) = Sensor_Read k st REG_PID1 h;
          (pid2, h) = Sensor_Read k st REG_PID2 h;
          h = sys_h k (Print (''cv2003: addr=0x'' @ hex (unat a) @ '' pid1=0x'' @ hex (unat pid1)
                @ '' pid2=0x'' @ hex (unat pid2) @ [LF])) h;
          (st, h) = SensorDevice_Close k st h
      in if (pid1 = 0x02 \<or> pid1 = 0x20) \<and> pid2 = 0x03 then (1, st\<lparr>g_slave_addr := a\<rparr>, h)
         else connect_loop k as st h)"

definition Sensor_Isconnect :: "kernel \<Rightarrow> mipi_sensor \<Rightarrow> hist \<Rightarrow> int \<times> mipi_sensor \<times> hist" where
  "Sensor_Isconnect k st h = connect_loop k [CV2003_DEFAULT_ADDR, CV2003_ALT_ADDR] st h"

definition get_sensor_version :: "kernel \<Rightarrow> mipi_sensor \<Rightarrow> hist \<Rightarrow> mipi_sensor \<times> hist" where
  "get_sensor_version k st h =
     (st\<lparr>sensor_version := trunc 32 ''cv2003_mipi V1.0.0''\<rparr>,
      sys_h k (Print (''mipi version: V1.1.1 17.0.0(build 000)(cv2003_mipi)'' @ [LF])) h)"

definition Sensor_Create :: "mipi_sensor \<Rightarrow> sensor_entry list \<times> mipi_sensor" where
  "Sensor_Create st =
     (let tab = map (\<lambda>_. Null_entry) (cv2003_mipi_sensor_if st);
          tab = tab[0 := Name_entry cv2003_name, 1 := Fn_GetSensorViAttr, 2 := Fn_SetSensorFlipMirror,
          3 := Fn_GetSensorFlipMirror, 4 := Fn_SetSensorIris, 5 := Fn_Sensor_Init,
          6 := Fn_SensorReset, 7 := Fn_Sensor_DeInit, 8 := Fn_SetSensorFmt,
          9 := Fn_Sensor_Kick, 10 := Fn_SetSensorReg, 11 := Fn_SetExposureRatio,
          12 := Fn_GetExposureRatio, 13 := Fn_GetSensorAttribute, 14 := Fn_SetLaneNumMax,
          15 := Fn_GetSensorReg, 16 := Fn_GetSensorAwbGain, 17 := Fn_SetSensorAwbGain,
          18 := Null_entry, 19 := Fn_SensorCommonIf, 20 := Fn_GetAEDefault,
          21 := Fn_GetAEInfo, 22 := Fn_SetIntt, 23 := Fn_CalcSnsValidIntt,
          24 := Fn_SetGain, 25 := Fn_CalcSnsValidGain, 26 := Fn_SetSnsFrameH,
          27 := Fn_GetMirrorFlipBayerFormat, 28 := Fn_GetUserSensorAwbGain, 29 := Fn_GetSensorLtmCurve,
          30 := Fn_Sensor_Isconnect]
      in (tab, st\<lparr>cv2003_mipi_sensor_if := tab\<rparr>))"

definition Sensor_Destroy :: "mipi_sensor \<Rightarrow> mipi_sensor" where
  "Sensor_Destroy st = st\<lparr>cv2003_mipi_sensor_if := map (\<lambda>_. Null_entry) (cv2003_mipi_sensor_if st)\<rparr>"

definition set_clk_rate :: "kernel \<Rightarrow> u32 \<Rightarrow> hist \<Rightarrow> int \<times> hist" where
  "set_clk_rate k rate h = (0, sys_h k (Print (''cv2003: set_clk_rate '' @ dec (unat rate) @ [LF])) h)"

definition set_clk_enable :: "kernel \<Rightarrow> u32 \<Rightarrow> hist \<Rightarrow> int \<times> hist" where
  "set_clk_enable k enable h = (0, sys_h k (Print (''cv2003: set_clk_enable '' @ dec (unat enable) @ [LF])) h)"

section \<open>The library's accesses are a register device\<close>

lemma Sensor_Read_ok:
  assumes "sensor_acks k (g_slave_addr st) regs0"
  shows "Sensor_Read k st reg h =
     (ucast (regfile (g_slave_addr st) regs0 h reg),
      h @ [(Ioctl (g_fd st) I2C_RDWR (Arg_i2c (read_msgs (g_slave_addr st) reg)),
            k h (Ioctl (g_fd st) I2C_RDWR (Arg_i2c (read_msgs (g_slave_addr st) reg))))])"
proof -
  let ?r = "k h (Ioctl (g_fd st) I2C_RDWR (Arg_i2c (read_msgs (g_slave_addr st) reg)))"
  have "0 \<le> rv ?r" "rbytes ?r = [regfile (g_slave_addr st) regs0 h reg]"
    using assms by (simp_all add: sensor_acks_def Let_def)
  then show ?thesis by (simp add: Sensor_Read_def I2CSensor_Read_def sys_def overlay_def)
qed

lemmas Sensor_Write_defs = Sensor_Write_def I2CSensor_Write_def I2CSensor_WriteEx_def

interpretation mipi: register_device "\<lambda>r v. Sensor_Write k st r (ucast v)" "Sensor_Read k st"
    "regfile (g_slave_addr st) regs0" "sensor_acks k (g_slave_addr st) regs0" for k st regs0
proof
  fix r v h assume a: "sensor_acks k (g_slave_addr st) regs0"
  then have "0 \<le> rv (k h (Ioctl (g_fd st) I2C_RDWR (Arg_i2c (write_msgs (g_slave_addr st) r v))))"
    by (simp add: sensor_acks_def)
  then show "regfile (g_slave_addr st) regs0 (Sensor_Write k st r (ucast v) h) =
      (regfile (g_slave_addr st) regs0 h)(r := v)"
    by (simp add: Sensor_Write_defs ioctl_eq)
  show "fst (Sensor_Read k st r h) = ucast (regfile (g_slave_addr st) regs0 h r)"
    "regfile (g_slave_addr st) regs0 (snd (Sensor_Read k st r h)) = regfile (g_slave_addr st) regs0 h"
    by (simp_all add: Sensor_Read_ok [OF a])
qed

text \<open>The driver passes sixteen-bit values, of which the low byte goes out.\<close>

lemma regs_Sensor_Write:
  "sensor_acks k (g_slave_addr st) regs0 \<Longrightarrow>
     regfile (g_slave_addr st) regs0 (Sensor_Write k st r v h) = (regfile (g_slave_addr st) regs0 h)(r := ucast v)"
  using mipi.wr_regs [of k st regs0 r "ucast v" h]
  by (simp add: Sensor_Write_defs ioctl_eq sensor_acks_def)

lemma regs_cfg_loop:
  "sensor_acks k (g_slave_addr st) regs0 \<Longrightarrow>
     regfile (g_slave_addr st) regs0 (cfg_loop k st t h) =
     fold (\<lambda>(r, v) f. f(r := ucast v)) t (regfile (g_slave_addr st) regs0 h)"
  by (induction t arbitrary: h) (auto simp: regs_Sensor_Write)

end
