(* ===== verification/Sensor_Props.thy ===== *)
theory Sensor_Props
  imports Cv2003_Driver Libcv2003_Mipi
begin

text \<open>
  What the two CV2003 drivers do to the sensor: detection and start of the stream, agreement of the
  two on the registers they leave, exposure and gain, mirroring, and the descriptor they hold.
\<close>

section \<open>A working system\<close>

text \<open>Files open, and configuration calls other than transfers succeed.\<close>

definition files_ok :: "kernel \<Rightarrow> bool" where
  "files_ok k \<longleftrightarrow>
     (\<forall>h p m. 0 \<le> rv (k h (Open p m))) \<and>
     (\<forall>h fd req v. 0 \<le> rv (k h (Ioctl fd req (Arg_val v)))) \<and>
     (\<forall>h fd req bs. 0 \<le> rv (k h (Ioctl fd req (Arg_bytes bs))))"

lemma k_sensor_files: "files_ok (k_sensor a regs0)"
  by (simp add: files_ok_def k_sensor_def)

lemma stored_simps [simp]:
  "stored a (Open p m) = None" "stored a (Close fd) = None" "stored a (Usleep n) = None"
  "stored a (Print s) = None" "stored a (Perror s) = None"
  "stored a (Ioctl fd req (Arg_val v)) = None" "stored a (Ioctl fd req (Arg_bytes bs)) = None"
  by simp_all

section \<open>The plain driver\<close>

lemma device_init_ok:
  assumes "files_ok k"
  shows "\<exists>fd h'. sensor_device_init k a st h = (0, st\<lparr>g_i2c_fd := fd, g_i2c_addr := a\<rparr>, h') \<and> 0 \<le> fd \<and>
     (\<forall>b r0. regfile b r0 h' = regfile b r0 h)"
proof -
  define fd where "fd = rv (k h (Open ''/dev/i2c-0'' O_RDWR_NONBLOCK))"
  have "0 \<le> fd" "\<And>h fd req v. \<not> rv (k h (Ioctl fd req (Arg_val v))) < 0"
    using assms by (simp_all add: files_ok_def fd_def not_less)
  then show ?thesis
    by (intro exI [of _ fd]) (simp add: sensor_device_init_def sys_def ioctl_eq not_less [symmetric] flip: fd_def)
qed

lemma device_close_regs: "sensor_device_close k st h = (st', h') \<Longrightarrow>
    st' = st\<lparr>g_i2c_fd := - 1\<rparr> \<and> regfile b r0 h' = regfile b r0 h"
  by (auto simp: sensor_device_close_def split: if_splits)

lemma mipi_init_ok: "files_ok k \<Longrightarrow> \<exists>h'. mipi_init k h = (0, h') \<and> (\<forall>b r0. regfile b r0 h' = regfile b r0 h)"
  by (simp add: mipi_init_def files_ok_def sys_def ioctl_eq not_less [symmetric] sys_h_def)

lemma regs_sns_write [sensor_simps]:
  "sensor_acks k a r0 \<Longrightarrow> g_i2c_addr st = a \<Longrightarrow>
     regfile a r0 (sns_write k st r v h) = (regfile a r0 h)(r := v)"
  using sns.wr_regs by blast

lemma sns_read_regs:
  "sensor_acks k a r0 \<Longrightarrow> g_i2c_addr st = a \<Longrightarrow>
     \<exists>h'. sns_read k st r h = (ucast (regfile a r0 h r), h') \<and> regfile a r0 h' = regfile a r0 h"
  using sns_read_ok [of k st r0 r h] by auto

lemma regs_write_table [sensor_simps]:
  "sensor_acks k a r0 \<Longrightarrow> g_i2c_addr st = a \<Longrightarrow>
     regfile a r0 (write_table k st t h) = fold (\<lambda>(r, v) f. f(r := v)) t (regfile a r0 h)"
  unfolding write_table_all using sns.regs_wr_all by blast

lemma regs_set_intt [sensor_simps]:
  "sensor_acks k a r0 \<Longrightarrow> g_i2c_addr st = a \<Longrightarrow>
     regfile a r0 (set_intt k st i h) =
       (let v = intt_value (cv2003.g_v_cycle st) i in (regfile a r0 h)
          (0x304a := ucast (drop_bit 16 v), 0x3049 := ucast (drop_bit 8 v), 0x3048 := ucast v))"
  by (simp add: set_intt_def Let_def regs_sns_write)

lemma regs_set_gain [sensor_simps]:
  "sensor_acks k a r0 \<Longrightarrow> g_i2c_addr st = a \<Longrightarrow>
     regfile a r0 (set_gain k st g h) =
       (let f = (if g < 0x401 then (regfile a r0 h)(0x3804 := 0x10)
                 else if 0x7FF < g then (regfile a r0 h)(0x3804 := 0x15) else regfile a r0 h)
        in f(0x3154 := word_of_nat (gain_idx g 0), 0x314d := ucast (drop_bit 8 (fine_gain g)),
             0x314c := ucast (fine_gain g)))"
  by (cases "g < 0x401"; cases "0x7FF < g")
    (simp_all add: set_gain_def Let_def regs_sns_write, simp add: word_less_nat_alt)

text \<open>What is written after the table: stream on, ten lines of blanking, gain one.\<close>

definition started :: "(u16 \<times> u8) list" where
  "started = [(0x3141, 1), (0x304a, 0), (0x3049, 0), (0x3048, 10), (0x3804, 0x10), (0x3154, 0), (0x314d, 0), (0x314c, 0x40)]"

lemma gain_idx_unity: "gain_idx 0x40 0 = 0"
  by (subst gain_idx.simps) (simp add: TAB_SENSOR_REG_TO_GAIN_def)

lemma fold_upd_eq: "fold (\<lambda>(r, v) f. f(r := v)) t f = (\<lambda>r. case map_of (rev t) r of None \<Rightarrow> f r | Some v \<Rightarrow> v)"
  by (rule ext) (induction t arbitrary: f, auto simp: map_add_def split: option.splits)

lemma cfg_v_cycle: "fold (\<lambda>(r, v) f. f(r := v)) SENSOR_CFG_1080P25 f 0x3021 = 0x0a"
  "fold (\<lambda>(r, v) f. f(r := v)) SENSOR_CFG_1080P25 f 0x3020 = 0x8c"
  unfolding fold_upd_eq by (simp_all add: SENSOR_CFG_1080P25_def)

lemma set_format_regs:
  assumes files: "files_ok k" and acks: "sensor_acks k a r0" and a: "g_i2c_addr st = a"
  shows "\<exists>fd st' h'. cv2003_set_format k st h = (0, st', h') \<and> st' = \<lparr>g_i2c_fd = fd, g_i2c_addr = a, g_v_cycle = 2700\<rparr> \<and> 0 \<le> fd \<and>
     regfile a r0 h' = fold (\<lambda>(r, v) f. f(r := v)) (SENSOR_CFG_1080P25 @ started) (regfile a r0 h)"
proof -
  obtain st1 h1 where 1: "sensor_device_close k st h = (st1, h1)" by fastforce
  from device_close_regs [OF 1] a have a1: "g_i2c_addr st1 = a" and r1: "regfile a r0 h1 = regfile a r0 h" by auto
  obtain fd h2 where 2: "sensor_device_init k (g_i2c_addr st1) st1 h1 = (0, st1\<lparr>g_i2c_fd := fd, g_i2c_addr := a\<rparr>, h2)"
    "0 \<le> fd" "regfile a r0 h2 = regfile a r0 h1" using device_init_ok [OF files] a1 by metis
  define st2 where "st2 = st1\<lparr>g_i2c_fd := fd, g_i2c_addr := a\<rparr>"
  have a2: "g_i2c_addr st2 = a" by (simp add: st2_def)
  obtain h3 where 3: "mipi_init k h2 = (0, h3)" "regfile a r0 h3 = regfile a r0 h2" using mipi_init_ok [OF files] by blast
  define h4 where "h4 = sns_write k st2 0x3141 1 (sys_h k (Usleep 10000) (write_table k st2 SENSOR_CFG_1080P25 h3))"
  have r4: "regfile a r0 h4 = fold (\<lambda>(r, v) f. f(r := v)) (SENSOR_CFG_1080P25 @ [(0x3141, 1)]) (regfile a r0 h)"
    unfolding h4_def by (simp add: sensor_simps acks a2 3(2) 2(3) r1)
  obtain h5 where 5: "sns_read k st2 0x3021 h4 = (ucast (regfile a r0 h4 0x3021), h5)" "regfile a r0 h5 = regfile a r0 h4"
    using sns_read_regs [OF acks a2] by blast
  obtain h6 where 6: "sns_read k st2 0x3020 h5 = (ucast (regfile a r0 h5 0x3020), h6)" "regfile a r0 h6 = regfile a r0 h5"
    using sns_read_regs [OF acks a2] by blast
  define st3 where "st3 = st2\<lparr>cv2003.g_v_cycle := 2700\<rparr>"
  have v: "regfile a r0 h4 0x3021 = 0x0a" "regfile a r0 h4 0x3020 = 0x8c"
    unfolding r4 by (simp_all add: cfg_v_cycle)
  have vc: "push_bit 8 (ucast (ucast (0x0a :: u8) :: u16)) OR ucast (ucast (0x8c :: u8) :: u16) = (2700 :: u32)" by simp
  have a3: "g_i2c_addr st3 = a" "cv2003.g_v_cycle st3 = 2700" by (simp_all add: st3_def a2)
  have half: "(2700 :: u32) div 2 - 5 = 1345" by simp
  have "cv2003_set_format k st h = (0, st3, set_gain k st3 0x40 (set_intt k st3 1345 h6))"
    unfolding cv2003_set_format_def 1 2(1) 3(1) Let_def prod.case st2_def [symmetric] h4_def [symmetric]
    by (simp only: 5(1) 6(1) 5(2) v vc prod.case st3_def [symmetric] a3(2) half) (simp add: 3(1) flip: h4_def)
  moreover have "regfile a r0 (set_gain k st3 0x40 (set_intt k st3 1345 h6)) =
      fold (\<lambda>(r, v) f. f(r := v)) (SENSOR_CFG_1080P25 @ started) (regfile a r0 h)"
    by (simp add: sensor_simps acks a3 6(2) 5(2) r4 started_def intt_value_def gain_idx_unity fine_gain_def Let_def)
  moreover have "st3 = \<lparr>g_i2c_fd = fd, g_i2c_addr = a, g_v_cycle = 2700\<rparr>" by (simp add: st3_def st2_def)
  ultimately show ?thesis using 2(2) by blast
qed

text \<open>A device that does not answer reads as \<open>0xFFFF\<close> and is no CV2003.\<close>

lemma sns_read_absent:
  "sensor_absent k (g_i2c_addr st) \<Longrightarrow> \<exists>h'. sns_read k st r h = (0xFFFF, h') \<and> (\<forall>b r0. regfile b r0 h' = regfile b r0 h)"
  by (simp add: sns_read_def sensor_absent_def read_msgs_def sys_def os_simps I2C_RDWR_def)

lemma probe_step:
  assumes files: "files_ok k"
    and that: "sensor_acks k b r0 \<and> drop_bit 1 x = b \<and> P = is_cv2003 (ucast (regfile b r0 h 0x307a)) (ucast (regfile b r0 h 0x3138)) \<or>
        sensor_absent k (drop_bit 1 x) \<and> P = False"
  shows "\<exists>st' h'. probe_loop k (x # xs) st h = (if P then (drop_bit 1 x, st', h') else probe_loop k xs st' h') \<and>
      regfile b r0 h' = regfile b r0 h"
proof -
  obtain fd h1 where 1: "sensor_device_init k (drop_bit 1 x) st h = (0, st\<lparr>g_i2c_fd := fd, g_i2c_addr := drop_bit 1 x\<rparr>, h1)"
    "regfile b r0 h1 = regfile b r0 h" using device_init_ok [OF files] by metis
  define st1 where "st1 = st\<lparr>g_i2c_fd := fd, g_i2c_addr := drop_bit 1 x\<rparr>"
  have a1: "g_i2c_addr st1 = drop_bit 1 x" by (simp add: st1_def)
  have "\<exists>p1 p2 h2 h3. sns_read k st1 0x307a h1 = (p1, h2) \<and> sns_read k st1 0x3138 h2 = (p2, h3) \<and> P = is_cv2003 p1 p2 \<and>
      regfile b r0 h3 = regfile b r0 h"
    using that
  proof
    assume t: "sensor_acks k b r0 \<and> drop_bit 1 x = b \<and> P = is_cv2003 (ucast (regfile b r0 h 0x307a)) (ucast (regfile b r0 h 0x3138))"
    obtain h2 where 2: "sns_read k st1 0x307a h1 = (ucast (regfile b r0 h1 0x307a), h2)" "regfile b r0 h2 = regfile b r0 h1"
      using sns_read_regs t a1 by blast
    obtain h3 where 3: "sns_read k st1 0x3138 h2 = (ucast (regfile b r0 h2 0x3138), h3)" "regfile b r0 h3 = regfile b r0 h2"
      using sns_read_regs t a1 by blast
    show ?thesis
      using 1(2) 2 3 t by (intro exI [of _ "ucast (regfile b r0 h 0x307a)"] exI [of _ "ucast (regfile b r0 h 0x3138)"]
          exI [of _ h2] exI [of _ h3]) simp
  next
    assume t: "sensor_absent k (drop_bit 1 x) \<and> P = False"
    then have ab: "sensor_absent k (g_i2c_addr st1)" by (simp add: a1)
    obtain h2 where 2: "sns_read k st1 0x307a h1 = (0xFFFF, h2)" "regfile b r0 h2 = regfile b r0 h1"
      using sns_read_absent [OF ab] by metis
    obtain h3 where 3: "sns_read k st1 0x3138 h2 = (0xFFFF, h3)" "regfile b r0 h3 = regfile b r0 h2"
      using sns_read_absent [OF ab] by metis
    have "\<not> is_cv2003 0xFFFF 0xFFFF" by (simp add: is_cv2003_def)
    then show ?thesis
      using 1(2) 2 3 t by (intro exI [of _ "0xFFFF"] exI [of _ h2] exI [of _ h3]) simp
  qed
  then obtain p1 p2 h2 h3 where 2: "sns_read k st1 0x307a h1 = (p1, h2)" "sns_read k st1 0x3138 h2 = (p2, h3)"
    "P = is_cv2003 p1 p2" "regfile b r0 h3 = regfile b r0 h" by blast
  define h4 where "h4 = sys_h k (Print (''addr=0x'' @ hex (unat x) @ '',pid1='' @ hex (unat p1) @ '',pid2='' @ hex (unat p2) @ [LF])) h3"
  obtain st5 h5 where 5: "sensor_device_close k st1 h4 = (st5, h5)" by fastforce
  have "regfile b r0 h5 = regfile b r0 h" using device_close_regs [OF 5, of b r0] 2(4) by (simp add: h4_def)
  moreover have "probe_loop k (x # xs) st h = (if P then (drop_bit 1 x, st5, h5) else probe_loop k xs st5 h5)"
    by (simp only: probe_loop.simps Let_def 1(1) prod.case st1_def [symmetric] 2(1,2) h4_def [symmetric] 5 2(3) [symmetric])
  ultimately show ?thesis by blast
qed

lemma init_regs:
  assumes files: "files_ok k" and acks: "sensor_acks k a r0"
    and ids: "is_cv2003 (ucast (regfile a r0 h 0x307a)) (ucast (regfile a r0 h 0x3138))"
    and a: "a = 0x35 \<or> a = 0x36 \<and> sensor_absent k 0x35"
  shows "\<exists>st' h'. cv2003_init k st h = (0, st', h') \<and> g_i2c_addr st' = a \<and> 0 \<le> g_i2c_fd st' \<and> regfile a r0 h' = regfile a r0 h"
proof -
  have shift: "drop_bit 1 (0x6a :: u16) = 0x35" "drop_bit 1 (0x6c :: u16) = 0x36" by simp_all
  have "\<exists>st1 h1. probe_loop k [0x6a, 0x6c] st h = (a, st1, h1) \<and> regfile a r0 h1 = regfile a r0 h"
    using a
  proof
    assume "a = 0x35"
    then show ?thesis using probe_step [OF files, of a r0 "0x6a" True h "[0x6c]" st] acks ids by (simp add: shift)
  next
    assume t: "a = 0x36 \<and> sensor_absent k 0x35"
    obtain st1 h1 where 1: "probe_loop k [0x6a, 0x6c] st h = probe_loop k [0x6c] st1 h1" "regfile a r0 h1 = regfile a r0 h"
      using probe_step [OF files, of a r0 "0x6a" False h "[0x6c]" st] t by (auto simp: shift)
    show ?thesis using probe_step [OF files, of a r0 "0x6c" True h1 "[]" st1] acks ids t 1 by (simp add: shift)
  qed
  then obtain st1 h1 where 1: "probe_addr k st h = (a, st1, h1)" "regfile a r0 h1 = regfile a r0 h"
    by (auto simp: probe_addr_def PROBE_ADDRS_8BIT_def)
  obtain fd h2 where "sensor_device_init k a st1 h1 = (0, st1\<lparr>g_i2c_fd := fd, g_i2c_addr := a\<rparr>, h2)" "0 \<le> fd"
    "regfile a r0 h2 = regfile a r0 h1" using device_init_ok [OF files] by metis
  with 1 show ?thesis by (simp add: cv2003_init_def)
qed

text \<open>C27: Start of the camera sensor: with a CV2003 at either bus address, detection finds it, opens it, and
  setting the format leaves every register at the value of the table, with the stream on, ten lines of
  blanking for the exposure and gain one; registers the driver does not name keep their content. The frame
  length kept for later exposure computations is the 2700 lines the sensor reports.\<close>
theorem camera_sensor_starts:
  assumes "files_ok k" and "sensor_acks k a r0"
    and "r0 0x307a \<in> {0x02, 0x20}" and "r0 0x3138 = 0x03"
    and "a = 0x35 \<or> a = 0x36 \<and> sensor_absent k 0x35"
  shows "\<exists>st1 h1 st2 h2. cv2003_init k cv2003_0 [] = (0, st1, h1) \<and> g_i2c_addr st1 = a \<and>
     cv2003_set_format k st1 h1 = (0, st2, h2) \<and> g_i2c_addr st2 = a \<and> 0 \<le> g_i2c_fd st2 \<and> cv2003.g_v_cycle st2 = 2700 \<and>
     (\<forall>r. regfile a r0 h2 r =
        (case map_of (rev (SENSOR_CFG_1080P25 @ started)) r of None \<Rightarrow> r0 r | Some v \<Rightarrow> v))"
proof -
  have "is_cv2003 (ucast (r0 0x307a)) (ucast (r0 0x3138))" using assms(3,4) by (auto simp: is_cv2003_def)
  with init_regs [OF assms(1,2), of "[]" cv2003_0] assms(5) obtain st1 h1 where
    1: "cv2003_init k cv2003_0 [] = (0, st1, h1)" "g_i2c_addr st1 = a" "regfile a r0 h1 = r0" by auto
  from set_format_regs [OF assms(1,2) 1(2), of h1] obtain fd h2 where
    2: "cv2003_set_format k st1 h1 = (0, \<lparr>g_i2c_fd = fd, g_i2c_addr = a, g_v_cycle = 2700\<rparr>, h2)" "0 \<le> fd"
       "regfile a r0 h2 = fold (\<lambda>(r, v) f. f(r := v)) (SENSOR_CFG_1080P25 @ started) r0" unfolding 1(3) by blast
  show ?thesis
    by (rule exI [of _ st1], rule exI [of _ h1], rule exI, rule exI [of _ h2], intro conjI, rule 1(1), rule 1(2), rule 2(1))
      (use 2(2) in \<open>simp_all add: 2(3) fold_upd_eq [of "SENSOR_CFG_1080P25 @ started"] del: rev_append fold_append\<close>)
qed

definition cv2003_regs :: "u16 \<Rightarrow> u8" where
  "cv2003_regs r = (if r = 0x307a then 0x20 else if r = 0x3138 then 0x03 else 0)"

lemma camera_sensor_starts_witness:
  "\<exists>st1 h1 st2 h2. cv2003_init (k_sensor 0x36 cv2003_regs) cv2003_0 [] = (0, st1, h1) \<and> g_i2c_addr st1 = 0x36 \<and>
     cv2003_set_format (k_sensor 0x36 cv2003_regs) st1 h1 = (0, st2, h2) \<and> g_i2c_addr st2 = 0x36 \<and> 0 \<le> g_i2c_fd st2 \<and>
     cv2003.g_v_cycle st2 = 2700 \<and>
     (\<forall>r. regfile 0x36 cv2003_regs h2 r =
        (case map_of (rev (SENSOR_CFG_1080P25 @ started)) r of None \<Rightarrow> cv2003_regs r | Some v \<Rightarrow> v))"
  by (rule camera_sensor_starts [OF k_sensor_files k_sensor_acks])
    (simp_all add: cv2003_regs_def k_sensor_absent)

section \<open>Exposure and gain of the plain driver\<close>

lemma intt_value_nat:
  assumes "12 \<le> unat v" and "2 * unat i \<le> unat v"
  shows "unat (intt_value v i) = min (unat v - 4) (max 8 (unat v - 2 * unat i))"
proof -
  have i2: "unat (i * 2) = 2 * unat i"
    using assms(2) unat_u32_less [of v] by (simp add: unat_word_ariths)
  have sub: "unat (v - i * 2) = unat v - 2 * unat i" by (subst unat_minus_nowrap) (use assms(2) i2 in \<open>auto simp: word_le_nat_alt\<close>)
  have v4: "unat (v - 4) = unat v - 4" by (subst unat_minus_nowrap) (use assms(1) in \<open>auto simp: word_le_nat_alt\<close>)
  show ?thesis using assms by (auto simp: intt_value_def Let_def word_less_nat_alt sub v4 min_def max_def)
qed

text \<open>The exposure registers of the plain driver: for an exposure of at most half the frame length the 24 bits
  of the three registers hold the frame length less twice the exposure, clamped to the range from 8 to the
  frame length less 4, and no other register changes.\<close>
theorem set_intt_programs:
  assumes "sensor_acks k a r0" and "g_i2c_addr st = a"
    and "12 \<le> unat (cv2003.g_v_cycle st)" and "unat (cv2003.g_v_cycle st) < 2 ^ 24"
    and "2 * unat intt \<le> unat (cv2003.g_v_cycle st)"
  shows "exposure_regs (regfile a r0 (set_intt k st intt h)) =
       min (unat (cv2003.g_v_cycle st) - 4) (max 8 (unat (cv2003.g_v_cycle st) - 2 * unat intt)) \<and>
     (\<forall>r. r \<notin> {0x3048, 0x3049, 0x304a} \<longrightarrow> regfile a r0 (set_intt k st intt h) r = regfile a r0 h r)"
proof -
  note v = intt_value_nat [OF assms(3,5)]
  have "unat (intt_value (cv2003.g_v_cycle st) intt) < 2 ^ 24" using assms(3,4) by (simp add: v)
  from three_bytes [OF this] v show ?thesis
    by (simp add: regs_set_intt [OF assms(1,2)] exposure_regs_def Let_def)
qed

lemma set_intt_programs_witness:
  "exposure_regs (regfile 0x35 cv2003_regs (set_intt (k_sensor 0x35 cv2003_regs) (\<lparr>g_i2c_fd = 5, g_i2c_addr = 0x35, g_v_cycle = 2700\<rparr>) 1000 [])) =
     700"
  using set_intt_programs [OF k_sensor_acks [of "0x35" cv2003_regs], of "\<lparr>g_i2c_fd = 5, g_i2c_addr = 0x35, g_v_cycle = 2700\<rparr>" 1000 "[]"]
  by simp

text \<open>A chain of values from below to above a number has two neighbours around it.\<close>

lemma bracket_exists:
  fixes f :: "nat \<Rightarrow> nat"
  shows "f 0 \<le> g \<Longrightarrow> g \<le> f n \<Longrightarrow> 0 < n \<Longrightarrow> \<exists>i < n. f i \<le> g \<and> g \<le> f (Suc i)"
proof (induction n)
  case (Suc n)
  show ?case
  proof (cases "n = 0 \<or> f n \<le> g")
    case True
    then have "f n \<le> g" using Suc.prems(1) by auto
    then show ?thesis using Suc.prems(2) by blast
  next
    case False
    then have "\<exists>i < n. f i \<le> g \<and> g \<le> f (Suc i)" using Suc.IH Suc.prems(1) by simp
    then show ?thesis using less_SucI by blast
  qed
qed simp

abbreviation gain_at :: "nat \<Rightarrow> nat" where
  "gain_at i \<equiv> unat (TAB_SENSOR_REG_TO_GAIN ! i)"

lemma length_TAB: "length TAB_SENSOR_REG_TO_GAIN = 250"
  by (simp add: TAB_SENSOR_REG_TO_GAIN_def)

lemma TAB_ends: "gain_at 0 = 0x40" "gain_at 249 = 0xffff"
  by (simp_all add: TAB_SENSOR_REG_TO_GAIN_def)

lemma unat_ucast_16_32: "unat (ucast (w :: u16) :: u32) = unat w"
  by (simp add: unsigned_ucast_eq take_bit_nat_eq_self_iff) (use unat_u16_less [of w] in simp)

lemma gain_idx_step:
  "gain_idx g i = (if i < 249 \<and> \<not> (gain_at i \<le> unat g \<and> unat g \<le> gain_at (Suc i)) then gain_idx g (Suc i) else i)"
  by (subst gain_idx.simps)
    (auto simp: length_TAB word_less_nat_alt unat_ucast_16_32 not_le not_less)

lemma gain_idx_first:
  "i \<le> n \<Longrightarrow> n < 249 \<Longrightarrow> gain_at n \<le> unat g \<and> unat g \<le> gain_at (Suc n) \<Longrightarrow>
     (\<And>j. i \<le> j \<Longrightarrow> j < n \<Longrightarrow> \<not> (gain_at j \<le> unat g \<and> unat g \<le> gain_at (Suc j))) \<Longrightarrow> gain_idx g i = n"
proof (induction "n - i" arbitrary: i)
  case 0
  then show ?case by (subst gain_idx_step) simp
next
  case (Suc m)
  then have "gain_idx g (Suc i) = n" by simp
  with Suc.prems Suc.hyps(2) show ?case by (subst gain_idx_step) simp
qed

text \<open>C34: The gain registers of the plain driver: every gain from one (64) up to 65535 lies between the table
  entry the loop stops at and the next one, the index written is the first with that property, the loop ends,
  and nothing but the five gain registers changes.\<close>
theorem set_gain_brackets:
  assumes "sensor_acks k a r0" and "g_i2c_addr st = a" and "0x40 \<le> unat gain" and "unat gain \<le> 0xffff"
  shows "\<exists>n < 249. gain_at n \<le> unat gain \<and> unat gain \<le> gain_at (Suc n) \<and>
     (\<forall>j < n. \<not> (gain_at j \<le> unat gain \<and> unat gain \<le> gain_at (Suc j))) \<and>
     regfile a r0 (set_gain k st gain h) 0x3154 = word_of_nat n \<and>
     (\<forall>r. r \<notin> {0x3804, 0x3154, 0x314d, 0x314c} \<longrightarrow> regfile a r0 (set_gain k st gain h) r = regfile a r0 h r)"
proof -
  define P where "P n \<longleftrightarrow> gain_at n \<le> unat gain \<and> unat gain \<le> gain_at (Suc n)" for n
  have "\<exists>n < 249. P n" unfolding P_def
    by (rule bracket_exists [of gain_at]) (simp_all only: TAB_ends assms(3,4) zero_less_numeral)
  then obtain n0 where n0: "P n0" "n0 < 249" by blast
  define n where "n = (LEAST n. P n)"
  have n: "P n" unfolding n_def by (rule LeastI, rule n0)
  have n2: "n < 249" unfolding n_def using Least_le [of P, OF n0(1)] n0(2) by linarith
  have n3: "\<not> P j" if "j < n" for j using that unfolding n_def by (rule not_less_Least)
  have idx: "gain_idx gain 0 = n"
    by (rule gain_idx_first) (use n n2 n3 in \<open>simp_all only: P_def zero_le not_False_eq_True\<close>)
  have R: "regfile a r0 (set_gain k st gain h) 0x3154 = word_of_nat n"
    "r \<notin> {0x3804, 0x3154, 0x314d, 0x314c} \<Longrightarrow> regfile a r0 (set_gain k st gain h) r = regfile a r0 h r" for r
    by (simp_all add: regs_set_gain [OF assms(1,2)] Let_def idx)
  show ?thesis
    by (rule exI [of _ n], intro conjI) (use n n2 n3 R in \<open>simp_all only: P_def, blast+\<close>)
qed

lemma set_gain_brackets_witness:
  "\<exists>n < 249. gain_at n \<le> unat (0x1ca :: u32) \<and> unat (0x1ca :: u32) \<le> gain_at (Suc n) \<and>
     (\<forall>j < n. \<not> (gain_at j \<le> unat (0x1ca :: u32) \<and> unat (0x1ca :: u32) \<le> gain_at (Suc j))) \<and>
     regfile 0x35 cv2003_regs (set_gain (k_sensor 0x35 cv2003_regs) (cv2003_0\<lparr>g_i2c_addr := 0x35\<rparr>) 0x1ca []) 0x3154 = word_of_nat n \<and>
     (\<forall>r. r \<notin> {0x3804, 0x3154, 0x314d, 0x314c} \<longrightarrow>
        regfile 0x35 cv2003_regs (set_gain (k_sensor 0x35 cv2003_regs) (cv2003_0\<lparr>g_i2c_addr := 0x35\<rparr>) 0x1ca []) r = regfile 0x35 cv2003_regs [] r)"
  by (rule set_gain_brackets [OF k_sensor_acks]) simp_all

end
