(* ===== verification/Mipi_Props.thy ===== *)
theory Mipi_Props
  imports Sensor_Props
begin

text \<open>
  The sensor library of the streamer: format setup and its agreement with the plain driver,
  exposure and gain with their clamps, mirroring, and the descriptor it holds over any sequence
  of callbacks.
\<close>

section \<open>Effect of the callbacks on the registers\<close>

lemma regs_write [sensor_simps]:
  "sensor_acks k a r0 \<Longrightarrow> g_slave_addr st = a \<Longrightarrow>
     regfile a r0 (Sensor_Write k st r v h) = (regfile a r0 h)(r := ucast v)"
  using regs_Sensor_Write by blast

lemma read_regs:
  "sensor_acks k a r0 \<Longrightarrow> g_slave_addr st = a \<Longrightarrow>
     \<exists>h'. Sensor_Read k st r h = (ucast (regfile a r0 h r), h') \<and> regfile a r0 h' = regfile a r0 h"
  using Sensor_Read_ok [of k st r0 r h] by auto

lemma ucast_and_low8: "(ucast ((w :: u32) AND 0xFF) :: u8) = ucast w"
proof -
  have "w AND 0xFF = take_bit 8 w" by (simp add: take_bit_eq_mask mask_eq_exp_minus_1)
  then show ?thesis by (simp only:) (rule bit_word_eqI, auto simp: bit_simps)
qed

lemma ucast_low8_16: "(ucast (ucast (w :: u32) :: u16) :: u8) = ucast w"
  by (rule bit_word_eqI) (auto simp: bit_simps)

section \<open>Format\<close>

lemma Init_ok:
  assumes "files_ok k" and "g_fd st < 0"
  shows "\<exists>fd h'. SensorDevice_Init k a 2 st h =
     (0, st\<lparr>g_addr_mode := 2, g_slave_addr := a, g_dev_path := Some CV2003_I2C_DEV, g_fd := fd\<rparr>, h') \<and> 0 \<le> fd \<and>
     (\<forall>b r0. regfile b r0 h' = regfile b r0 h)"
proof -
  define fd where "fd = rv (k h (Open CV2003_I2C_DEV O_RDWR_NONBLOCK))"
  have "0 \<le> fd" "\<And>h fd req v. \<not> rv (k h (Ioctl fd req (Arg_val v))) < 0"
    using assms(1) by (simp_all add: files_ok_def fd_def not_less)
  then show ?thesis using assms(2)
    by (intro exI [of _ fd]) (simp add: SensorDevice_Init_def sys_def ioctl_eq not_less [symmetric] flip: fd_def)
qed

lemma Close_regs: "SensorDevice_Close k st h = (st', h') \<Longrightarrow>
    (\<forall>b r0. regfile b r0 h' = regfile b r0 h) \<and> g_fd st' < 0 \<and> st' = st\<lparr>g_fd := g_fd st'\<rparr>"
  by (auto simp: SensorDevice_Close_def split: if_splits)

definition cfg_of :: "int \<Rightarrow> sensor_cfg" where
  "cfg_of format = (if format = 0x204 then Sensor_Cfg_CV2003_MIPI_1080P30 else Sensor_Cfg_CV2003_MIPI_1080P25)"

definition bytes_table :: "(u16 \<times> u16) list \<Rightarrow> (u16 \<times> u8) list" where
  "bytes_table t = map (\<lambda>(r, v). (r, ucast v)) t"

lemma fold_bytes_table: "fold (\<lambda>(r, v) f. f(r := ucast v)) t f = fold (\<lambda>(r, v) f. f(r := v)) (bytes_table t) f"
  by (induction t arbitrary: f) (auto simp: bytes_table_def)

lemma cfg_counts: "take (unat (reg_count (cfg_of f))) (cfg_regs (cfg_of f)) = cfg_regs (cfg_of f)"
  by (simp add: cfg_of_def Sensor_Cfg_CV2003_MIPI_1080P30_def Sensor_Cfg_CV2003_MIPI_1080P25_def regs_1080p30_def regs_1080p25_def)

text \<open>The register tables say what the configuration records say.\<close>

lemma table_30: "bytes_table regs_1080p30 =
    (take 37 SENSOR_CFG_1080P25 @ [(0x3020, 0xca), (0x3021, 0x08)]) @ drop 39 SENSOR_CFG_1080P25"
  by (simp add: bytes_table_def regs_1080p30_def SENSOR_CFG_1080P25_def)

lemma table_25: "bytes_table regs_1080p25 = SENSOR_CFG_1080P25"
  by (simp add: bytes_table_def regs_1080p25_def SENSOR_CFG_1080P25_def)

lemma cfg_values:
  defines "R f \<equiv> fold (\<lambda>(r, v) g. g(r := v)) (bytes_table (cfg_regs (cfg_of f)) @ [(0x3141, 1)])"
  shows "R f g 0x3020 = ucast (cfg_v_cycle (cfg_of f))" "R f g 0x3021 = ucast (drop_bit 8 (cfg_v_cycle (cfg_of f)))"
    "R f g 0x3024 = ucast (cfg_h_cycle (cfg_of f))" "R f g 0x3025 = ucast (drop_bit 8 (cfg_h_cycle (cfg_of f)))"
    "R f g 0x303a = ucast (cfg_width (cfg_of f))" "R f g 0x303b = ucast (drop_bit 8 (cfg_width (cfg_of f)))"
    "R f g 0x3036 = ucast (cfg_height (cfg_of f))" "R f g 0x3037 = ucast (drop_bit 8 (cfg_height (cfg_of f)))"
  unfolding R_def fold_upd_eq
  by (cases "f = 0x204"; simp add: cfg_of_def Sensor_Cfg_CV2003_MIPI_1080P30_def Sensor_Cfg_CV2003_MIPI_1080P25_def
      bytes_table_def regs_1080p30_def regs_1080p25_def)+

lemma join_bytes: "push_bit 8 (ucast (ucast (drop_bit 8 w) :: u8)) OR ucast (ucast w :: u8) = (ucast (w :: u16) :: u32)"
  by (rule bit_word_eqI) (auto simp: bit_simps dest: bit_imp_le_length)

lemma pair_regs_join: "R lo = ucast w \<Longrightarrow> R (lo + 1) = ucast (drop_bit 8 (w :: u16)) \<Longrightarrow> pair_regs R lo = unat w"
proof -
  assume r: "R lo = ucast w" "R (lo + 1) = ucast (drop_bit 8 w)"
  have "unat (drop_bit 8 w) = unat w div 256" by (simp add: unat_drop_bit_eq drop_bit_nat_def)
  moreover have "unat w div 256 < 256" using unat_u16_less [of w] by simp
  ultimately show ?thesis by (simp add: pair_regs_def r unsigned_ucast_eq take_bit_eq_mod)
qed

lemma fmt_regs:
  assumes files: "files_ok k" and acks: "sensor_acks k 0x35 r0"
  shows "\<exists>st' h'. SetSensorFmt k f st h = (0, st', h') \<and> g_slave_addr st' = 0x35 \<and> 0 \<le> g_fd st' \<and>
     mipi_sensor.g_v_cycle st' = ucast (cfg_v_cycle (cfg_of f)) \<and> g_format st' = word_of_int f \<and>
     regfile 0x35 r0 h' = fold (\<lambda>(r, v) g. g(r := v)) (bytes_table (cfg_regs (cfg_of f)) @ [(0x3141, 1)]) (regfile 0x35 r0 h)"
proof -
  obtain st1 h1 where 1: "SensorDevice_Close k st h = (st1, h1)" by fastforce
  note c1 = Close_regs [OF 1]
  obtain fd h2 where 2: "SensorDevice_Init k 0x35 2 st1 h1 =
      (0, st1\<lparr>g_addr_mode := 2, g_slave_addr := 0x35, g_dev_path := Some CV2003_I2C_DEV, g_fd := fd\<rparr>, h2)"
    "0 \<le> fd" "regfile 0x35 r0 h2 = regfile 0x35 r0 h1" using Init_ok [OF files, of st1 "0x35" h1] c1 by metis
  define st2 where "st2 = st1\<lparr>g_addr_mode := 2, g_slave_addr := 0x35, g_dev_path := Some CV2003_I2C_DEV, g_fd := fd\<rparr>"
  define st3 where "st3 = st2\<lparr>mipi_sensor.g_v_cycle := ucast (cfg_v_cycle (cfg_of f)), g_format := word_of_int f\<rparr>"
  have a: "g_slave_addr st2 = 0x35" "g_slave_addr st3 = 0x35" by (simp_all add: st2_def st3_def)
  define h3 where "h3 = sys_h k (Usleep 10000) (cfg_loop k st2 (cfg_regs (cfg_of f)) h2)"
  have 3: "Sensor_Init k f st2 h2 = (0, st3, h3)"
    unfolding Sensor_Init_def cfg_of_def [symmetric] Let_def cfg_counts by (simp add: h3_def st3_def)
  define h4 where "h4 = Sensor_Write k st3 REG_STREAM_EN 0x01 h3"
  have "regfile 0x35 r0 (cfg_loop k st2 t h2) = fold (\<lambda>(r, v) f. f(r := ucast v)) t (regfile 0x35 r0 h2)" for t
    using regs_cfg_loop [of k st2 r0 t h2] acks a by simp
  then have r4: "regfile 0x35 r0 h4 = fold (\<lambda>(r, v) g. g(r := v)) (bytes_table (cfg_regs (cfg_of f)) @ [(0x3141, 1)]) (regfile 0x35 r0 h)"
    by (simp add: h4_def h3_def regs_write acks a reg_names fold_bytes_table 2(3) c1)
  obtain h5 where 5: "Sensor_Read k st3 REG_VCYC_LO h4 = (ucast (regfile 0x35 r0 h4 REG_VCYC_LO), h5)"
    "regfile 0x35 r0 h5 = regfile 0x35 r0 h4" using read_regs [OF acks a(2)] by blast
  obtain h6 where 6: "Sensor_Read k st3 REG_VCYC_HI h5 = (ucast (regfile 0x35 r0 h5 REG_VCYC_HI), h6)"
    "regfile 0x35 r0 h6 = regfile 0x35 r0 h5" using read_regs [OF acks a(2)] by blast
  have v: "regfile 0x35 r0 h4 REG_VCYC_LO = ucast (cfg_v_cycle (cfg_of f))"
    "regfile 0x35 r0 h5 REG_VCYC_HI = ucast (drop_bit 8 (cfg_v_cycle (cfg_of f)))"
    unfolding 5(2) r4 reg_names by (rule cfg_values)+
  have id: "st3\<lparr>mipi_sensor.g_v_cycle := ucast (cfg_v_cycle (cfg_of f))\<rparr> = st3" by (simp add: st3_def)
  define h7 where "h7 = sys_h k (Print (''cv2003: format=0x'' @ hex (unat (word_of_int f :: u32)) @ '' v_cycle=''
      @ dec (unat (mipi_sensor.g_v_cycle st3)) @ [LF])) h6"
  have "SetSensorFmt k f st h = (0, st3, h7)"
    unfolding SetSensorFmt_def 1 CV2003_DEFAULT_ADDR_def Let_def prod.case 2(1) st2_def [symmetric] 3 h4_def [symmetric] 5(1) 6(1)
      v ucast_u8_u16 join_bytes id h7_def ..
  moreover have "regfile 0x35 r0 h7 = regfile 0x35 r0 h4" by (simp add: h7_def 6(2) 5(2))
  moreover have "0 \<le> g_fd st3" "g_format st3 = word_of_int f" "mipi_sensor.g_v_cycle st3 = ucast (cfg_v_cycle (cfg_of f))"
    using 2(2) by (simp_all add: st3_def st2_def)
  ultimately show ?thesis using a(2) r4 by auto
qed

text \<open>C29: Format setup of the sensor library: with a sensor at the default address, either format leaves every
  register of its table at the table's value with the stream on and the others untouched; the frame length
  read back is the one the format's configuration record declares, and the timing and window registers hold
  the record's frame length, line length, width and height.\<close>
theorem SetSensorFmt_programs:
  assumes "files_ok k" and "sensor_acks k 0x35 r0"
  shows "\<exists>st' h'. SetSensorFmt k f st h = (0, st', h') \<and>
     mipi_sensor.g_v_cycle st' = ucast (cfg_v_cycle (cfg_of f)) \<and> g_format st' = word_of_int f \<and>
     (\<forall>r. regfile 0x35 r0 h' r =
        (case map_of (rev (bytes_table (cfg_regs (cfg_of f)) @ [(0x3141, 1)])) r of None \<Rightarrow> regfile 0x35 r0 h r | Some v \<Rightarrow> v)) \<and>
     pair_regs (regfile 0x35 r0 h') 0x3020 = unat (cfg_v_cycle (cfg_of f)) \<and>
     pair_regs (regfile 0x35 r0 h') 0x3024 = unat (cfg_h_cycle (cfg_of f)) \<and>
     pair_regs (regfile 0x35 r0 h') 0x303a = unat (cfg_width (cfg_of f)) \<and>
     pair_regs (regfile 0x35 r0 h') 0x3036 = unat (cfg_height (cfg_of f))"
proof -
  from fmt_regs [OF assms, of f st h] obtain st' h' where
    1: "SetSensorFmt k f st h = (0, st', h')" "mipi_sensor.g_v_cycle st' = ucast (cfg_v_cycle (cfg_of f))"
       "g_format st' = word_of_int f"
       "regfile 0x35 r0 h' = fold (\<lambda>(r, v) g. g(r := v)) (bytes_table (cfg_regs (cfg_of f)) @ [(0x3141, 1)]) (regfile 0x35 r0 h)"
    by blast
  note R = cfg_values [of f "regfile 0x35 r0 h", folded 1(4)]
  have "pair_regs (regfile 0x35 r0 h') 0x3020 = unat (cfg_v_cycle (cfg_of f))"
    "pair_regs (regfile 0x35 r0 h') 0x3024 = unat (cfg_h_cycle (cfg_of f))"
    "pair_regs (regfile 0x35 r0 h') 0x303a = unat (cfg_width (cfg_of f))"
    "pair_regs (regfile 0x35 r0 h') 0x3036 = unat (cfg_height (cfg_of f))"
    by (rule pair_regs_join; simp add: R)+
  moreover have "\<forall>r. regfile 0x35 r0 h' r =
      (case map_of (rev (bytes_table (cfg_regs (cfg_of f)) @ [(0x3141, 1)])) r of None \<Rightarrow> regfile 0x35 r0 h r | Some v \<Rightarrow> v)"
    unfolding 1(4) fold_upd_eq by (rule allI) (rule refl)
  ultimately show ?thesis using 1(1-3) by blast
qed

lemma SetSensorFmt_programs_witness:
  "\<exists>st' h'. SetSensorFmt (k_sensor 0x35 cv2003_regs) 0x204 mipi_sensor0 [] = (0, st', h') \<and>
     mipi_sensor.g_v_cycle st' = ucast (cfg_v_cycle (cfg_of 0x204)) \<and>
     pair_regs (regfile 0x35 cv2003_regs h') 0x3020 = unat (cfg_v_cycle (cfg_of 0x204))"
  using SetSensorFmt_programs [OF k_sensor_files k_sensor_acks, of cv2003_regs "0x204" mipi_sensor0 "[]"] by blast

section \<open>The two drivers agree\<close>

definition exposure_gain_regs :: "u16 set" where
  "exposure_gain_regs = {0x3048, 0x3049, 0x304a, 0x3154, 0x314c, 0x314d}"

text \<open>C28: The streamer's library and the plain driver set the sensor up alike: started from the same registers,
  both leave the same content in every register outside those of exposure and gain, and both keep the same
  frame length.\<close>
theorem drivers_agree:
  assumes "files_ok k" and "sensor_acks k 0x35 r0" and "g_i2c_addr cv = 0x35"
    and "regfile 0x35 r0 h1 = regfile 0x35 r0 h2"
  shows "\<exists>cv' h1' st' h2'. cv2003_set_format k cv h1 = (0, cv', h1') \<and> SetSensorFmt k 0x203 st h2 = (0, st', h2') \<and>
     cv2003.g_v_cycle cv' = mipi_sensor.g_v_cycle st' \<and>
     (\<forall>r. r \<notin> exposure_gain_regs \<longrightarrow> regfile 0x35 r0 h1' r = regfile 0x35 r0 h2' r)"
proof -
  from set_format_regs [OF assms(1-3), of h1] obtain fd h1' where
    1: "cv2003_set_format k cv h1 = (0, \<lparr>g_i2c_fd = fd, g_i2c_addr = 0x35, g_v_cycle = 2700\<rparr>, h1')"
       "regfile 0x35 r0 h1' = fold (\<lambda>(r, v) f. f(r := v)) (SENSOR_CFG_1080P25 @ started) (regfile 0x35 r0 h1)" by blast
  from fmt_regs [OF assms(1,2), of "0x203" st h2] obtain st' h2' where
    2: "SetSensorFmt k 0x203 st h2 = (0, st', h2')" "mipi_sensor.g_v_cycle st' = ucast (cfg_v_cycle (cfg_of 0x203))"
       "regfile 0x35 r0 h2' = fold (\<lambda>(r, v) f. f(r := v)) (bytes_table (cfg_regs (cfg_of 0x203)) @ [(0x3141, 1)]) (regfile 0x35 r0 h2)"
    by blast
  have c: "bytes_table (cfg_regs (cfg_of 0x203)) = SENSOR_CFG_1080P25" "cfg_v_cycle (cfg_of 0x203) = 2700"
    by (simp_all add: cfg_of_def Sensor_Cfg_CV2003_MIPI_1080P25_def table_25)
  define F where "F = fold (\<lambda>(r, v) f. f(r := v)) SENSOR_CFG_1080P25 (regfile 0x35 r0 h1)"
  have m: "F 0x3804 = 0x10" unfolding F_def fold_upd_eq by (simp add: SENSOR_CFG_1080P25_def)
  have "regfile 0x35 r0 h1' r = regfile 0x35 r0 h2' r" if "r \<notin> exposure_gain_regs" for r
    using that unfolding 1(2) 2(3) c(1) assms(4) [symmetric] fold_append comp_apply F_def [symmetric]
    by (simp add: exposure_gain_regs_def started_def m)
  then show ?thesis using 1(1) 2(1,2) c(2)
    by (intro exI [of _ "\<lparr>g_i2c_fd = fd, g_i2c_addr = 0x35, g_v_cycle = 2700\<rparr>"] exI [of _ h1'] exI [of _ st'] exI [of _ h2']) simp
qed

lemma drivers_agree_witness:
  "\<exists>cv' h1' st' h2'. cv2003_set_format (k_sensor 0x35 cv2003_regs) (cv2003_0\<lparr>g_i2c_addr := 0x35\<rparr>) [] = (0, cv', h1') \<and>
     SetSensorFmt (k_sensor 0x35 cv2003_regs) 0x203 mipi_sensor0 [] = (0, st', h2') \<and>
     cv2003.g_v_cycle cv' = mipi_sensor.g_v_cycle st' \<and>
     (\<forall>r. r \<notin> exposure_gain_regs \<longrightarrow> regfile 0x35 cv2003_regs h1' r = regfile 0x35 cv2003_regs h2' r)"
  by (rule drivers_agree [OF k_sensor_files k_sensor_acks]) simp_all

section \<open>Exposure\<close>

lemma intt_lines_nat:
  assumes "12 \<le> unat v" "unat v < 2 ^ 24"
  shows "unat (intt_lines v i) =
     (if unat i \<le> unat v then min (unat v - 4) (max 8 (unat v - unat i)) else min (unat v - 4) (2 ^ 32 + unat v - unat i))"
proof -
  have v4: "unat (v - 4) = unat v - 4" by (subst unat_minus_nowrap) (use assms(1) in \<open>auto simp: word_le_nat_alt\<close>)
  show ?thesis
  proof (cases "unat i \<le> unat v")
    case True
    then have sub: "unat (v - i) = unat v - unat i" by (subst unat_minus_nowrap) (auto simp: word_le_nat_alt)
    show ?thesis using assms True by (auto simp: intt_lines_def Let_def word_less_nat_alt sub v4 min_def max_def)
  next
    case False
    have sub: "unat (v - i) = 2 ^ 32 + unat v - unat i"
      using False unat_u32_less [of i] unat_u32_less [of v] by (simp add: unat_sub_if_size word_size)
    have "8 \<le> 2 ^ 32 + unat v - unat i" using assms(1) unat_u32_less [of i] by simp
    then show ?thesis using assms False by (auto simp: intt_lines_def Let_def word_less_nat_alt sub v4 min_def max_def)
  qed
qed

lemma regs_SetIntt:
  assumes "sensor_acks k a r0" and "g_slave_addr st = a" and "12 \<le> unat (mipi_sensor.g_v_cycle st)"
    and "unat (mipi_sensor.g_v_cycle st) < 2 ^ 24"
  shows "\<exists>h'. SetIntt k i st h = (0, st\<lparr>g_exposure := i\<rparr>, h') \<and>
     exposure_regs (regfile a r0 h') = unat (intt_lines (mipi_sensor.g_v_cycle st) i) \<and>
     (\<forall>r. r \<notin> {0x3048, 0x3049, 0x304a} \<longrightarrow> regfile a r0 h' r = regfile a r0 h r)"
proof -
  have "unat (intt_lines (mipi_sensor.g_v_cycle st) i) < 2 ^ 24"
    using assms(3,4) unfolding intt_lines_nat [OF assms(3,4)] by auto
  note b = three_bytes [OF this]
  have low: "(ucast (drop_bit n w AND 0xFF :: u32) :: u8) = ucast (drop_bit n w)" for n and w :: u32
    by (rule ucast_and_low8)
  have "g_slave_addr (st\<lparr>g_exposure := i\<rparr>) = a" using assms(2) by simp
  note W = regs_write [OF assms(1) this]
  show ?thesis
    unfolding SetIntt_def Let_def prod.inject
    by (rule exI, rule conjI, rule conjI, rule refl, rule conjI, rule refl, rule refl, rule conjI)
      (simp_all only: W, use b in \<open>simp_all add: exposure_regs_def reg_names ucast_low8_16 ucast_and_low8\<close>)
qed

text \<open>A library that was set up for the default address.\<close>

definition camera35 :: mipi_sensor where
  "camera35 = mipi_sensor0\<lparr>g_slave_addr := 0x35\<rparr>"

lemma camera35: "g_slave_addr camera35 = 0x35" "mipi_sensor.g_v_cycle camera35 = 2700"
  by (simp_all add: camera35_def mipi_sensor0_def)

text \<open>C32: Exposure control of the library: the exposure that \<open>CalcSnsValidIntt\<close> returns is the requested one
  clamped to the frame length less 4; setting it puts the frame length less the exposure, but at least 8
  and at most the frame length less 4, into the three exposure registers and into no other, and
  \<open>GetAEInfo\<close> reports the exposure, the gain and the frame length.\<close>
theorem exposure_control:
  assumes "sensor_acks k a r0" and "g_slave_addr st = a" and "12 \<le> unat (mipi_sensor.g_v_cycle st)"
    and "unat (mipi_sensor.g_v_cycle st) < 2 ^ 24"
  shows "\<exists>i' h'. CalcSnsValidIntt (Some i) st = (0, Some i') \<and>
     unat i' = min (unat i) (unat (mipi_sensor.g_v_cycle st) - 4) \<and>
     SetIntt k i' st h = (0, st\<lparr>g_exposure := i'\<rparr>, h') \<and>
     exposure_regs (regfile a r0 h') =
       min (unat (mipi_sensor.g_v_cycle st) - 4) (max 8 (unat (mipi_sensor.g_v_cycle st) - unat i')) \<and>
     (\<forall>r. r \<notin> {0x3048, 0x3049, 0x304a} \<longrightarrow> regfile a r0 h' r = regfile a r0 h r) \<and>
     GetAEInfo (Some [x, y, z]) (st\<lparr>g_exposure := i'\<rparr>) = (0, Some [i', g_gain st, mipi_sensor.g_v_cycle st])"
proof -
  let ?v = "mipi_sensor.g_v_cycle st"
  define i' where "i' = (if ?v - 4 < i then ?v - 4 else i)"
  have v4: "unat (?v - 4) = unat ?v - 4" by (subst unat_minus_nowrap) (use assms(3) in \<open>auto simp: word_le_nat_alt\<close>)
  have u: "unat i' = min (unat i) (unat ?v - 4)" by (auto simp: i'_def word_less_nat_alt v4 min_def)
  then have le: "unat i' \<le> unat ?v" by simp
  obtain h' where h': "SetIntt k i' st h = (0, st\<lparr>g_exposure := i'\<rparr>, h')"
    "exposure_regs (regfile a r0 h') = unat (intt_lines ?v i')"
    "\<forall>r. r \<notin> {0x3048, 0x3049, 0x304a} \<longrightarrow> regfile a r0 h' r = regfile a r0 h r"
    using regs_SetIntt [OF assms] by blast
  have v: "unat (intt_lines ?v i') = min (unat ?v - 4) (max 8 (unat ?v - unat i'))"
    unfolding intt_lines_nat [OF assms(3,4)] if_P [OF le] ..
  have c: "CalcSnsValidIntt (Some i) st = (0, Some i')" by (simp add: CalcSnsValidIntt_def i'_def)
  have g: "GetAEInfo (Some [x, y, z]) (st\<lparr>g_exposure := i'\<rparr>) = (0, Some [i', g_gain st, ?v])"
    by (simp add: GetAEInfo_def overlay_def)
  show ?thesis
    by (rule exI [of _ i'], rule exI [of _ h'], intro conjI)
      (rule c, rule u, rule h'(1), rule trans [OF h'(2) v], rule h'(3), rule g)
qed

lemma exposure_control_witness:
  "\<exists>i' h'. CalcSnsValidIntt (Some 5000) camera35 = (0, Some i') \<and> unat i' = 2696 \<and>
     SetIntt (k_sensor 0x35 cv2003_regs) i' camera35 [] = (0, camera35\<lparr>g_exposure := i'\<rparr>, h') \<and>
     exposure_regs (regfile 0x35 cv2003_regs h') = 8"
proof -
  have n: "unat (5000 :: u32) = 5000" "unat (2700 :: u32) = 2700" by simp_all
  from exposure_control [OF k_sensor_acks camera35(1), of 5000 cv2003_regs "[]" 0 0 0] obtain i' h' where
    "CalcSnsValidIntt (Some 5000) camera35 = (0, Some i')" "unat i' = min 5000 (2700 - 4)"
    "SetIntt (k_sensor 0x35 cv2003_regs) i' camera35 [] = (0, camera35\<lparr>g_exposure := i'\<rparr>, h')"
    "exposure_regs (regfile 0x35 cv2003_regs h') = min (2700 - 4) (max 8 (2700 - unat i'))"
    unfolding camera35(2) n by auto
  then show ?thesis by (intro exI [of _ i'] exI [of _ h']) simp
qed

text \<open>Error behaviour of \<open>SetIntt\<close>: an exposure slightly longer than the frame, which a caller that skips
  the clamp may pass, makes the difference wrap around, and the registers end up at the frame length
  less 4: the sensor gets the same setting as for an exposure of at most 4 lines, the shortest one.\<close>
lemma SetIntt_too_long_is_shortest:
  assumes "sensor_acks k a r0" and "g_slave_addr st = a" and "12 \<le> unat (mipi_sensor.g_v_cycle st)"
    and "unat (mipi_sensor.g_v_cycle st) < 2 ^ 24"
    and "unat (mipi_sensor.g_v_cycle st) < unat i" and "unat j \<le> 4"
  shows "exposure_regs (regfile a r0 (snd (snd (SetIntt k i st h)))) = unat (mipi_sensor.g_v_cycle st) - 4 \<and>
     exposure_regs (regfile a r0 (snd (snd (SetIntt k i st h)))) = exposure_regs (regfile a r0 (snd (snd (SetIntt k j st h))))"
proof -
  let ?v = "mipi_sensor.g_v_cycle st"
  obtain h1 where 1: "SetIntt k i st h = (0, st\<lparr>g_exposure := i\<rparr>, h1)" "exposure_regs (regfile a r0 h1) = unat (intt_lines ?v i)"
    using regs_SetIntt [OF assms(1-4)] by blast
  obtain h2 where 2: "SetIntt k j st h = (0, st\<lparr>g_exposure := j\<rparr>, h2)" "exposure_regs (regfile a r0 h2) = unat (intt_lines ?v j)"
    using regs_SetIntt [OF assms(1-4)] by blast
  have f: "\<not> unat i \<le> unat ?v" using assms(5) by linarith
  have "unat i \<le> 2 ^ 32" using unat_u32_less [of i] by simp
  then have v1: "unat (intt_lines ?v i) = unat ?v - 4"
    unfolding intt_lines_nat [OF assms(3,4)] if_not_P [OF f] by (intro min_absorb1) linarith
  have t: "unat j \<le> unat ?v" using assms(3,6) by linarith
  have v2: "unat (intt_lines ?v j) = unat ?v - 4"
    unfolding intt_lines_nat [OF assms(3,4)] if_P [OF t] using assms(6) by (intro min_absorb1) linarith
  show ?thesis unfolding 1(1) 2(1) snd_conv 1(2) 2(2) v1 v2 by (intro conjI refl)
qed

lemma SetIntt_too_long_is_shortest_witness:
  "exposure_regs (regfile 0x35 cv2003_regs (snd (snd (SetIntt (k_sensor 0x35 cv2003_regs) 2701 camera35 [])))) = 2696"
proof -
  have n: "unat (2701 :: u32) = 2701" "unat (2700 :: u32) = 2700" "unat (0 :: u32) = 0" by simp_all
  show ?thesis
    using SetIntt_too_long_is_shortest [OF k_sensor_acks camera35(1), of 2701 0 cv2003_regs "[]"]
    unfolding camera35(2) n by simp
qed

section \<open>Gain\<close>

lemma lut_loop_spec:
  "lut_loop g t i = i + length (takeWhile (\<lambda>e. \<not> g \<le> ucast e) t)"
  by (induction t arbitrary: i) auto

lemma ucast_of_nat_u8: "(ucast (word_of_nat n :: u32) :: u8) = word_of_nat n"
  by (rule bit_word_eqI) (auto simp: bit_simps)

lemma length_gain_lut: "length gain_lut = 69"
  by (simp add: gain_lut_def)

lemma lut_idx_spec:
  assumes "unat g \<le> 1024"
  shows "lut_idx g < 69 \<and> unat g \<le> unat (gain_lut ! lut_idx g) \<and> (\<forall>j < lut_idx g. unat (gain_lut ! j) < unat g)"
proof -
  let ?t = "take 68 gain_lut" and ?P = "\<lambda>e :: u16. \<not> g \<le> ucast e"
  have idx: "lut_idx g = length (takeWhile ?P ?t)" by (simp add: lut_idx_def lut_loop_spec GAIN_LUT_SIZE_def length_gain_lut)
  have le: "lut_idx g \<le> 68" using takeWhile_length_le [of ?P ?t] by (simp add: idx length_gain_lut)
  have "unat (gain_lut ! j) < unat g" if "j < lut_idx g" for j
  proof -
    have "takeWhile ?P ?t ! j = ?t ! j" using that by (simp add: idx takeWhile_nth)
    moreover have "?P (takeWhile ?P ?t ! j)" using that by (metis idx nth_mem set_takeWhileD)
    ultimately show ?thesis using that le by (simp add: word_le_nat_alt unat_ucast_16_32)
  qed
  moreover have "unat g \<le> unat (gain_lut ! lut_idx g)"
  proof (cases "lut_idx g = 68")
    case True
    then show ?thesis using assms by (simp add: gain_lut_def)
  next
    case False
    with le have "lut_idx g < length ?t" by (simp add: length_gain_lut)
    then have "\<not> ?P (?t ! lut_idx g)" unfolding idx by (rule nth_length_takeWhile)
    moreover have "?t ! lut_idx g = gain_lut ! lut_idx g" using False le by simp
    ultimately show ?thesis by (simp add: word_le_nat_alt unat_ucast_16_32)
  qed
  ultimately show ?thesis using le by simp
qed

text \<open>C33: Gain control of the library: every gain that \<open>CalcSnsValidGain\<close> returns is the requested one clamped to
  the range from 64 to 1024; setting it selects the normal gain mode and the first entry of the table that
  is at least the gain. The two fine gain registers always hold 64, whatever the gain: the value computed
  for them, the gain divided by 32, stays under its lower clamp.\<close>
theorem gain_control:
  assumes "sensor_acks k a r0" and "g_slave_addr st = a"
  shows "\<exists>g' h'. CalcSnsValidGain (Some g) = (0, Some g') \<and> unat g' = min 1024 (max 64 (unat g)) \<and>
     SetGain k g' st h = (0, st\<lparr>g_gain := g'\<rparr>, h') \<and>
     regfile a r0 h' 0x3804 = 0x10 \<and> regfile a r0 h' 0x314d = 0 \<and> regfile a r0 h' 0x314c = 0x40 \<and>
     (let n = unat (regfile a r0 h' 0x3154) in
        unat g' \<le> unat (gain_lut ! n) \<and> (\<forall>j < n. unat (gain_lut ! j) < unat g')) \<and>
     (\<forall>r. r \<notin> {0x3804, 0x3154, 0x314d, 0x314c} \<longrightarrow> regfile a r0 h' r = regfile a r0 h r)"
proof -
  define g' where "g' = (let x = (if g < 0x40 then 0x40 else g) in if 0x400 < x then 0x400 else x)"
  have u: "unat g' = min 1024 (max 64 (unat g))" by (auto simp: g'_def Let_def word_less_nat_alt)
  have lt: "g' < 0x401" using u by (simp add: word_less_nat_alt)
  have "drop_bit 5 g' < 0x40" using u by (simp add: word_less_nat_alt unat_drop_bit_u32)
  then have rg: "reg_gain g' = 0x40" by (simp add: reg_gain_def Let_def)
  note idx = lut_idx_spec [of g']
  have "g_slave_addr (st\<lparr>g_gain := g'\<rparr>) = a" using assms(2) by simp
  note W = regs_write [OF assms(1) this]
  define h' where "h' = snd (snd (SetGain k g' st h))"
  have S: "SetGain k g' st h = (0, st\<lparr>g_gain := g'\<rparr>, h')" by (simp add: h'_def SetGain_def Let_def)
  have R: "regfile a r0 h' = (regfile a r0 h)(0x3804 := 0x10, 0x3154 := word_of_nat (lut_idx g'), 0x314d := 0, 0x314c := 0x40)"
    unfolding h'_def SetGain_def Let_def snd_conv by (simp add: W lt rg reg_names ucast_low8_16 ucast_and_low8 ucast_of_nat_u8 del: fun_upd_apply)
  have n: "unat (regfile a r0 h' 0x3154) = lut_idx g'" using idx u by (simp add: R unat_of_nat)
  have "CalcSnsValidGain (Some g) = (0, Some g')" by (simp add: CalcSnsValidGain_def g'_def Let_def)
  then show ?thesis using u S n idx
    by (intro exI [of _ g'] exI [of _ h']) (simp add: R)
qed

lemma gain_control_witness:
  "\<exists>g' h'. CalcSnsValidGain (Some 2000) = (0, Some g') \<and> unat g' = 1024 \<and>
     SetGain (k_sensor 0x35 cv2003_regs) g' camera35 [] = (0, camera35\<lparr>g_gain := g'\<rparr>, h') \<and>
     regfile 0x35 cv2003_regs h' 0x314c = 0x40"
proof -
  from gain_control [OF k_sensor_acks camera35(1), of 2000 cv2003_regs "[]"] obtain g' h' where
    "CalcSnsValidGain (Some 2000) = (0, Some g')" "unat g' = min 1024 (max 64 (unat (2000 :: u32)))"
    "SetGain (k_sensor 0x35 cv2003_regs) g' camera35 [] = (0, camera35\<lparr>g_gain := g'\<rparr>, h')"
    "regfile 0x35 cv2003_regs h' 0x314c = 0x40" by blast
  then show ?thesis by (intro exI [of _ g'] exI [of _ h']) simp
qed

section \<open>Mirroring\<close>

lemma swap_bits_bit:
  "bit (swap_bits (v :: 'a::len word)) n \<longleftrightarrow> n < LENGTH('a) \<and> (n = 1 \<and> bit v 0 \<or> n = 0 \<and> 1 < LENGTH('a) \<and> bit v 1)"
  unfolding swap_bits_def bit_or_iff bit_push_bit_iff bit_and_iff bit_drop_bit_eq bit_1_iff comp_apply possible_bit_word
  by (cases n) (auto dest: bit_imp_le_length)

lemma flip_value:
  fixes b :: u8 and mode :: u32
  defines "val \<equiv> ucast (ucast b AND 0xFC :: u16) OR ucast (swap_bits mode) :: u8"
  shows "swap_bits (ucast val :: u32) = mode AND 3" "val AND 0xFC = b AND 0xFC"
proof -
  have m: "(0xFC :: u16) = mask 8 AND NOT (mask 2)" "(0xFC :: u8) = NOT (mask 2)" "(3 :: u32) = mask 2"
    by (simp_all add: mask_eq_exp_minus_1)
  have val: "bit val n \<longleftrightarrow> n < 8 \<and> (2 \<le> n \<and> bit b n \<or> n = 1 \<and> bit mode 0 \<or> n = 0 \<and> bit mode 1)" for n
    unfolding val_def m(1) by (auto simp: bit_simps swap_bits_bit simp del: mask_numeral)
  show "swap_bits (ucast val :: u32) = mode AND 3"
    unfolding m(3) by (rule bit_word_eqI) (auto simp: swap_bits_bit bit_simps val less_2_cases_iff simp del: mask_numeral)
  show "val AND 0xFC = b AND 0xFC"
    unfolding m(2) by (rule bit_word_eqI) (auto simp: bit_simps val simp del: mask_numeral)
qed

text \<open>C35: Mirroring round trip: reading the mirror mode back returns the two bits that were set, the six other
  bits of the register and all other registers keep their content.\<close>
theorem flip_mirror_round_trip:
  assumes "sensor_acks k a r0" and "g_slave_addr st = a"
  shows "\<exists>h1 h2. SetSensorFlipMirror k mode st h = (0, h1) \<and>
     GetSensorFlipMirror k (Some x) st h1 = (0, Some (mode AND 3), h2) \<and>
     regfile a r0 h2 0x3028 AND 0xFC = regfile a r0 h 0x3028 AND 0xFC \<and>
     (\<forall>r. r \<noteq> 0x3028 \<longrightarrow> regfile a r0 h2 r = regfile a r0 h r)"
proof -
  let ?b = "regfile a r0 h 0x3028"
  define val where "val = (ucast (ucast ?b AND 0xFC :: u16) OR ucast (swap_bits mode) :: u8)"
  obtain h0 where 0: "Sensor_Read k st 0x3028 h = (ucast ?b, h0)" "regfile a r0 h0 = regfile a r0 h"
    using read_regs [OF assms] by blast
  define h1 where "h1 = Sensor_Write k st 0x3028 (ucast val) h0"
  have r1: "regfile a r0 h1 = (regfile a r0 h)(0x3028 := val)"
    by (simp add: h1_def regs_write [OF assms] 0(2))
  have s: "SetSensorFlipMirror k mode st h = (0, h1)"
    unfolding SetSensorFlipMirror_def REG_FLIP_MIRROR_def 0(1) Let_def prod.case h1_def val_def ..
  obtain h2 where 2: "Sensor_Read k st 0x3028 h1 = (ucast (regfile a r0 h1 0x3028), h2)" "regfile a r0 h2 = regfile a r0 h1"
    using read_regs [OF assms] by blast
  have v: "regfile a r0 h1 0x3028 = val" by (simp add: r1)
  have g: "GetSensorFlipMirror k (Some x) st h1 = (0, Some (swap_bits (ucast val)), h2)"
    unfolding GetSensorFlipMirror_def REG_FLIP_MIRROR_def option.case 2(1) Let_def prod.case v ucast_u8_u16 ..
  note fv = flip_value [of ?b mode, folded val_def]
  show ?thesis
    by (rule exI [of _ h1], rule exI [of _ h2]) (simp only: s g fv 2(2) r1 fun_upd_same fun_upd_other, simp)
qed

lemma flip_mirror_round_trip_witness:
  "\<exists>h1 h2. SetSensorFlipMirror (k_sensor 0x35 cv2003_regs) 2 camera35 [] = (0, h1) \<and>
     GetSensorFlipMirror (k_sensor 0x35 cv2003_regs) (Some 0) camera35 h1 = (0, Some 2, h2)"
proof -
  have "(2 AND 3 :: u32) = 2" by simp
  then show ?thesis using flip_mirror_round_trip [OF k_sensor_acks camera35(1), of cv2003_regs 2 "[]" 0] by metis
qed

section \<open>Detection\<close>

lemma read_absent:
  "sensor_absent k (g_slave_addr st) \<Longrightarrow> \<exists>h'. Sensor_Read k st r h = (0xFFFF, h') \<and> (\<forall>b r0. regfile b r0 h' = regfile b r0 h)"
  by (simp add: Sensor_Read_def I2CSensor_Read_def sensor_absent_def read_msgs_def sys_def os_simps I2C_RDWR_def)

lemma write_elsewhere: "b \<noteq> g_slave_addr st \<Longrightarrow> regfile b r0 (Sensor_Write k st r v h) = regfile b r0 h"
  by (simp add: Sensor_Write_defs ioctl_eq stored_write_other)

lemma cfg_loop_elsewhere: "b \<noteq> g_slave_addr st \<Longrightarrow> regfile b r0 (cfg_loop k st t h) = regfile b r0 h"
  by (induction t arbitrary: h) (auto simp: write_elsewhere)

lemma ucast_eq_small:
  "(ucast (b :: u8) :: u16) = 0x02 \<longleftrightarrow> b = 0x02" "(ucast (b :: u8) :: u16) = 0x20 \<longleftrightarrow> b = 0x20"
  "(ucast (b :: u8) :: u16) = 0x03 \<longleftrightarrow> b = 0x03"
proof -
  have inj: "(ucast b :: u16) = ucast c \<longleftrightarrow> b = c" for c :: u8 by (metis ucast_u8_u16)
  show "(ucast b :: u16) = 0x02 \<longleftrightarrow> b = 0x02" "(ucast b :: u16) = 0x20 \<longleftrightarrow> b = 0x20" "(ucast b :: u16) = 0x03 \<longleftrightarrow> b = 0x03"
    using inj [of 2] inj [of 32] inj [of 3] by simp_all
qed

lemma connect_step:
  assumes files: "files_ok k" and fd: "g_fd st < 0"
    and resp: "sensor_acks k x r0 \<and> P = ((r0 0x307a = 0x02 \<or> r0 0x307a = 0x20) \<and> r0 0x3138 = 0x03) \<and> regfile x r0 h = r0 \<or>
        sensor_absent k x \<and> P = False"
  shows "\<exists>st' h'. connect_loop k (x # xs) st h = (if P then (1, st'\<lparr>g_slave_addr := x\<rparr>, h') else connect_loop k xs st' h') \<and>
      g_fd st' < 0 \<and> (\<forall>b r0. regfile b r0 h' = regfile b r0 h)"
proof -
  obtain fd h1 where 1: "SensorDevice_Init k x 2 st h =
      (0, st\<lparr>g_addr_mode := 2, g_slave_addr := x, g_dev_path := Some CV2003_I2C_DEV, g_fd := fd\<rparr>, h1)"
    "\<forall>b r0. regfile b r0 h1 = regfile b r0 h" using Init_ok [OF files fd, of x h] by blast
  define st1 where "st1 = st\<lparr>g_addr_mode := 2, g_slave_addr := x, g_dev_path := Some CV2003_I2C_DEV, g_fd := fd\<rparr>"
  have a1: "g_slave_addr st1 = x" by (simp add: st1_def)
  obtain p1 h2 where 2: "Sensor_Read k st1 0x307a h1 = (p1, h2)" by fastforce
  obtain p2 h3 where 3: "Sensor_Read k st1 0x3138 h2 = (p2, h3)" by fastforce
  have quiet: "regfile b r (snd (Sensor_Read k st1 reg g)) = regfile b r g" for b r reg g
    by (simp add: Sensor_Read_def I2CSensor_Read_def sys_def os_simps)
  have q: "\<forall>b r0. regfile b r0 h3 = regfile b r0 h"
    using quiet [of _ _ "0x307a" h1] quiet [of _ _ "0x3138" h2] 1(2) 2 3 by simp
  have P: "P = ((p1 = 0x02 \<or> p1 = 0x20) \<and> p2 = 0x03)"
    using resp
  proof
    assume t: "sensor_acks k x r0 \<and> P = ((r0 0x307a = 0x02 \<or> r0 0x307a = 0x20) \<and> r0 0x3138 = 0x03) \<and> regfile x r0 h = r0"
    have acks: "sensor_acks k x r0" using t ..
    have "p1 = ucast (r0 0x307a)" using Sensor_Read_ok [of k st1 r0 "0x307a" h1] acks a1 2 1(2) t by simp
    moreover have "p2 = ucast (r0 0x3138)"
      using Sensor_Read_ok [of k st1 r0 "0x3138" h2] acks a1 3 quiet [of x r0 "0x307a" h1] 2 1(2) t by simp
    moreover note ucast_eq_small
    ultimately show ?thesis using t by simp
  next
    assume t: "sensor_absent k x \<and> P = False"
    then have "p1 = 0xFFFF" using read_absent [of k st1 "0x307a" h1] a1 2 by auto
    then show ?thesis using t by simp
  qed
  define h4 where "h4 = sys_h k (Print (''cv2003: addr=0x'' @ hex (unat x) @ '' pid1=0x'' @ hex (unat p1)
                @ '' pid2=0x'' @ hex (unat p2) @ [LF])) h3"
  obtain st5 h5 where 5: "SensorDevice_Close k st1 h4 = (st5, h5)" by fastforce
  have "connect_loop k (x # xs) st h = (if P then (1, st5\<lparr>g_slave_addr := x\<rparr>, h5) else connect_loop k xs st5 h5)"
    by (simp only: connect_loop.simps REG_PID1_def REG_PID2_def Let_def 1(1) prod.case st1_def [symmetric] 2 3 h4_def [symmetric] 5 P)
  moreover have "\<forall>b r0. regfile b r0 h5 = regfile b r0 h" using Close_regs [OF 5] q by (simp add: h4_def)
  ultimately show ?thesis using Close_regs [OF 5] by blast
qed

lemma fmt_absent:
  assumes files: "files_ok k" and gone: "sensor_absent k 0x35" and b: "b \<noteq> 0x35"
  shows "\<exists>st' h'. SetSensorFmt k f st h = (0, st', h') \<and> g_slave_addr st' = 0x35 \<and> mipi_sensor.g_v_cycle st' = 0xFFFF \<and>
     regfile b r0 h' = regfile b r0 h"
proof -
  obtain st1 h1 where 1: "SensorDevice_Close k st h = (st1, h1)" by fastforce
  note c1 = Close_regs [OF 1]
  obtain fd h2 where 2: "SensorDevice_Init k 0x35 2 st1 h1 =
      (0, st1\<lparr>g_addr_mode := 2, g_slave_addr := 0x35, g_dev_path := Some CV2003_I2C_DEV, g_fd := fd\<rparr>, h2)"
    "\<forall>b r0. regfile b r0 h2 = regfile b r0 h1" using Init_ok [OF files, of st1 "0x35" h1] c1 by blast
  define st2 where "st2 = st1\<lparr>g_addr_mode := 2, g_slave_addr := 0x35, g_dev_path := Some CV2003_I2C_DEV, g_fd := fd\<rparr>"
  define st3 where "st3 = st2\<lparr>mipi_sensor.g_v_cycle := ucast (cfg_v_cycle (cfg_of f)), g_format := word_of_int f\<rparr>"
  have a: "g_slave_addr st2 = 0x35" "g_slave_addr st3 = 0x35" by (simp_all add: st2_def st3_def)
  define h3 where "h3 = sys_h k (Usleep 10000) (cfg_loop k st2 (cfg_regs (cfg_of f)) h2)"
  have 3: "Sensor_Init k f st2 h2 = (0, st3, h3)"
    unfolding Sensor_Init_def cfg_of_def [symmetric] Let_def cfg_counts by (simp add: h3_def st3_def)
  define h4 where "h4 = Sensor_Write k st3 REG_STREAM_EN 0x01 h3"
  have r4: "regfile b r0 h4 = regfile b r0 h"
    using b a by (simp add: h4_def h3_def write_elsewhere cfg_loop_elsewhere 2(2) c1)
  have ab: "sensor_absent k (g_slave_addr st3)" using gone a by simp
  obtain h5 where 5: "Sensor_Read k st3 REG_VCYC_LO h4 = (0xFFFF, h5)" "\<forall>b r0. regfile b r0 h5 = regfile b r0 h4"
    using read_absent [OF ab] by blast
  obtain h6 where 6: "Sensor_Read k st3 REG_VCYC_HI h5 = (0xFFFF, h6)" "\<forall>b r0. regfile b r0 h6 = regfile b r0 h5"
    using read_absent [OF ab] by blast
  have "(push_bit 8 (ucast (ucast (0xFFFF :: u16) :: u8)) OR ucast (ucast (0xFFFF :: u16) :: u8) :: u32) = 0xFFFF" by simp
  then show ?thesis
    unfolding SetSensorFmt_def 1 CV2003_DEFAULT_ADDR_def Let_def prod.case 2(1) st2_def [symmetric] 3 h4_def [symmetric] 5(1) 6(1)
    by (simp add: a r4 5(2) 6(2))
qed

text \<open>C36: A sensor at the alternate address is detected but not used: \<open>Sensor_Isconnect\<close> reports it and
  remembers its address, yet setting the format afterwards goes to the default address again. Nothing is
  written to the sensor, the call still reports success, and the frame length kept is the all-ones value of
  a failed read.\<close>
theorem alternate_address_lost:
  assumes "files_ok k" and "sensor_acks k 0x36 r0" and "sensor_absent k 0x35"
    and "r0 0x307a \<in> {0x02, 0x20}" and "r0 0x3138 = 0x03" and "g_fd st < 0"
  shows "\<exists>st1 h1 st2 h2. Sensor_Isconnect k st [] = (1, st1, h1) \<and> g_slave_addr st1 = 0x36 \<and>
     SetSensorFmt k f st1 h1 = (0, st2, h2) \<and> g_slave_addr st2 = 0x35 \<and>
     mipi_sensor.g_v_cycle st2 = 0xFFFF \<and> regfile 0x36 r0 h2 = r0"
proof -
  obtain st1 h1 where 1: "connect_loop k [0x35, 0x36] st [] = connect_loop k [0x36] st1 h1" "g_fd st1 < 0"
    "\<forall>b r0. regfile b r0 h1 = regfile b r0 []"
    using connect_step [OF assms(1,6), of "0x35" r0 False "[]" "[0x36]"] assms(3) by auto
  obtain st2 h2 where 2: "connect_loop k [0x36] st1 h1 = (1, st2\<lparr>g_slave_addr := 0x36\<rparr>, h2)"
    "\<forall>b r0. regfile b r0 h2 = regfile b r0 h1"
    using connect_step [OF assms(1) 1(2), of "0x36" r0 True h1 "[]"] assms(2,4,5) 1(3) by auto
  have d: "Sensor_Isconnect k st [] = (1, st2\<lparr>g_slave_addr := 0x36\<rparr>, h2)"
    by (simp only: Sensor_Isconnect_def CV2003_DEFAULT_ADDR_def CV2003_ALT_ADDR_def 1(1) 2(1))
  have "(0x36 :: u16) \<noteq> 0x35" by simp
  from fmt_absent [OF assms(1,3) this, of f "st2\<lparr>g_slave_addr := 0x36\<rparr>" h2 r0] d 1(3) 2(2) show ?thesis by fastforce
qed

lemma alternate_address_lost_witness:
  "\<exists>st1 h1 st2 h2. Sensor_Isconnect (k_sensor 0x36 cv2003_regs) mipi_sensor0 [] = (1, st1, h1) \<and> g_slave_addr st1 = 0x36 \<and>
     SetSensorFmt (k_sensor 0x36 cv2003_regs) 0x203 st1 h1 = (0, st2, h2) \<and> g_slave_addr st2 = 0x35 \<and>
     mipi_sensor.g_v_cycle st2 = 0xFFFF \<and> regfile 0x36 cv2003_regs h2 = cv2003_regs"
  by (rule alternate_address_lost [OF k_sensor_files k_sensor_acks])
    (simp_all add: k_sensor_absent cv2003_regs_def mipi_sensor0_def)

section \<open>Any sequence of callbacks\<close>

lemma live_Write [simp]: "live (Sensor_Write k st r v h) f = live h f"
  by (simp add: Sensor_Write_defs ioctl_eq)

lemma live_Read: "Sensor_Read k st r h = (v, h') \<Longrightarrow> live h' f = live h f"
  by (auto simp: Sensor_Read_def I2CSensor_Read_def sys_def split: if_splits)

lemma live_cfg_loop [simp]: "live (cfg_loop k st t h) f = live h f"
  by (induction t arbitrary: h) auto

lemma Init_result:
  assumes "SensorDevice_Init k a m st h = (r, st', h')"
  shows "(\<forall>f. live h' f = live h f) \<and> st' = st \<or>
     (\<exists>fd p. g_fd st < 0 \<and> (\<forall>f. live h' f = live h f + held_fd fd f) \<and>
        st' = st\<lparr>g_addr_mode := m, g_slave_addr := a, g_dev_path := Some p, g_fd := fd\<rparr>)"
proof (cases "0 \<le> g_fd st")
  case True
  then show ?thesis using assms by (auto simp: SensorDevice_Init_def)
next
  case False
  define p where "p = (if m < 4 then CV2003_I2C_DEV else ''/dev/spi1'')"
  define x where "x = k h (Open p O_RDWR_NONBLOCK)"
  define st1 where "st1 = st\<lparr>g_addr_mode := m, g_slave_addr := a, g_dev_path := Some p, g_fd := rv x\<rparr>"
  define h1 where "h1 = h @ [(Open p O_RDWR_NONBLOCK, x)]"
  obtain r2 h2 where 2: "ioctl_r k (rv x) I2C_TENBIT (Arg_val 0) h1 = (r2, h2)" by fastforce
  obtain r3 h3 where 3: "ioctl_r k (rv x) I2C_SLAVE (Arg_val (ucast a)) h2 = (r3, h3)" by fastforce
  have l1: "live h1 f = live h f + held_fd (rv x) f" for f by (auto simp: h1_def held_fd_def)
  have l2: "live h2 f = live h1 f" "live h3 f = live h2 f" for f using 2 3 by (auto simp: ioctl_eq)
  have s: "sys k (Open p O_RDWR_NONBLOCK) h = (x, h1)" by (simp add: sys_def x_def h1_def)
  have "SensorDevice_Init k a m st h =
      (if rv x < 0 then (- 1, st1, sys_h k (Perror ''ERROR: Unable to open sensor!'') h1)
       else if r2 < 0 then (- 1, st1, sys_h k (Perror ''Error: Unable to set address mode!'') h2)
       else if r3 < 0 then (- 1, st1, sys_h k (Perror ''Error: Unable to set slave address!'') h3) else (0, st1, h3))"
    using False unfolding SensorDevice_Init_def p_def [symmetric] Let_def s by (simp add: 2 3 st1_def)
  then have "st' = st1 \<and> (\<forall>f. live h' f = live h f + held_fd (rv x) f)"
    using assms by (auto simp: l1 l2 split: if_splits)
  then show ?thesis using False unfolding st1_def by auto
qed

text \<open>
  The states of the library: the descriptor it holds is the only one open, the address is one of
  the known ones, and the arrays keep their sizes.
\<close>

definition mipi_inv :: "mipi_sensor \<Rightarrow> hist \<Rightarrow> bool" where
  "mipi_inv st h \<longleftrightarrow>
     (\<forall>f. live h f = held_fd (g_fd st) f) \<and> g_slave_addr st \<in> {0, 0x35, 0x36} \<and>
     length (AwbGain st) = 4 \<and> length (MirrorFlipBayerFormat st) = 4 \<and> map length (LtmMapping st) = replicate 11 128 \<and>
     length (cv2003_mipi_sensor_if st) = 31"

text \<open>
  One call from outside: a function of the table, or one the library exports, \<open>SensorDevice_Init\<close> with one of
  the sensor's two addresses.
\<close>

inductive callback :: "kernel \<Rightarrow> mipi_sensor \<Rightarrow> hist \<Rightarrow> mipi_sensor \<Rightarrow> hist \<Rightarrow> bool" for k where
  cb_format: "SetSensorFmt k f st h = (r, st', h') \<Longrightarrow> callback k st h st' h'"
| cb_init: "Sensor_Init k f st h = (r, st', h') \<Longrightarrow> callback k st h st' h'"
| cb_deinit: "Sensor_DeInit k st h = (r, st', h') \<Longrightarrow> callback k st h st' h'"
| cb_kick: "Sensor_Kick k st h = (r, h') \<Longrightarrow> callback k st h st h'"
| cb_set_reg: "SetSensorReg k reg val st h = (r, h') \<Longrightarrow> callback k st h st h'"
| cb_get_reg: "GetSensorReg k reg p st h = (r, v, h') \<Longrightarrow> callback k st h st h'"
| cb_set_flip: "SetSensorFlipMirror k mode st h = (r, h') \<Longrightarrow> callback k st h st h'"
| cb_get_flip: "GetSensorFlipMirror k p st h = (r, v, h') \<Longrightarrow> callback k st h st h'"
| cb_intt: "SetIntt k i st h = (r, st', h') \<Longrightarrow> callback k st h st' h'"
| cb_gain: "SetGain k g st h = (r, st', h') \<Longrightarrow> callback k st h st' h'"
| cb_frame: "SetSnsFrameH k n st h = (r, st', h') \<Longrightarrow> callback k st h st' h'"
| cb_awb: "SetSensorAwbGain p st = (r, st') \<Longrightarrow> callback k st h st' h"
| cb_connect: "Sensor_Isconnect k st h = (r, st', h') \<Longrightarrow> callback k st h st' h'"
| cb_close: "SensorDevice_Close k st h = (st', h') \<Longrightarrow> callback k st h st' h'"
| cb_create: "Sensor_Create st = (tab, st') \<Longrightarrow> callback k st h st' h"
| cb_destroy: "Sensor_Destroy st = st' \<Longrightarrow> callback k st h st' h"
| cb_device: "SensorDevice_Init k a m st h = (r, st', h') \<Longrightarrow> a = CV2003_DEFAULT_ADDR \<or> a = CV2003_ALT_ADDR \<Longrightarrow> callback k st h st' h'"
| cb_read: "Sensor_Read k st reg h = (v, h') \<Longrightarrow> callback k st h st h'"
| cb_write: "Sensor_Write k st reg val h = h' \<Longrightarrow> callback k st h st h'"
| cb_version: "get_sensor_version k st h = (st', h') \<Longrightarrow> callback k st h st' h'"

inductive callbacks :: "kernel \<Rightarrow> mipi_sensor \<Rightarrow> hist \<Rightarrow> mipi_sensor \<Rightarrow> hist \<Rightarrow> bool" for k where
  cbs_none: "callbacks k st h st h"
| cbs_step: "callbacks k st h st1 h1 \<Longrightarrow> callback k st1 h1 st2 h2 \<Longrightarrow> callbacks k st h st2 h2"

lemma inv_Close: "mipi_inv st h \<Longrightarrow> SensorDevice_Close k st h = (st', h') \<Longrightarrow> mipi_inv st' h' \<and> g_fd st' < 0"
  by (auto simp: mipi_inv_def SensorDevice_Close_def held_fd_def split: if_splits)

lemma inv_Init: "mipi_inv st h \<Longrightarrow> SensorDevice_Init k a m st h = (r, st', h') \<Longrightarrow> a = 0x35 \<or> a = 0x36 \<Longrightarrow> mipi_inv st' h'"
  by (drule Init_result) (auto simp: mipi_inv_def)

lemma inv_frame: "mipi_inv st h \<Longrightarrow> (\<And>f. live h' f = live h f) \<Longrightarrow> mipi_inv st h'"
  by (simp add: mipi_inv_def)

lemma inv_Sensor_Init: "mipi_inv st h \<Longrightarrow> Sensor_Init k f st h = (r, st', h') \<Longrightarrow> mipi_inv st' h'"
  by (auto simp: mipi_inv_def Sensor_Init_def Let_def)

lemma inv_format: "mipi_inv st h \<Longrightarrow> SetSensorFmt k f st h = (r, st', h') \<Longrightarrow> mipi_inv st' h'"
proof -
  assume i: "mipi_inv st h" and e: "SetSensorFmt k f st h = (r, st', h')"
  obtain st1 h1 where 1: "SensorDevice_Close k st h = (st1, h1)" by fastforce
  obtain r2 st2 h2 where 2: "SensorDevice_Init k CV2003_DEFAULT_ADDR 2 st1 h1 = (r2, st2, h2)" by (metis prod_cases3)
  obtain r3 st3 h3 where 3: "Sensor_Init k f st2 h2 = (r3, st3, h3)" by (metis prod_cases3)
  obtain x h4 where 4: "Sensor_Read k st3 REG_VCYC_LO (Sensor_Write k st3 REG_STREAM_EN 0x01 h3) = (x, h4)" by fastforce
  obtain y h5 where 5: "Sensor_Read k st3 REG_VCYC_HI h4 = (y, h5)" by fastforce
  have i3: "mipi_inv st3 h3"
    using inv_Close [OF i 1] inv_Init [OF _ 2] inv_Sensor_Init [OF _ 3] by (auto simp: CV2003_DEFAULT_ADDR_def)
  have "mipi_inv st3 h5" by (rule inv_frame [OF i3]) (use live_Read [OF 4] live_Read [OF 5] in simp)
  then show ?thesis using e by (auto simp: SetSensorFmt_def 1 2 3 4 5 Let_def mipi_inv_def)
qed

lemma inv_connect_loop:
  "mipi_inv st h \<Longrightarrow> connect_loop k as st h = (r, st', h') \<Longrightarrow> set as \<subseteq> {0x35, 0x36} \<Longrightarrow> mipi_inv st' h'"
proof (induction as arbitrary: st h)
  case (Cons a as)
  obtain r2 st2 h2 where 2: "SensorDevice_Init k a 2 st h = (r2, st2, h2)" by (metis prod_cases3)
  obtain x h3 where 3: "Sensor_Read k st2 REG_PID1 h2 = (x, h3)" by fastforce
  obtain y h4 where 4: "Sensor_Read k st2 REG_PID2 h3 = (y, h4)" by fastforce
  define h5 where "h5 = sys_h k (Print (''cv2003: addr=0x'' @ hex (unat a) @ '' pid1=0x'' @ hex (unat x)
                @ '' pid2=0x'' @ hex (unat y) @ [LF])) h4"
  obtain st6 h6 where 6: "SensorDevice_Close k st2 h5 = (st6, h6)" by fastforce
  have i2: "mipi_inv st2 h2" using inv_Init [OF Cons.prems(1) 2] Cons.prems(3) by auto
  have "mipi_inv st2 h5" by (rule inv_frame [OF i2]) (use live_Read [OF 3] live_Read [OF 4] in \<open>simp add: h5_def\<close>)
  then have i6: "mipi_inv st6 h6" using inv_Close [OF _ 6] by blast
  then have a6: "mipi_inv (st6\<lparr>g_slave_addr := a\<rparr>) h6" using Cons.prems(3) by (auto simp: mipi_inv_def)
  have "connect_loop k (a # as) st h = (if (x = 0x02 \<or> x = 0x20) \<and> y = 0x03 then (1, st6\<lparr>g_slave_addr := a\<rparr>, h6)
      else connect_loop k as st6 h6)"
    by (simp only: connect_loop.simps Let_def 2 3 4 h5_def [symmetric] 6 prod.case)
  then show ?case using Cons.IH [OF i6] a6 Cons.prems(2,3) by (auto split: if_splits)
qed simp

lemma callback_inv: "callback k st h st' h' \<Longrightarrow> mipi_inv st h \<Longrightarrow> mipi_inv st' h'"
proof (induction rule: callback.induct)
  case (cb_format f st h r st' h')
  then show ?case using inv_format by blast
next
  case (cb_init f st h r st' h')
  then show ?case using inv_Sensor_Init by blast
next
  case (cb_deinit st h r st' h')
  obtain st1 h1 where 1: "SensorDevice_Close k st (Sensor_Write k st REG_STANDBY 0x01 h) = (st1, h1)" by fastforce
  have "mipi_inv st (Sensor_Write k st REG_STANDBY 0x01 h)" by (rule inv_frame [OF cb_deinit.prems]) simp
  with inv_Close [OF this 1] show ?case using cb_deinit.hyps by (simp add: Sensor_DeInit_def Let_def 1)
next
  case (cb_connect st h r st' h')
  show ?case
    by (rule inv_connect_loop [OF cb_connect.prems cb_connect.hyps [unfolded Sensor_Isconnect_def]])
      (simp add: CV2003_DEFAULT_ADDR_def CV2003_ALT_ADDR_def)
next
  case (cb_close st h st' h')
  then show ?case using inv_Close by blast
next
  case (cb_device a m st h r st' h')
  then show ?case using inv_Init by (simp add: CV2003_DEFAULT_ADDR_def CV2003_ALT_ADDR_def)
next
  case (cb_read st reg h v h')
  then show ?case using live_Read by (auto simp: mipi_inv_def)
next
  case (cb_write st reg val h h')
  then show ?case by (auto simp: mipi_inv_def)
next
  case (cb_get_reg reg p st h r v h')
  then show ?case using live_Read
    by (auto simp: GetSensorReg_def mipi_inv_def split: option.splits prod.splits)
next
  case (cb_get_flip p st h r v h')
  then show ?case using live_Read
    by (auto simp: GetSensorFlipMirror_def mipi_inv_def Let_def split: option.splits prod.splits)
next
  case (cb_set_flip mode st h r h')
  then show ?case using live_Read
    by (auto simp: SetSensorFlipMirror_def mipi_inv_def Let_def split: prod.splits)
next
  case (cb_awb p st r st' h)
  then show ?case by (auto simp: SetSensorAwbGain_def mipi_inv_def split: option.splits)
next
  case (cb_create st tab st' h)
  then show ?case by (auto simp: Sensor_Create_def mipi_inv_def Let_def)
qed (auto simp: Sensor_Kick_def SetSensorReg_def SetIntt_def SetGain_def SetSnsFrameH_def Sensor_Destroy_def
      get_sensor_version_def mipi_inv_def Let_def)

lemma mipi_inv0: "mipi_inv mipi_sensor0 []"
  by (simp add: mipi_inv_def mipi_sensor0_def)

lemma callbacks_inv: "callbacks k st h st' h' \<Longrightarrow> mipi_inv st h \<Longrightarrow> mipi_inv st' h'"
  by (induction rule: callbacks.induct) (auto intro: callback_inv)

text \<open>C26: State invariant of the sensor library: after any sequence of callbacks, whatever the kernel and the bus
  answer, the descriptor in \<open>g_fd\<close> is the only one the library has open (none when it is negative), the
  address is one of the known ones and the tables keep their sizes; shutting the sensor down then leaves
  no descriptor open.\<close>
theorem sensor_library_invariant:
  assumes "callbacks k mipi_sensor0 [] st h"
  shows "(\<forall>f. live h f = of_bool (g_fd st = f \<and> 0 \<le> f)) \<and> g_slave_addr st \<in> {0, CV2003_DEFAULT_ADDR, CV2003_ALT_ADDR} \<and>
     length (AwbGain st) = 4 \<and> length (MirrorFlipBayerFormat st) = 4 \<and> length (cv2003_mipi_sensor_if st) = 31 \<and>
     (\<exists>st' h'. Sensor_DeInit k st h = (0, st', h') \<and> g_fd st' < 0 \<and> (\<forall>f. live h' f = 0))"
proof -
  have i: "mipi_inv st h" using callbacks_inv [OF assms mipi_inv0] .
  obtain st' h' where d: "SensorDevice_Close k st (Sensor_Write k st REG_STANDBY 0x01 h) = (st', h')" by fastforce
  have "mipi_inv st (Sensor_Write k st REG_STANDBY 0x01 h)" by (rule inv_frame [OF i]) simp
  with inv_Close [OF this d] have "g_fd st' < 0" "\<forall>f. live h' f = 0" by (auto simp: mipi_inv_def)
  moreover have "Sensor_DeInit k st h = (0, st', h')" by (simp add: Sensor_DeInit_def Let_def d)
  ultimately show ?thesis using i
    by (auto simp: mipi_inv_def held_fd_def CV2003_DEFAULT_ADDR_def CV2003_ALT_ADDR_def)
qed

lemma sensor_library_invariant_witness:
  "\<exists>st h. callbacks (k_sensor 0x35 cv2003_regs) mipi_sensor0 [] st h \<and> 0 \<le> g_fd st \<and> live h (g_fd st) = 1"
proof -
  let ?k = "k_sensor 0x35 cv2003_regs"
  obtain st h where f: "SetSensorFmt ?k 0x203 mipi_sensor0 [] = (0, st, h)" "0 \<le> g_fd st"
    using fmt_regs [OF k_sensor_files k_sensor_acks, of cv2003_regs "0x203" mipi_sensor0 "[]"] by blast
  have c: "callbacks ?k mipi_sensor0 [] st h" by (rule cbs_step [OF cbs_none cb_format [OF f(1)]])
  have "live h (g_fd st) = of_bool (g_fd st = g_fd st \<and> 0 \<le> g_fd st)" using sensor_library_invariant [OF c] by blast
  then show ?thesis using c f(2) by (intro exI [of _ st] exI [of _ h]) simp
qed

end
