(* ===== verification/Rtsp_Footprint.thy ===== *)
theory Rtsp_Footprint
  imports Rtsp_Run
begin

text \<open>
  The calls the RTSP server makes: whatever its clients send, it stays with its sockets, the clock, random
  numbers, the password file and the request for a key frame. It maps no memory and opens no file.
\<close>

definition server_call :: "syscall \<Rightarrow> bool" where
  "server_call c =
     (case c of
        Accept fd \<Rightarrow> True | Close fd \<Rightarrow> True | Set_nonblock fd \<Rightarrow> True | Recv fd n \<Rightarrow> True | Send fd d \<Rightarrow> True
      | Sendto fd d a \<Rightarrow> True | Getpeername fd \<Rightarrow> True | Getsockname fd \<Rightarrow> True | Socket_dgram \<Rightarrow> True | Bind fd a \<Rightarrow> True
      | Random \<Rightarrow> True | Clock_us \<Rightarrow> True | Time \<Rightarrow> True | Slurp p \<Rightarrow> True
      | Ioctl fd req a \<Rightarrow> req = ISP_IOCTL_VENC_REQUEST_IDR
      | _ \<Rightarrow> False)"

lemma server_call_simps [simp]:
  "server_call (Accept fd)" "server_call (Close fd)" "server_call (Set_nonblock fd)" "server_call (Recv fd n)"
  "server_call (Send fd d)" "server_call (Sendto fd d a)" "server_call (Getpeername fd)" "server_call (Getsockname fd)"
  "server_call Socket_dgram" "server_call (Bind fd a)" "server_call Random" "server_call Clock_us" "server_call Time"
  "server_call (Slurp p)" "server_call (Ioctl fd ISP_IOCTL_VENC_REQUEST_IDR x)"
  by (simp_all add: server_call_def)

text \<open>The calls made on behalf of the clients it has: all of these but accepting a connection.\<close>

definition client_call :: "syscall \<Rightarrow> bool" where
  "client_call c \<longleftrightarrow> server_call c \<and> (\<forall>fd. c \<noteq> Accept fd)"

lemma client_call_simps [simp]:
  "\<not> client_call (Accept fd)" "client_call (Close fd)" "client_call (Set_nonblock fd)" "client_call (Recv fd n)"
  "client_call (Send fd d)" "client_call (Sendto fd d a)" "client_call (Getpeername fd)" "client_call (Getsockname fd)"
  "client_call Socket_dgram" "client_call (Bind fd a)" "client_call Random" "client_call Clock_us" "client_call Time"
  "client_call (Slurp p)" "client_call (Ioctl fd ISP_IOCTL_VENC_REQUEST_IDR x)"
  by (simp_all add: client_call_def)

abbreviation foot :: "hist \<Rightarrow> hist \<Rightarrow> bool" where
  "foot \<equiv> adds client_call"

lemma client_call_server: "client_call c \<Longrightarrow> server_call c"
  by (simp add: client_call_def)

section \<open>Sending\<close>

lemma send_all_foot: "send_all k fd d h = Some h' \<Longrightarrow> foot h h'"
  by (fastforce simp: sent_prefix_def only_sends_def calls_def adds_def list_all_iff dest!: send_all_prefix)

lemma send_reply_foot: "send_reply k c cseq st x h = Some h' \<Longrightarrow> foot h h'"
  by (auto simp: send_reply_def bind_eq_Some_conv dest!: send_all_foot)

lemma track_send_foot: "track_send k c t r d h = Some h' \<Longrightarrow> foot h h'"
  by (auto simp: track_send_def dest: send_all_foot split: if_splits)

lemma send_byes_foot: "send_byes k c ts h = Some h' \<Longrightarrow> foot h h'"
  by (induction ts arbitrary: h)
     (auto simp: bind_eq_Some_conv send_bye_def split: if_splits dest!: track_send_foot intro: adds_trans)

lemma rtp_send_foot: "rtp_send k c t pt m ts p d h = Some (t', h') \<Longrightarrow> foot h h'"
  by (auto simp: rtp_send_def bind_eq_Some_conv Let_def dest!: track_send_foot split: if_splits)

lemma send_payloads_foot: "send_payloads k c ts l ps t h = Some (t', h') \<Longrightarrow> foot h h'"
  by (induction ps arbitrary: t h) (auto simp: bind_eq_Some_conv dest!: track_send_foot intro: adds_trans)

lemma send_video_nal_foot: "send_video_nal k c nal ts l h = Some (c', h') \<Longrightarrow> foot h h'"
  by (auto simp: send_video_nal_payloads dest: send_payloads_foot)

section \<open>Requests\<close>

lemma random_u32_foot: "random_u32 k h = (x, h') \<Longrightarrow> foot h h'"
  by (auto simp: random_u32_def sys_def)

lemma now_us_foot: "now_us k h = (x, h') \<Longrightarrow> foot h h'"
  by (auto simp: now_us_def sys_def)

lemma call_idr_foot: "foot h (call_idr k cb s h)"
  by (simp add: call_idr_def venc_request_idr_def split: idr_callback.splits)

lemma shadow_matches_foot: "shadow_matches k crypt p u h = (b, h') \<Longrightarrow> foot h h'"
  by (auto simp: shadow_matches_def Let_def sys_def split: option.splits if_splits)

lemma auth_ok_foot: "auth_ok k crypt srv c req cseq h = Some (b, h') \<Longrightarrow> foot h h'"
  by (auto simp: auth_ok_def Let_def bind_eq_Some_conv split: option.splits if_splits prod.splits
      dest!: send_reply_foot shadow_matches_foot intro: adds_trans)

lemma session_ok_foot: "session_ok k c req cseq h = Some (b, h') \<Longrightarrow> foot h h'"
  by (auto simp: session_ok_def bind_eq_Some_conv split: option.splits if_splits dest!: send_reply_foot)

lemma handle_describe_foot: "handle_describe k srv c uri cseq h = Some (b, h') \<Longrightarrow> foot h h'"
  unfolding handle_describe_def Let_def
  by (auto simp: bind_eq_Some_conv split: if_splits dest!: send_reply_foot send_all_foot intro: adds_trans)

lemma close_if_open_foot: "foot h (close_if_open k fd h)"
  by (simp add: close_if_open_def)

lemma tracks_close_foot: "tracks_close k ts h = (ts', h') \<Longrightarrow> foot h h'"
proof (induction ts arbitrary: h ts')
  case (Cons t ts)
  have "track_close k t h = (track0, h1) \<Longrightarrow> foot h h1" for h1
    using close_if_open_foot by (auto simp: track_close_def intro: adds_trans)
  with Cons show ?case by (fastforce simp: track_close_def split: prod.splits intro: adds_trans)
qed simp

lemma track_close_foot: "track_close k t h = (t', h') \<Longrightarrow> foot h h'"
  using close_if_open_foot by (auto simp: track_close_def intro: adds_trans)

lemma session_reset_foot: "session_reset k c h = (c', h') \<Longrightarrow> foot h h'"
  by (auto simp: session_reset_def dest: tracks_close_foot split: prod.splits)

lemma client_reset_foot: "client_reset k c h = (c', h') \<Longrightarrow> foot h h'"
  using close_if_open_foot by (auto simp: client_reset_def dest!: session_reset_foot split: prod.splits intro: adds_trans)

lemma bind_try_foot: "bind_try k rtp rtcp h = (p, h') \<Longrightarrow> foot h h'"
  by (auto simp: bind_try_def Let_def sys_def split: if_splits)

text \<open>The option-valued handlers, walked through: what is claimed of a result if there is one.\<close>

definition ends :: "hist \<Rightarrow> ('a \<times> hist) option \<Rightarrow> bool" where
  "ends h0 x \<longleftrightarrow> (\<forall>a h'. x = Some (a, h') \<longrightarrow> foot h0 h')"

lemma ends_D: "ends h0 x \<Longrightarrow> x = Some (a, h') \<Longrightarrow> foot h0 h'"
  by (simp add: ends_def)

lemma ends_Some: "foot h0 h \<Longrightarrow> ends h0 (Some (a, h))"
  by (simp add: ends_def)

lemma ends_reply: "foot h0 h \<Longrightarrow> (\<And>h1. foot h0 h1 \<Longrightarrow> ends h0 (g h1)) \<Longrightarrow> ends h0 (send_reply k c cseq st x h \<bind> g)"
  by (auto simp: ends_def bind_eq_Some_conv dest!: send_reply_foot intro: adds_trans)

lemma ends_option: "(x = None \<Longrightarrow> ends h0 a) \<Longrightarrow> (\<And>y. x = Some y \<Longrightarrow> ends h0 (b y)) \<Longrightarrow> ends h0 (case x of None \<Rightarrow> a | Some y \<Rightarrow> b y)"
  by (cases x) auto

lemmas ends_walk = ends_Some ends_reply ends_option
  ad.walk_if [where R = "ends h0" for h0]
  ad.walk_sys [where R = "ends h0" and P = client_call and ?h0.0 = h0 for h0]

lemma setup_tail_foot: "ends h (setup_tail k c s ti t tr cseq h)"
proof -
  obtain id h1 where 1: "random_u32 k h = (id, h1)" by force
  have a: "foot h h1" by (rule random_u32_foot [OF 1])
  define c2 where "c2 = c\<lparr>tracks := (tracks c)[ti := t\<lparr>active := True, ssrc := id, rtp_seq := 0\<rparr>], stream_id := s\<rparr>"
  obtain c3 h3 where 3: "(if has_session c2 then (c2, h1)
      else let (r, h) = sys k Random h1 in (c2\<lparr>has_session := True, session_id := word_of_int (rv r) AND 0x7fffffff\<rparr>, h)) = (c3, h3)"
    by force
  have b: "foot h h3" using 3 adds_snoc [OF a, of Random k] a by (auto simp: sys_def sys_h_def split: if_splits)
  show ?thesis
    unfolding setup_tail_def Let_def 1 prod.case c2_def [symmetric] 3 [unfolded Let_def]
    by (intro ends_reply ends_Some b)
qed

lemma bind_attempts_foot: "bind_attempts k n t h = (p, t', h') \<Longrightarrow> foot h h'"
proof (induction n arbitrary: h)
  case (Suc n)
  obtain r1 h1 where 1: "sys k Socket_dgram h = (r1, h1)" by fastforce
  obtain r2 h2 where 2: "sys k Socket_dgram h1 = (r2, h2)" by fastforce
  obtain b h3 where 3: "bind_try k (rv r1) (rv r2) h2 = (b, h3)" by force
  have a: "foot h h3"
    using 1 2 bind_try_foot [OF 3] adds_trans [of client_call h h2 h3] by (auto simp: sys_def)
  have a4: "foot h (close_if_open k (rv r2) (close_if_open k (rv r1) h3))"
    by (rule adds_trans [OF adds_trans [OF a close_if_open_foot] close_if_open_foot])
  show ?case using Suc.prems Suc.IH a a4
    by (auto simp: 1 2 3 Let_def split: option.splits intro: adds_trans)
qed simp

lemma handle_setup_foot: "ends h (handle_setup k srv c req uri cseq h)"
proof -
  have st: "ends h (setup_tail k c s ti t tr cseq h1)" if "foot h h1" for c s ti t tr h1
    using setup_tail_foot [of h1 k c s ti t tr cseq] that by (auto simp: ends_def intro: adds_trans)
  have tc: "foot h h1 \<Longrightarrow> (\<And>t h2. foot h h2 \<Longrightarrow> ends h (g t h2)) \<Longrightarrow> ends h (case track_close k t h1 of (t, h2) \<Rightarrow> g t h2)" for h1 t and g :: "rtsp_track \<Rightarrow> hist \<Rightarrow> (rtsp_client \<times> hist) option"
    using track_close_foot [of k t h1] by (cases "track_close k t h1") (auto intro: adds_trans)
  have bu: "foot h h1 \<Longrightarrow> (\<And>p t h2. foot h h2 \<Longrightarrow> ends h (g p t h2)) \<Longrightarrow> ends h (case bind_udp_pair k t h1 of (p, t, h2) \<Rightarrow> g p t h2)"
    for h1 t and g :: "int \<Rightarrow> rtsp_track \<Rightarrow> hist \<Rightarrow> (rtsp_client \<times> hist) option"
    using bind_attempts_foot [of k 16 t h1] by (cases "bind_udp_pair k t h1") (auto simp: bind_udp_pair_def intro: adds_trans)
  have pp: "(\<And>a b. ends h (g a b)) \<Longrightarrow> ends h (case port_pair x of (a, b) \<Rightarrow> g a b)" for x and g :: "u32 \<Rightarrow> u32 \<Rightarrow> (rtsp_client \<times> hist) option"
    by (cases "port_pair x") simp
  show ?thesis
    unfolding handle_setup_def Let_def
    by (intro ends_walk st tc bu pp) simp_all
qed

lemma handle_play_foot: "handle_play k srv c req cseq h = Some (c', h') \<Longrightarrow> foot h h'"
proof -
  assume p: "handle_play k srv c req cseq h = Some (c', h')"
  then obtain ok h1 where ok: "session_ok k c req cseq h = Some (ok, h1)" by (auto simp: handle_play_def bind_eq_Some_conv)
  show ?thesis
  proof (cases ok)
    case False
    with p ok session_ok_foot [OF ok] show ?thesis by (auto simp: handle_play_def)
  next
    case True
    with p ok obtain h2 where h2: "send_reply k c cseq ''200 OK'' (''Range: npt=now-'' @ CRLF) h1 = Some h2"
      and h': "h' = call_idr k (request_idr srv) (stream_id c) (snd (now_us k h2))"
      by (auto simp: handle_play_def Let_def bind_eq_Some_conv case_prod_beta)
    obtain now h3 where 3: "now_us k h2 = (now, h3)" by force
    have "foot h h3"
      by (rule adds_trans [OF adds_trans [OF session_ok_foot [OF ok] send_reply_foot [OF h2]] now_us_foot [OF 3]])
    then show ?thesis unfolding h' 3 snd_conv by (rule adds_trans [OF _ call_idr_foot])
  qed
qed

lemma handle_teardown_foot: "handle_teardown k c req cseq h = Some (c', h') \<Longrightarrow> foot h h'"
  by (auto simp: handle_teardown_def bind_eq_Some_conv split: if_splits prod.splits
      dest!: session_ok_foot send_reply_foot send_byes_foot session_reset_foot intro: adds_trans)

lemma dispatch_foot: "dispatch k srv c req meth uri cseq h = Some (d, c', h') \<Longrightarrow> foot h h'"
proof -
  define E where "E x \<longleftrightarrow> (\<forall>d c' h'. x = Some (d, c', h') \<longrightarrow> foot h h')" for x :: "(bool \<times> rtsp_client \<times> hist) option"
  have i: "E x \<Longrightarrow> E y \<Longrightarrow> E (if b then x else y)" for x y b by simp
  have r: "E (send_reply k c cseq st x h \<bind> (\<lambda>h. Some (b, c, h)))" for st x b
    by (auto simp: E_def bind_eq_Some_conv dest: send_reply_foot)
  have d: "E (handle_describe k srv c uri cseq h \<bind> (\<lambda>(d, h). Some (d, c, h)))"
    by (auto simp: E_def bind_eq_Some_conv dest: handle_describe_foot)
  have c: "(\<And>c' h'. X = Some (c', h') \<Longrightarrow> foot h h') \<Longrightarrow> E (X \<bind> (\<lambda>(c, h). Some (True, c, h)))" for X
    by (auto simp: E_def bind_eq_Some_conv)
  have "E (dispatch k srv c req meth uri cseq h)"
    unfolding dispatch_def
    by (intro i r d c) (erule ends_D [OF handle_setup_foot] handle_play_foot handle_teardown_foot)+
  then show "dispatch k srv c req meth uri cseq h = Some (d, c', h') \<Longrightarrow> ?thesis" by (simp add: E_def)
qed

lemma handle_request_foot: "handle_request k crypt srv c req h = Some (d, c', h') \<Longrightarrow> foot h h'"
  by (auto simp: handle_request_def Let_def bind_eq_Some_conv split: prod.splits if_splits
      dest!: auth_ok_foot dispatch_foot intro: adds_trans)

lemma drain_requests_foot: "drain_requests k crypt srv c h = Some (c', h') \<Longrightarrow> foot h h'"
proof (induction k crypt srv c h rule: drain_requests.induct)
  case (1 k crypt srv c h)
  show ?case
  proof (cases "strstr (cstr (rxbuf c)) (CRLF @ CRLF)")
    case None
    with 1(2) show ?thesis by (subst (asm) drain_requests.simps) simp
  next
    case (Some e)
    let ?n = "length (cstr (rxbuf c)) - length e + 4"
    obtain d c1 h1 where req: "handle_request k crypt srv c (take ?n (rxbuf c)) h = Some (d, c1, h1)"
      using 1(2) Some by (subst (asm) drain_requests.simps) (auto simp: Let_def split: option.splits)
    show ?thesis
    proof (cases d)
      case False
      with 1(2) Some req handle_request_foot [OF req] show ?thesis by (subst (asm) drain_requests.simps) (simp add: Let_def)
    next
      case True
      then have "drain_requests k crypt srv (c1\<lparr>rxbuf := drop ?n (rxbuf c1)\<rparr>) h1 = Some (c', h')"
        using 1(2) Some req by (subst (asm) drain_requests.simps) (simp add: Let_def)
      with 1(1) [OF Some refl req refl refl] True have "foot h1 h'" by simp
      with handle_request_foot [OF req] show ?thesis by (rule adds_trans)
    qed
  qed
qed

section \<open>The server's operations\<close>

lemma send_metadata_foot: "send_metadata k srv c h = Some (c', h') \<Longrightarrow> foot h h'"
proof -
  assume m: "send_metadata k srv c h = Some (c', h')"
  define r where "r = k h Time"
  obtain now h2 where now: "now_us k (h @ [(Time, r)]) = (now, h2)" by force
  from m now obtain xml t' where
    rs: "rtp_send k c (tracks c ! RTSP_TRACK_METADATA) PT_METADATA True (media_ts now (metadata_ts_base srv)) [] (bytes_of xml) h2 = Some (t', h')"
    by (auto simp: send_metadata_def sys_def Let_def bind_eq_Some_conv simp flip: r_def split: if_splits)
  have "foot h (h @ [(Time, r)])" by simp
  then show ?thesis using now_us_foot [OF now] rtp_send_foot [OF rs] by (blast intro: adds_trans)
qed

lemma poll_metadata_foot: "poll_metadata k srv now c h = Some (c', h') \<Longrightarrow> foot h h'"
  by (auto simp: poll_metadata_def bind_eq_Some_conv split: if_splits dest: send_metadata_foot)

lemma poll_client_foot: "poll_client k crypt srv now c h = Some (c', h') \<Longrightarrow> foot h h'"
proof -
  assume p: "poll_client k crypt srv now c h = Some (c', h')"
  show ?thesis
  proof (cases "tcp_fd c < 0")
    case True
    with p show ?thesis by (simp add: poll_client_def)
  next
    case op: False
    let ?room = "RX_CAP - 1 - length (rxbuf c)"
    define r where "r = k h (Recv (tcp_fd c) ?room)"
    define h1 where "h1 = h @ [(Recv (tcp_fd c) ?room, r)]"
    define c1 where "c1 = (if rv r > 0 then c\<lparr>rxbuf := rxbuf c @ map (char_of \<circ> unat) (take (nat (rv r)) (rbytes r))\<rparr> else c)"
    note def = p [unfolded poll_client_open [of c r k h h1 c1, OF op r_def h1_def c1_def]]
    have 1: "foot h h1" by (simp add: h1_def)
    show ?thesis
    proof (cases "rv r = 0 \<or> (rv r < 0 \<and> err r \<noteq> EAGAIN)")
      case True
      with def have "client_reset k c h1 = (c', h')" by simp
      from client_reset_foot [OF this] show ?thesis by (rule adds_trans [OF 1])
    next
      case False
      with def obtain c2 h2 c3 where d: "drain_requests k crypt srv c1 h1 = Some (c2, h2)"
        and m: "poll_metadata k srv now c3 h2 = Some (c', h')"
        by (auto simp: bind_eq_Some_conv split: if_splits)
      from 1 drain_requests_foot [OF d] poll_metadata_foot [OF m] show ?thesis by (blast intro: adds_trans)
    qed
  qed
qed

lemma poll_clients_foot: "poll_clients k crypt srv now cs h = Some (cs', h') \<Longrightarrow> foot h h'"
  by (induction cs arbitrary: h cs') (auto simp: bind_eq_Some_conv dest!: poll_client_foot intro: adds_trans)

text \<open>A poll accepts at most one connection, with its first call.\<close>

lemma poll_accept_foot:
  assumes "poll_accept k srv h = (srv', h')"
  shows "foot (h @ [(Accept (listen_fd srv), k h (Accept (listen_fd srv)))]) h'"
proof -
  define r where "r = k h (Accept (listen_fd srv))"
  define h1 where "h1 = h @ [(Accept (listen_fd srv), r)]"
  have 1: "sys k (Accept (listen_fd srv)) h = (r, h1)" by (simp add: sys_def h1_def r_def)
  note def = assms [unfolded poll_accept_def Let_def 1 prod.case]
  have "foot h1 h'"
  proof (cases "rv r \<ge> 0")
    case False
    with def show ?thesis by simp
  next
    case True
    show ?thesis
    proof (cases "free_slot (clients srv)")
      case None
      with def True show ?thesis by auto
    next
      case (Some i)
      obtain c h2 where cr: "client_reset k (clients srv ! i) h1 = (c, h2)" by force
      from def True Some cr have "h' = sys_h k (Set_nonblock (rv r)) h2" by auto
      then show ?thesis using client_reset_foot [OF cr] by simp
    qed
  qed
  then show ?thesis by (simp add: h1_def r_def)
qed

lemma rtsp_server_poll_foot:
  assumes "rtsp_server_poll k crypt srv h = Some (srv', h')"
  shows "foot (h @ [(Accept (listen_fd srv), k h (Accept (listen_fd srv)))]) h'"
proof -
  obtain s1 h1 where a: "poll_accept k srv h = (s1, h1)" by force
  obtain now h2 where n: "now_us k h1 = (now, h2)" by force
  from assms obtain cs where c: "poll_clients k crypt s1 now (clients s1) h2 = Some (cs, h')"
    by (auto simp: rtsp_server_poll_def a n bind_eq_Some_conv)
  from poll_accept_foot [OF a] now_us_foot [OF n] poll_clients_foot [OF c] show ?thesis by (blast intro: adds_trans)
qed

lemma push_client_foot: "push_client k s nal ts l c h = Some (c', h') \<Longrightarrow> foot h h'"
  by (cases "gated s nal c") (auto simp: push_client_gated push_client_sends dest: send_video_nal_foot)

lemma push_clients_foot: "push_clients k s nal ts l cs h = Some (cs', h') \<Longrightarrow> foot h h'"
  by (induction cs arbitrary: h cs') (auto simp: bind_eq_Some_conv dest!: push_client_foot intro: adds_trans)

lemma rtsp_server_push_foot: "rtsp_server_push_nal k srv s nal pts l h = Some (srv', h') \<Longrightarrow> foot h h'"
  by (auto simp: rtsp_server_push_nal_def Let_def bind_eq_Some_conv split: if_splits dest!: push_clients_foot)

lemma clients_reset_foot: "clients_reset k cs h = (cs', h') \<Longrightarrow> foot h h'"
proof (induction cs arbitrary: h h' cs')
  case (Cons c cs)
  obtain c1 h1 where 1: "client_reset k c h = (c1, h1)" by force
  obtain cs2 h2 where 2: "clients_reset k cs h1 = (cs2, h2)" by force
  show ?case using Cons.prems adds_trans [OF client_reset_foot [OF 1] Cons.IH [OF 2]] by (simp add: 1 2)
qed simp

lemma rtsp_server_close_foot: "rtsp_server_close k srv h = (srv', h') \<Longrightarrow> foot h h'"
  using close_if_open_foot by (auto simp: rtsp_server_close_def dest!: clients_reset_foot split: prod.splits intro: adds_trans)

end
