(* ===== verification/Rtsp_Machine.thy ===== *)
theory Rtsp_Machine
  imports Rtsp_Footprint Rtsp_Text
begin

text \<open>
  The session machine of RTSP and the server as a refinement of it. What a peer can observe of a client slot is
  whether it is taken, the number of its session, whether it plays, and which of its two tracks are set up;
  everything else of the server's state is forgotten by \<open>slot_state\<close>. The machine's labels carry the numbers
  a peer sees; which labels a poll may show is read off what the sockets delivered in it.
\<close>

section \<open>The machine\<close>

datatype slot =
    Free
  | Taken (the_session: "u32 option") (is_playing: bool) (tracks_up: "nat set")

datatype slot_event =
    Accepted
  | Hung_up
  | Did_setup nat u32
  | Failed_setup nat
  | Did_play u32
  | Did_teardown u32

text \<open>
  Setting up a track names the session: a new number the first time, the same one from then on. Playing and
  tearing down need the number of the session.
\<close>

inductive machine_step :: "slot \<Rightarrow> slot_event \<Rightarrow> slot \<Rightarrow> bool" where
  accept: "machine_step Free Accepted (Taken None False {})"
| hang_up: "machine_step (Taken s p T) Hung_up Free"
| setup_first: "i < RTSP_TRACK_COUNT \<Longrightarrow> unat n < 2 ^ 31 \<Longrightarrow> machine_step (Taken None p T) (Did_setup i n) (Taken (Some n) p (insert i T))"
| setup_more: "i < RTSP_TRACK_COUNT \<Longrightarrow> machine_step (Taken (Some n) p T) (Did_setup i n) (Taken (Some n) p (insert i T))"
| setup_failed: "i < RTSP_TRACK_COUNT \<Longrightarrow> machine_step (Taken s p T) (Failed_setup i) (Taken s p (T - {i}))"
| play: "machine_step (Taken (Some n) p T) (Did_play n) (Taken (Some n) True T)"
| teardown: "machine_step (Taken (Some n) p T) (Did_teardown n) (Taken None False {})"

inductive machine_run :: "slot \<Rightarrow> slot_event list \<Rightarrow> slot \<Rightarrow> bool" where
  stay: "machine_run a [] a"
| move: "machine_step a e b \<Longrightarrow> machine_run b es c \<Longrightarrow> machine_run a (e # es) c"

inductive_cases machine_step_Free: "machine_step Free e b"
inductive_cases machine_step_Taken: "machine_step (Taken s p T) e b"
inductive_simps machine_run_Nil [simp]: "machine_run a [] b"
inductive_simps machine_run_Cons: "machine_run a (e # es) c"

lemma machine_run_one: "machine_step a e b \<Longrightarrow> machine_run a [e] b"
  by (blast intro: machine_run.intros)

lemma machine_run_append: "machine_run a es b \<Longrightarrow> machine_run b fs c \<Longrightarrow> machine_run a (es @ fs) c"
  by (induction rule: machine_run.induct) (auto intro: machine_run.move)

text \<open>Without a session nothing plays and nothing is set up; session numbers have 31 bits.\<close>

fun slot_ok :: "slot \<Rightarrow> bool" where
  "slot_ok Free \<longleftrightarrow> True"
| "slot_ok (Taken None p T) \<longleftrightarrow> \<not> p \<and> T = {}"
| "slot_ok (Taken (Some n) p T) \<longleftrightarrow> unat n < 2 ^ 31 \<and> T \<subseteq> {..<RTSP_TRACK_COUNT}"

lemma machine_step_ok: "machine_step a e b \<Longrightarrow> slot_ok a \<Longrightarrow> slot_ok b"
proof (induction rule: machine_step.induct)
  case (setup_failed i s p T)
  then show ?case by (cases s) auto
qed auto

lemma machine_run_ok: "machine_run a es b \<Longrightarrow> slot_ok a \<Longrightarrow> slot_ok b"
  by (induction rule: machine_run.induct) (auto dest: machine_step_ok)

text \<open>Nothing plays before a session was set up: playing takes an accepted connection, a setup and a play.\<close>

lemma play_after_setup:
  assumes "machine_run Free es (Taken s True T)"
  shows "\<exists>i n. Did_setup i n \<in> set es" and "\<exists>n. Did_play n \<in> set es"
proof -
  have step: "machine_step a e b \<Longrightarrow> \<forall>i n. e \<noteq> Did_setup i n \<Longrightarrow> a = Free \<or> the_session a = None \<Longrightarrow> b = Free \<or> the_session b = None"
    for a e b by (auto elim!: machine_step.cases)
  have "machine_run a es b \<Longrightarrow> \<forall>i n. Did_setup i n \<notin> set es \<Longrightarrow> a = Free \<or> the_session a = None \<Longrightarrow> b = Free \<or> the_session b = None"
    for a es b
  proof (induction rule: machine_run.induct)
    case (move a e b es c)
    then have none: "\<forall>i n. e \<noteq> Did_setup i n" "\<forall>i n. Did_setup i n \<notin> set es" by auto
    have "b = Free \<or> the_session b = None" by (rule step [OF move(1) none(1) move(5)])
    with none(2) show ?case by (rule move(3))
  qed simp
  moreover have "slot_ok (Taken s True T)" using machine_run_ok [OF assms] by simp
  then have "s \<noteq> None" by (cases s) auto
  ultimately show "\<exists>i n. Did_setup i n \<in> set es" using assms by fastforce
  have "machine_run a es b \<Longrightarrow> (\<nexists>n. Did_play n \<in> set es) \<Longrightarrow> a = Free \<or> \<not> is_playing a \<Longrightarrow> b = Free \<or> \<not> is_playing b" for a es b
    by (induction rule: machine_run.induct) (auto elim: machine_step.cases)
  with assms show "\<exists>n. Did_play n \<in> set es" by fastforce
qed

section \<open>The server's clients\<close>

definition slot_state :: "rtsp_client \<Rightarrow> slot" where
  "slot_state c =
     (if tcp_fd c < 0 then Free
      else Taken (if has_session c then Some (session_id c) else None) (playing c)
             {i. i < length (tracks c) \<and> active (tracks c ! i)})"

lemma slot_state_init [simp]: "slot_state client_init = Free"
  by (simp add: slot_state_def client_init_def)

lemma slot_state_update [simp]:
  "slot_state (c\<lparr>rxbuf := b\<rparr>) = slot_state c" "slot_state (c\<lparr>waiting_for_sps := w\<rparr>) = slot_state c"
  "slot_state (c\<lparr>next_metadata_us := t\<rparr>) = slot_state c" "slot_state (c\<lparr>stream_id := s\<rparr>) = slot_state c"
  by (simp_all add: slot_state_def)

lemma slot_state_track:
  "active t = active (tracks c ! i) \<Longrightarrow> slot_state (c\<lparr>tracks := (tracks c)[i := t]\<rparr>) = slot_state c"
  by (cases "i < length (tracks c)") (auto simp: slot_state_def nth_list_update split: if_splits)

lemma slot_state_Taken: "\<not> tcp_fd c < 0 \<Longrightarrow>
    slot_state c = Taken (if has_session c then Some (session_id c) else None) (playing c) {i. i < length (tracks c) \<and> active (tracks c ! i)}"
  by (simp add: slot_state_def)

lemma active_track0 [simp]: "\<not> active track0"
  by (simp add: track0_def)

lemma tracks_close_track0: "tracks_close k ts h = (ts', h') \<Longrightarrow> ts' = replicate (length ts) track0"
  by (induction ts arbitrary: h ts' h') (auto simp: track_close_def split: prod.splits)

lemma session_id_31: "unat (w AND 0x7fffffff :: u32) < 2 ^ 31"
proof -
  have eq: "w AND 0x7fffffff = take_bit 31 w" by (simp add: take_bit_eq_mask mask_eq_exp_minus_1)
  show ?thesis unfolding eq using take_bit_nat_less_exp [of 31 "unat w"] by (simp add: unsigned_take_bit_eq)
qed

section \<open>One request\<close>

text \<open>What a request asks for, read off its text: a method, a track, the number of a session.\<close>

definition request_method :: "string \<Rightarrow> string" where
  "request_method req = fst (scan_s 31 req)"

definition request_track :: "string \<Rightarrow> nat" where
  "request_track req =
     (if ends_with (fst (scan_s 255 (snd (scan_s 31 req)))) ''metadata'' then RTSP_TRACK_METADATA else RTSP_TRACK_VIDEO)"

definition request_session :: "string \<Rightarrow> u32 option" where
  "request_session req = map_option strtoul (header_value req ''Session'' 64)"

definition event_of :: "string \<Rightarrow> slot_event set" where
  "event_of req =
     (if request_method req = ''SETUP'' then insert (Failed_setup (request_track req)) {Did_setup (request_track req) n | n. True}
      else if request_method req = ''PLAY'' then {Did_play n | n. request_session req = Some n}
      else if request_method req = ''TEARDOWN'' then {Did_teardown n | n. request_session req = Some n}
      else {})"

text \<open>What holds of the client after a function that may not return.\<close>

definition yields :: "(rtsp_client \<Rightarrow> bool) \<Rightarrow> (rtsp_client \<times> hist) option \<Rightarrow> bool" where
  "yields P x \<longleftrightarrow> (\<forall>c h. x = Some (c, h) \<longrightarrow> P c)"

lemma yields_if: "(b \<Longrightarrow> yields P x) \<Longrightarrow> (\<not> b \<Longrightarrow> yields P y) \<Longrightarrow> yields P (if b then x else y)"
  by simp

lemma yields_option: "yields P x \<Longrightarrow> (\<And>p. yields P (g p)) \<Longrightarrow> yields P (case z of None \<Rightarrow> x | Some p \<Rightarrow> g p)"
  by (cases z) simp_all

lemma yields_reply: "P c \<Longrightarrow> yields P (send_reply k d cseq st x h \<bind> (\<lambda>h. Some (c, h)))"
  by (auto simp: yields_def bind_eq_Some_conv)

lemma yields_pair: "(\<And>a b. x = (a, b) \<Longrightarrow> yields P (g a b)) \<Longrightarrow> yields P (case x of (a, b) \<Rightarrow> g a b)"
  by (cases x) simp

lemma bind_udp_pair_active: "bind_udp_pair k t h = (port, t', h') \<Longrightarrow> active t' = active t"
proof -
  have "bind_attempts k n t h = (port, t', h') \<Longrightarrow> active t' = active t" for n
    by (induction n arbitrary: h) (auto simp: sys_def Let_def split: prod.splits option.splits)
  then show "bind_udp_pair k t h = (port, t', h') \<Longrightarrow> ?thesis" by (simp add: bind_udp_pair_def)
qed

lemma setup_tail_machine:
  assumes "setup_tail k c s i t q cseq h = Some (c', h')" and "\<not> tcp_fd c < 0" and "i < RTSP_TRACK_COUNT"
    and "length (tracks c) = RTSP_TRACK_COUNT"
  shows "\<exists>n. machine_step (slot_state c) (Did_setup i n) (slot_state c')"
proof -
  obtain id h2 where id: "random_u32 k h = (id, h2)" by force
  let ?t = "t\<lparr>active := True, ssrc := id, rtp_seq := 0\<rparr>"
  let ?c = "c\<lparr>tracks := (tracks c)[i := ?t], stream_id := s\<rparr>"
  have act: "{j. j < length (tracks ?c) \<and> active (tracks ?c ! j)} = insert i {j. j < length (tracks c) \<and> active (tracks c ! j)}"
    using assms(3,4) by (auto simp: nth_list_update)
  show ?thesis
  proof (cases "has_session c")
    case True
    then have "c' = ?c" using assms(1) by (auto simp: setup_tail_def id Let_def bind_eq_Some_conv)
    with True assms(2,3) act show ?thesis
      using machine_step.setup_more [OF assms(3), of "session_id c" "playing c" "{j. j < length (tracks c) \<and> active (tracks c ! j)}"]
      by (intro exI [of _ "session_id c"]) (simp add: slot_state_def)
  next
    case False
    then obtain n where n: "c' = ?c\<lparr>has_session := True, session_id := n AND 0x7fffffff\<rparr>"
      using assms(1) by (auto simp: setup_tail_def id Let_def sys_def bind_eq_Some_conv)
    show ?thesis
      using machine_step.setup_first [OF assms(3) session_id_31 [of n], of "playing c" "{j. j < length (tracks c) \<and> active (tracks c ! j)}"]
        False assms(2) act by (intro exI [of _ "n AND 0x7fffffff"]) (simp add: n slot_state_def)
  qed
qed

lemma failed_setup_machine:
  assumes "\<not> active t" and "\<not> tcp_fd c < 0" and "i < RTSP_TRACK_COUNT" and "length (tracks c) = RTSP_TRACK_COUNT"
  shows "machine_step (slot_state c) (Failed_setup i) (slot_state (c\<lparr>tracks := (tracks c)[i := t]\<rparr>))"
proof -
  have "{j. j < length (tracks c) \<and> active ((tracks c)[i := t] ! j)} = {j. j < length (tracks c) \<and> active (tracks c ! j)} - {i}"
    using assms by (auto simp: nth_list_update split: if_splits)
  then show ?thesis using assms(2) machine_step.setup_failed [OF assms(3)] by (simp add: slot_state_def)
qed

lemma handle_setup_machine:
  assumes "\<not> tcp_fd c < 0" and "length (tracks c) = RTSP_TRACK_COUNT"
    and ti: "ti = (if ends_with uri ''metadata'' then RTSP_TRACK_METADATA else RTSP_TRACK_VIDEO)"
  shows "yields (\<lambda>c'. slot_state c' = slot_state c \<or> machine_step (slot_state c) (Failed_setup ti) (slot_state c') \<or>
     (\<exists>n. machine_step (slot_state c) (Did_setup ti n) (slot_state c')))
     (handle_setup k srv c req uri cseq h)"
    (is "yields ?P _")
proof -
  have i: "ti < RTSP_TRACK_COUNT" by (simp add: ti rtsp_consts)
  have tail: "yields ?P (setup_tail k c s ti t q cseq h)" for s t q h
    using setup_tail_machine [OF _ assms(1) i assms(2)] by (fastforce simp: yields_def)
  have failed: "?P (c\<lparr>tracks := (tracks c)[ti := t]\<rparr>)" if "\<not> active t" for t
    using failed_setup_machine [OF that assms(1) i assms(2)] by blast
  show ?thesis
    unfolding handle_setup_def Let_def ti [symmetric]
    by (intro yields_if yields_option yields_pair yields_reply tail disjI1 refl failed)
      (auto dest!: bind_udp_pair_active simp: track_close_def)
qed

lemma session_ok_has:
  "session_ok k c req cseq h = Some (True, h') \<Longrightarrow> has_session c \<and> request_session req = Some (session_id c)"
  by (auto simp: session_ok_def request_session_def bind_eq_Some_conv split: option.splits if_splits)

lemma handle_play_machine:
  assumes "handle_play k srv c req cseq h = Some (c', h')" and "\<not> tcp_fd c < 0"
  shows "slot_state c' = slot_state c \<or>
     request_session req = Some (session_id c) \<and> machine_step (slot_state c) (Did_play (session_id c)) (slot_state c')"
proof -
  obtain ok h1 where ok: "session_ok k c req cseq h = Some (ok, h1)" using assms(1) by (auto simp: handle_play_def bind_eq_Some_conv)
  show ?thesis
  proof (cases ok)
    case False
    with assms(1) ok show ?thesis by (auto simp: handle_play_def)
  next
    case True
    with ok have s: "has_session c" "request_session req = Some (session_id c)" by (simp_all add: session_ok_has)
    moreover obtain now where "c' = c\<lparr>playing := True, waiting_for_sps := True, next_metadata_us := now\<rparr>"
      using assms(1) ok True by (auto simp: handle_play_def Let_def bind_eq_Some_conv case_prod_beta)
    ultimately have "slot_state c = Taken (Some (session_id c)) (playing c) {i. i < length (tracks c) \<and> active (tracks c ! i)}"
      "slot_state c' = Taken (Some (session_id c)) True {i. i < length (tracks c) \<and> active (tracks c ! i)}"
      using assms(2) by (simp_all add: slot_state_def)
    then show ?thesis using s(2) by (auto intro: machine_step.play)
  qed
qed

lemma handle_teardown_machine:
  assumes "handle_teardown k c req cseq h = Some (c', h')" and "\<not> tcp_fd c < 0"
  shows "slot_state c' = slot_state c \<or>
     request_session req = Some (session_id c) \<and> machine_step (slot_state c) (Did_teardown (session_id c)) (slot_state c')"
proof -
  obtain ok h1 where ok: "session_ok k c req cseq h = Some (ok, h1)" using assms(1) by (auto simp: handle_teardown_def bind_eq_Some_conv)
  show ?thesis
  proof (cases ok)
    case False
    with assms(1) ok show ?thesis by (auto simp: handle_teardown_def)
  next
    case True
    with ok have s: "has_session c" "request_session req = Some (session_id c)" by (simp_all add: session_ok_has)
    moreover obtain h2 where "session_reset k c h2 = (c', h')"
      using assms(1) ok True by (auto simp: handle_teardown_def bind_eq_Some_conv)
    then have "c' = c\<lparr>tracks := replicate (length (tracks c)) track0, has_session := False, playing := False, waiting_for_sps := False\<rparr>"
      by (auto simp: session_reset_def Let_def dest!: tracks_close_track0 split: prod.splits)
    ultimately have "slot_state c = Taken (Some (session_id c)) (playing c) {i. i < length (tracks c) \<and> active (tracks c ! i)}"
      "slot_state c' = Taken None False {}"
      using assms(2) by (simp_all add: slot_state_def)
    then show ?thesis using s(2) by (auto intro: machine_step.teardown)
  qed
qed

text \<open>A request is no step or one step, of the kind its text asks for.\<close>

definition follows :: "rtsp_client \<Rightarrow> string \<Rightarrow> rtsp_client \<Rightarrow> bool" where
  "follows c req c' \<longleftrightarrow> slot_state c' = slot_state c \<or> (\<exists>e \<in> event_of req. machine_step (slot_state c) e (slot_state c'))"

lemma follows_same [simp]: "follows c req c"
  by (simp add: follows_def)

lemma dispatch_machine:
  assumes "dispatch k srv c req m uri cseq h = Some (d, c', h')" and "\<not> tcp_fd c < 0" and "length (tracks c) = RTSP_TRACK_COUNT"
    and m: "m = request_method req" and u: "uri = fst (scan_s 255 (snd (scan_s 31 req)))"
  shows "follows c req c'"
proof -
  consider "m = ''SETUP''" | "m = ''PLAY''" | "m = ''TEARDOWN''" | (other) "m \<notin> {''SETUP'', ''PLAY'', ''TEARDOWN''}" by blast
  then show ?thesis
  proof cases
    case 1
    with assms(1) have "handle_setup k srv c req uri cseq h = Some (c', h')" by (auto simp: dispatch_def bind_eq_Some_conv)
    with handle_setup_machine [OF assms(2,3) refl, of uri k srv req cseq h] 1 show ?thesis
      unfolding u by (auto simp: yields_def follows_def event_of_def m request_track_def)
  next
    case 2
    with assms(1) have "handle_play k srv c req cseq h = Some (c', h')" by (auto simp: dispatch_def bind_eq_Some_conv)
    from handle_play_machine [OF this assms(2)] 2 show ?thesis by (auto simp: follows_def event_of_def m)
  next
    case 3
    with assms(1) have "handle_teardown k c req cseq h = Some (c', h')" by (auto simp: dispatch_def bind_eq_Some_conv)
    from handle_teardown_machine [OF this assms(2)] 3 show ?thesis by (auto simp: follows_def event_of_def m)
  next
    case other
    with assms(1) have "c' = c" by (auto simp: dispatch_def bind_eq_Some_conv split: if_splits)
    then show ?thesis by simp
  qed
qed

lemma handle_request_machine:
  assumes "handle_request k crypt srv c req h = Some (d, c', h')" and "\<not> tcp_fd c < 0" and "wf_client c"
  shows "follows c req c'"
proof -
  have len: "length (tracks c) = RTSP_TRACK_COUNT" using assms(3) by (simp add: wf_client_def)
  from assms(1) consider "c' = c"
    | cseq h1 where "dispatch k srv c req (request_method req) (fst (scan_s 255 (snd (scan_s 31 req)))) cseq h1 = Some (d, c', h')"
    by (auto simp: handle_request_def request_method_def Let_def case_prod_beta bind_eq_Some_conv split: if_splits)
  then show ?thesis
  proof cases
    case 2
    then show ?thesis by (rule dispatch_machine [OF _ assms(2) len refl refl])
  qed simp
qed

section \<open>The requests of a buffer\<close>

text \<open>The first request of a text and what is behind it; the events that the requests of a text ask for, in order.\<close>

definition first_request :: "string \<Rightarrow> (string \<times> string) option" where
  "first_request txt =
     (case strstr (cstr txt) (CRLF @ CRLF) of
        None \<Rightarrow> None
      | Some e \<Rightarrow> let n = length (cstr txt) - length e + 4 in Some (take n txt, drop n txt))"

inductive asked :: "string \<Rightarrow> slot_event list \<Rightarrow> bool" where
  asked_none: "asked txt []"
| asked_skip: "first_request txt = Some (req, rest) \<Longrightarrow> asked rest es \<Longrightarrow> asked txt es"
| asked_event: "first_request txt = Some (req, rest) \<Longrightarrow> e \<in> event_of req \<Longrightarrow> asked rest es \<Longrightarrow> asked txt (e # es)"

lemma drain_requests_machine:
  "drain_requests k crypt srv c h = Some (c', h') \<Longrightarrow> \<not> tcp_fd c < 0 \<Longrightarrow> wf_client c \<Longrightarrow>
     \<exists>es. machine_run (slot_state c) es (slot_state c') \<and> asked (rxbuf c) es"
proof (induction "length (rxbuf c)" arbitrary: c h rule: less_induct)
  case less
  show ?case
  proof (cases "strstr (cstr (rxbuf c)) (CRLF @ CRLF)")
    case None
    with less.prems(1) have "c' = c" by (simp add: drain_requests_none)
    then show ?thesis using asked_none by (intro exI [of _ "[]"]) simp
  next
    case (Some e)
    define n where "n = length (cstr (rxbuf c)) - length e + 4"
    note drain = less.prems(1) [unfolded drain_requests_some [OF Some n_def]]
    then obtain d c1 h1 where req: "handle_request k crypt srv c (take n (rxbuf c)) h = Some (d, c1, h1)"
      by (auto split: option.splits)
    have fol: "follows c (take n (rxbuf c)) c1" by (rule handle_request_machine [OF req less.prems(2,3)])
    have fr: "first_request (rxbuf c) = Some (take n (rxbuf c), drop n (rxbuf c))"
      unfolding first_request_def Some option.case Let_def n_def ..
    have one: "\<exists>fs. machine_run (slot_state c) fs (slot_state c'') \<and> asked (rxbuf c) fs"
      if "machine_run (slot_state c1) es (slot_state c'')" "asked (drop n (rxbuf c)) es" for es c''
    proof (cases "slot_state c1 = slot_state c")
      case True
      with that show ?thesis using asked_skip [OF fr] by auto
    next
      case False
      with fol obtain e where "e \<in> event_of (take n (rxbuf c))" "machine_step (slot_state c) e (slot_state c1)"
        by (auto simp: follows_def)
      with that show ?thesis using asked_event [OF fr] machine_run.move by blast
    qed
    show ?thesis
    proof (cases d)
      case False
      with drain req have "c' = c1" by simp
      then show ?thesis using one [OF machine_run.stay asked_none] by simp
    next
      case True
      let ?c2 = "c1\<lparr>rxbuf := drop n (rxbuf c1)\<rparr>"
      have c1: "wf_client c1" "tcp_fd c1 = tcp_fd c" "rxbuf c1 = rxbuf c"
        using handle_request_step [OF req] handle_request_conn [OF req] less.prems(3) by (simp_all add: client_step_def same_conn_def)
      then have c2: "wf_client ?c2" "\<not> tcp_fd ?c2 < 0" using less.prems(2) by (auto simp: wf_client_def)
      have shorter: "length (rxbuf ?c2) < length (rxbuf c)"
        using drain_shorter [OF Some] by (simp add: c1(3) n_def)
      have "drain_requests k crypt srv ?c2 h1 = Some (c', h')" using drain req True by simp
      from less.hyps [OF shorter this c2(2,1)] show ?thesis using one by (auto simp: c1(3))
    qed
  qed
qed

section \<open>The server\<close>

lemma poll_metadata_machine: "poll_metadata k srv now c h = Some (c', h') \<Longrightarrow> slot_state c' = slot_state c"
  by (auto simp: poll_metadata_def send_metadata_def sys_def Let_def bind_eq_Some_conv case_prod_beta
      intro!: slot_state_track dest!: rtp_send_track split: if_splits)

lemma send_video_nal_machine: "send_video_nal k c nal ts l h = Some (c', h') \<Longrightarrow> slot_state c' = slot_state c"
  by (auto simp: send_video_nal_payloads intro!: slot_state_track dest!: send_payloads_track)

lemma push_client_machine: "push_client k s nal ts l c h = Some (c', h') \<Longrightarrow> slot_state c' = slot_state c"
  by (auto simp: push_client_def dest!: send_video_nal_machine split: if_splits)

text \<open>
  What a poll may do to a client, read off the calls it made: the client's socket was read, with as much room as
  its buffer had, and when the peer was gone or the socket broken this is a hang-up; otherwise the events are the
  ones asked for by the requests in what was left in the buffer and what was received, in order.
\<close>

definition added :: "hist \<Rightarrow> hist \<Rightarrow> (syscall \<times> reply) set" where
  "added h h' = set (drop (length h) h')"

definition received :: "reply \<Rightarrow> string" where
  "received r = (if rv r > 0 then map (char_of \<circ> unat) (take (nat (rv r)) (rbytes r)) else [])"

definition polled :: "(syscall \<times> reply) set \<Rightarrow> int \<Rightarrow> string \<Rightarrow> slot_event list \<Rightarrow> bool" where
  "polled X fd txt es \<longleftrightarrow>
     (\<exists>r. (Recv fd (RX_CAP - 1 - length txt), r) \<in> X \<and>
        (if rv r = 0 \<or> (rv r < 0 \<and> err r \<noteq> EAGAIN) then es = [Hung_up] else asked (txt @ received r) es))"

lemma polled_mono: "polled X fd txt es \<Longrightarrow> X \<subseteq> Y \<Longrightarrow> polled Y fd txt es"
  unfolding polled_def by blast

lemma added_append [simp]: "added h (h @ xs) = set xs"
  by (simp add: added_def)

lemma added_trans: "adds P h h1 \<Longrightarrow> adds Q h1 h2 \<Longrightarrow> added h h1 \<subseteq> added h h2 \<and> added h1 h2 \<subseteq> added h h2"
  by (auto simp: adds_def added_def)

definition client_polled :: "(syscall \<times> reply) set \<Rightarrow> rtsp_client \<Rightarrow> rtsp_client \<Rightarrow> bool" where
  "client_polled X c c' \<longleftrightarrow>
     (\<exists>es. machine_run (slot_state c) es (slot_state c') \<and> (if tcp_fd c < 0 then es = [] else polled X (tcp_fd c) (rxbuf c) es))"

lemma client_polled_mono: "client_polled X c c' \<Longrightarrow> X \<subseteq> Y \<Longrightarrow> client_polled Y c c'"
  unfolding client_polled_def using polled_mono by (metis (full_types))

lemma poll_client_machine:
  assumes "poll_client k crypt srv now c h = Some (c', h')" and "wf_idle c"
  shows "client_polled (added h h') c c'"
proof (cases "tcp_fd c < 0")
  case True
  with assms(1) have "c' = c" by (simp add: poll_client_def)
  with True show ?thesis by (simp add: client_polled_def machine_run.stay)
next
  case op: False
  let ?room = "RX_CAP - 1 - length (rxbuf c)"
  define r where "r = k h (Recv (tcp_fd c) ?room)"
  define h1 where "h1 = h @ [(Recv (tcp_fd c) ?room, r)]"
  define c1 where "c1 = (if rv r > 0 then c\<lparr>rxbuf := rxbuf c @ map (char_of \<circ> unat) (take (nat (rv r)) (rbytes r))\<rparr> else c)"
  note def = assms(1) [unfolded poll_client_open [of c r k h h1 c1, OF op r_def h1_def c1_def]]
  have X: "foot h1 h' \<Longrightarrow> (Recv (tcp_fd c) ?room, r) \<in> added h h'"
    by (auto simp: adds_def h1_def added_def)
  show ?thesis
  proof (cases "rv r = 0 \<or> (rv r < 0 \<and> err r \<noteq> EAGAIN)")
    case True
    with def have cr: "client_reset k c h1 = (c', h')" by simp
    then have "c' = client_init" using client_reset_facts by blast
    moreover have "machine_run (slot_state c) [Hung_up] Free"
      unfolding slot_state_Taken [OF op] by (rule machine_run_one) (rule machine_step.hang_up)
    moreover have "polled (added h h') (tcp_fd c) (rxbuf c) [Hung_up]"
      unfolding polled_def using X [OF client_reset_foot [OF cr]] True by (intro exI [of _ r]) simp
    ultimately show ?thesis using op by (auto simp: client_polled_def)
  next
    case False
    from def False have fit: "nat (rv r) \<le> ?room" by (auto split: if_splits)
    from def False obtain c2 h2 where d: "drain_requests k crypt srv c1 h1 = Some (c2, h2)"
      and m: "poll_metadata k srv now (if length (rxbuf c2) \<ge> RX_CAP - 1 then c2\<lparr>rxbuf := []\<rparr> else c2) h2 = Some (c', h')"
      by (auto simp: bind_eq_Some_conv split: if_splits)
    have c1: "wf_client c1" "\<not> tcp_fd c1 < 0" "slot_state c1 = slot_state c" "rxbuf c1 = rxbuf c @ received r"
      using assms(2) fit op by (auto simp: c1_def wf_idle_def wf_client_def RX_CAP_def received_def)
    obtain es where es: "machine_run (slot_state c) es (slot_state c2)" "asked (rxbuf c @ received r) es"
      using drain_requests_machine [OF d c1(2,1)] unfolding c1(3,4) by blast
    have "slot_state c' = slot_state c2" using poll_metadata_machine [OF m] by (simp split: if_splits)
    moreover have "foot h1 h'" by (rule adds_trans [OF drain_requests_foot [OF d] poll_metadata_foot [OF m]])
    then have "polled (added h h') (tcp_fd c) (rxbuf c) es"
      unfolding polled_def using X False es(2) by (intro exI [of _ r]) auto
    ultimately show ?thesis using es(1) op by (auto simp: client_polled_def)
  qed
qed

lemma poll_clients_machine:
  "poll_clients k crypt srv now cs h = Some (cs', h') \<Longrightarrow> \<forall>c \<in> set cs. wf_idle c \<Longrightarrow>
     list_all2 (client_polled (added h h')) cs cs'"
proof (induction cs arbitrary: h cs')
  case (Cons c cs)
  from Cons.prems(1) obtain c1 h1 cs1 where 1: "poll_client k crypt srv now c h = Some (c1, h1)"
    "poll_clients k crypt srv now cs h1 = Some (cs1, h')" "cs' = c1 # cs1"
    by (auto simp: bind_eq_Some_conv)
  note sub = added_trans [OF poll_client_foot [OF 1(1)] poll_clients_foot [OF 1(2)]]
  have "client_polled (added h h') c c1"
    using client_polled_mono [OF poll_client_machine [OF 1(1)]] Cons.prems(2) sub by simp
  moreover have "list_all2 (client_polled (added h h')) cs cs1"
    using Cons.IH [OF 1(2)] Cons.prems(2) sub by (auto elim!: list_all2_mono intro: client_polled_mono)
  ultimately show ?case by (simp add: 1(3))
qed simp

lemma push_clients_machine:
  "push_clients k s nal ts l cs h = Some (cs', h') \<Longrightarrow> list_all2 (\<lambda>c c'. slot_state c' = slot_state c) cs cs'"
  by (induction cs arbitrary: h cs') (auto simp: bind_eq_Some_conv dest: push_client_machine)

text \<open>Accepting: the first free slot takes the connection, if there are both.\<close>

definition fresh_client :: "rtsp_client \<Rightarrow> int \<Rightarrow> bool" where
  "fresh_client c fd \<longleftrightarrow> tcp_fd c = fd \<and> rxbuf c = [] \<and> slot_state c = Taken None False {}"

lemma poll_accept_machine:
  assumes "poll_accept k srv h = (srv', h')" and "i < length (clients srv)"
  defines "a \<equiv> k h (Accept (listen_fd srv))"
  shows "length (clients srv') = length (clients srv) \<and>
     (if free_slot (clients srv) = Some i \<and> 0 \<le> rv a then fresh_client (clients srv' ! i) (rv a)
      else clients srv' ! i = clients srv ! i)"
proof (cases "0 \<le> rv a")
  case False
  with assms(1) show ?thesis by (auto simp: poll_accept_def sys_def Let_def a_def)
next
  case True
  show ?thesis
  proof (cases "free_slot (clients srv)")
    case None
    with True assms(1) show ?thesis by (auto simp: poll_accept_def sys_def Let_def a_def)
  next
    case (Some j)
    from free_slot_Some [OF Some] have j: "j < length (clients srv)" by auto
    have reset: "fst (client_reset k c h1) = client_init" for c h1
      using client_reset_facts [of k c h1] by (cases "client_reset k c h1") auto
    from True Some assms(1) obtain l where "clients srv' = (clients srv)[j := client_init\<lparr>tcp_fd := rv a, loopback := l\<rparr>]"
      by (auto simp: poll_accept_def sys_def Let_def case_prod_beta reset a_def)
    moreover have "fresh_client (client_init\<lparr>tcp_fd := rv a, loopback := l\<rparr>) (rv a)" for l
      using True by (auto simp: fresh_client_def slot_state_def client_init_def nth_replicate)
    ultimately show ?thesis using Some True j by (auto simp: nth_list_update)
  qed
qed

text \<open>
  The events of a poll for slot \<open>i\<close> of the server: a taken one is polled; the first free one is taken when a
  connection was accepted, and polled for the first time; another free one stays.
\<close>

definition poll_events :: "kernel \<Rightarrow> rtsp_server \<Rightarrow> nat \<Rightarrow> hist \<Rightarrow> hist \<Rightarrow> slot_event list \<Rightarrow> bool" where
  "poll_events k srv i h h' es \<longleftrightarrow>
     (let c = clients srv ! i; a = k h (Accept (listen_fd srv)) in
      if 0 \<le> tcp_fd c then polled (added h h') (tcp_fd c) (rxbuf c) es
      else if free_slot (clients srv) = Some i \<and> 0 \<le> rv a
      then \<exists>es'. es = Accepted # es' \<and> polled (added h h') (rv a) [] es'
      else es = [])"

lemma server_poll_machine:
  assumes "rtsp_server_poll k crypt srv h = Some (srv', h')" and "wf_server srv" and i: "i < length (clients srv)"
  shows "\<exists>es. machine_run (slot_state (clients srv ! i)) es (slot_state (clients srv' ! i)) \<and> poll_events k srv i h h' es"
proof -
  define a where "a = k h (Accept (listen_fd srv))"
  obtain s1 h1 where acc: "poll_accept k srv h = (s1, h1)" by force
  obtain now h2 where n: "now_us k h1 = (now, h2)" by force
  have "wf_server s1" using poll_accept_step [OF acc assms(2)] by (simp add: server_step_def)
  then have idle: "\<forall>c \<in> set (clients s1). wf_idle c" by (simp add: wf_server_def)
  from assms(1) have pc: "poll_clients k crypt s1 now (clients s1) h2 = Some (clients srv', h')"
    by (auto simp: rtsp_server_poll_def bind_eq_Some_conv acc n)
  note am = poll_accept_machine [OF acc i, folded a_def]
  let ?c = "clients srv ! i" and ?c1 = "clients s1 ! i" and ?c' = "clients srv' ! i"
  have "adds (\<lambda>_. True) (h @ [(Accept (listen_fd srv), a)]) h1" "adds (\<lambda>_. True) h1 h2" "adds (\<lambda>_. True) h2 h'"
    using poll_accept_foot [OF acc] now_us_foot [OF n] poll_clients_foot [OF pc] by (auto intro: adds_mono simp: a_def)
  then have "added h2 h' \<subseteq> added h h'" by (auto simp: adds_def added_def)
  moreover have "client_polled (added h2 h') ?c1 ?c'"
    using poll_clients_machine [OF pc idle] am i by (simp add: list_all2_conv_all_nth)
  ultimately have "client_polled (added h h') ?c1 ?c'" by (rule client_polled_mono [rotated])
  then obtain es where es: "machine_run (slot_state ?c1) es (slot_state ?c')"
      "if tcp_fd ?c1 < 0 then es = [] else polled (added h h') (tcp_fd ?c1) (rxbuf ?c1) es"
    by (auto simp: client_polled_def)
  show ?thesis
  proof (cases "free_slot (clients srv) = Some i \<and> 0 \<le> rv a")
    case True
    then have fr: "tcp_fd ?c < 0" using free_slot_Some [of "clients srv" i] by simp
    from True am have f: "fresh_client ?c1 (rv a)" by simp
    moreover have "slot_state ?c = Free" using fr by (simp add: slot_state_def)
    ultimately have "machine_step (slot_state ?c) Accepted (slot_state ?c1)"
      using machine_step.accept by (simp add: fresh_client_def)
    then have "machine_run (slot_state ?c) (Accepted # es) (slot_state ?c')" using es(1) by (rule machine_run.move)
    moreover have "poll_events k srv i h h' (Accepted # es)"
      using True fr f es(2) by (simp add: poll_events_def Let_def a_def [symmetric] fresh_client_def)
    ultimately show ?thesis by blast
  next
    case False
    with am have eq: "?c1 = ?c" by (auto split: if_splits)
    have "poll_events k srv i h h' es"
      using False es(2) unfolding eq poll_events_def Let_def a_def [symmetric] by auto
    with es(1) eq show ?thesis by auto
  qed
qed

lemma server_do_machine:
  assumes "server_do k crypt op srv h = Some (srv', h')" and "op \<noteq> Op_poll" and i: "i < length (clients srv)"
  shows "slot_state (clients srv' ! i) = slot_state (clients srv ! i)"
proof (cases op)
  case (Op_push s nal pts l)
  with assms(1) have p: "rtsp_server_push_nal k srv s nal pts l h = Some (srv', h')" by simp
  let ?s1 = "cache_param_set srv (nat s) nal"
  show ?thesis
  proof (cases "s < 0 \<or> s \<ge> int RTSP_STREAM_COUNT \<or> nal = [] \<or> nal_type nal = NAL_SEI")
    case True
    with p have "clients srv' = clients srv" by (auto simp: rtsp_server_push_nal_def Let_def split: if_splits)
    then show ?thesis by simp
  next
    case False
    with p obtain cs ts where "push_clients k (nat s) nal ts l (clients srv) h = Some (cs, h')" "srv' = ?s1\<lparr>clients := cs\<rparr>"
      by (auto simp: rtsp_server_push_nal_def Let_def bind_eq_Some_conv)
    then show ?thesis using push_clients_machine i by (auto simp: list_all2_conv_all_nth)
  qed
next
  case (Op_enable s n)
  with assms(1) show ?thesis by (auto simp: rtsp_server_enable_stream_def)
qed (use assms(1,2) in \<open>auto simp: rtsp_server_set_credentials_def rtsp_server_use_shadow_def rtsp_server_on_idr_request_def\<close>)

text \<open>One operation, and the well-formedness of a slot along any number of them.\<close>

lemma server_step_machine:
  assumes "server_do k crypt op srv h = Some (srv', h')" and "wf_server srv" and i: "i < length (clients srv)"
  shows "\<exists>es. machine_run (slot_state (clients srv ! i)) es (slot_state (clients srv' ! i)) \<and>
     (if op = Op_poll then poll_events k srv i h h' es else es = [])"
proof (cases "op = Op_poll")
  case True
  with assms(1) have "rtsp_server_poll k crypt srv h = Some (srv', h')" by simp
  from server_poll_machine [OF this assms(2) i] True show ?thesis by simp
next
  case False
  with server_do_machine [OF assms(1) False i] show ?thesis by (intro exI [of _ "[]"]) simp
qed

definition slots_ok :: "rtsp_server \<Rightarrow> bool" where
  "slots_ok srv \<longleftrightarrow> length (clients srv) = RTSP_MAX_CLIENTS \<and> (\<forall>c \<in> set (clients srv). slot_ok (slot_state c))"

lemma server_do_slots_ok:
  assumes "server_do k crypt op srv h = Some (srv', h')" and "kernel_ok k" and "wf_server srv" and "slots_ok srv"
  shows "wf_server srv' \<and> slots_ok srv'"
proof -
  have wf: "wf_server srv'" using server_do_ok [OF assms(2,3), of crypt op h] assms(1) by (auto simp: server_step_def)
  then have len: "length (clients srv') = RTSP_MAX_CLIENTS" by (simp add: wf_server_def)
  have "slot_ok (slot_state (clients srv' ! i))" if "i < RTSP_MAX_CLIENTS" for i
  proof -
    from that assms(4) have i: "i < length (clients srv)" "slot_ok (slot_state (clients srv ! i))" by (auto simp: slots_ok_def)
    from server_step_machine [OF assms(1,3) i(1)] i(2) show ?thesis by (blast intro: machine_run_ok)
  qed
  with wf len show ?thesis by (auto simp: slots_ok_def in_set_conv_nth)
qed

lemma server_run_slots_ok:
  "server_run k crypt ops srv h = Some (srv', h') \<Longrightarrow> kernel_ok k \<Longrightarrow> wf_server srv \<Longrightarrow> slots_ok srv \<Longrightarrow> wf_server srv' \<and> slots_ok srv'"
proof (induction ops arbitrary: srv h)
  case (Cons op ops)
  from Cons.prems(1) obtain s1 h1 where 1: "server_do k crypt op srv h = Some (s1, h1)" "server_run k crypt ops s1 h1 = Some (srv', h')"
    by (auto simp: bind_eq_Some_conv)
  from server_do_slots_ok [OF 1(1) Cons.prems(2-4)] Cons.IH [OF 1(2) Cons.prems(2)] show ?case by blast
qed simp

section \<open>A visitor\<close>

text \<open>A kernel on which every poll accepts a connection, and every socket delivers the request to set up a track.\<close>

definition visit_uri :: string where
  "visit_uri = ''rtsp://h/stream=0''"

definition visit_fields :: "(string \<times> string) list" where
  "visit_fields = [(''Transport'', ''RTP/AVP/TCP;unicast;interleaved=0-1'')]"

definition visit_req :: string where
  "visit_req = req_text ''SETUP'' visit_uri visit_fields"

definition k_visitor :: kernel where
  "k_visitor h c =
     (case c of
        Accept fd \<Rightarrow> ok_reply 20
      | Recv fd n \<Rightarrow> (ok_reply (int (min n (length visit_req))))\<lparr>rbytes := take n (bytes_of visit_req)\<rparr>
      | _ \<Rightarrow> k_idle h c)"

lemma length_bytes_of_visit: "length (bytes_of visit_req) = length visit_req"
  by (simp add: bytes_of_def)

lemma k_visitor_ok: "kernel_ok k_visitor"
proof -
  have "send_reliable k_visitor"
    by (auto simp: send_reliable_def send_bounded_def send_responsive_def k_visitor_def k_idle_def eintr_def intro!: exI [of _ 0])
  then show ?thesis
    by (auto simp: kernel_ok_def peer_ok_def send_reliable_def recv_ok_def time_ok_def k_visitor_def k_idle_def length_bytes_of_visit)
qed

lemma visit_wf: "wf_req ''SETUP'' visit_uri visit_fields"
  by (simp add: wf_req_def wf_word_def wf_field_def isspace_def visit_uri_def visit_fields_def)

lemma visit_transport: "header_or_empty visit_req ''Transport'' 256 = ''RTP/AVP/TCP;unicast;interleaved=0-1''"
  using header_req [OF visit_wf, of "''Transport''" 256]
  by (simp add: header_or_empty_def visit_req_def visit_fields_def tolower_def)

lemma visit_asks:
  "stream_of visit_uri = 0" "\<not> ends_with visit_uri ''metadata''"
  "strstr ''RTP/AVP/TCP;unicast;interleaved=0-1'' ''TCP'' \<noteq> None"
  "strstr ''RTP/AVP/TCP;unicast;interleaved=0-1'' ''interleaved='' \<noteq> None"
  by (simp_all add: stream_of_def visit_uri_def ends_with_def starts_with_def atoi_def isspace_def isdigit_def digit_val_def
      read_digits_def clamp_long_def STREAM_SLOTS_def Let_def)

lemma visit_setup:
  assumes "handle_setup k srv c visit_req visit_uri cseq h = Some (c', h')" and "stream_enabled srv 0"
    and "\<not> tcp_fd c < 0" and "length (tracks c) = RTSP_TRACK_COUNT" and "slot_state c = Taken None False {}"
  shows "\<exists>n. slot_state c' = Taken (Some n) False {RTSP_TRACK_VIDEO}"
proof -
  obtain p where p: "strstr ''RTP/AVP/TCP;unicast;interleaved=0-1'' ''interleaved='' = Some p" using visit_asks(4) by blast
  have "\<exists>t q h1. setup_tail k c 0 RTSP_TRACK_VIDEO t q cseq h1 = Some (c', h')"
    using assms(1)
    unfolding handle_setup_def Let_def visit_transport visit_asks(1) if_not_P [OF visit_asks(2)] if_P [OF visit_asks(3)] p option.case
      case_prod_beta
    using assms(2) by auto
  then obtain t q h1 where "setup_tail k c 0 RTSP_TRACK_VIDEO t q cseq h1 = Some (c', h')" by blast
  from setup_tail_machine [OF this assms(3) _ assms(4)]
  obtain n where "machine_step (slot_state c) (Did_setup RTSP_TRACK_VIDEO n) (slot_state c')" by (auto simp: rtsp_consts)
  then show ?thesis unfolding assms(5) by (auto elim: machine_step.cases)
qed

lemma visit_drain:
  assumes "drain_requests k crypt srv c h = Some (c', h')" and "rxbuf c = visit_req" and "\<not> auth_enabled srv" and "stream_enabled srv 0"
    and "\<not> tcp_fd c < 0" and "length (tracks c) = RTSP_TRACK_COUNT" and "slot_state c = Taken None False {}"
  shows "\<exists>n. slot_state c' = Taken (Some n) False {RTSP_TRACK_VIDEO}"
proof -
  define cseq where "cseq = header_or_empty visit_req ''CSeq'' 32"
  have "auth_ok k crypt srv c visit_req cseq h = Some (True, h)" using assms(3) by (simp add: auth_ok_def)
  then have req: "handle_request k crypt srv c visit_req h =
      handle_setup k srv c visit_req visit_uri cseq h \<bind> (\<lambda>(c, h). Some (True, c, h))"
    using handle_request_text [OF visit_wf, of k crypt srv c h, folded visit_req_def, folded cseq_def]
    by (simp add: dispatch_def Let_def)
  have step: "drain_requests k crypt srv c h =
     (case handle_request k crypt srv c visit_req h of
        None \<Rightarrow> None
      | Some (done, c', h) \<Rightarrow> if done then drain_requests k crypt srv (c'\<lparr>rxbuf := []\<rparr>) h else Some (c', h))"
    unfolding visit_req_def by (rule drain_requests_step_text [OF visit_wf]) (simp add: assms(2) visit_req_def)
  from assms(1) obtain c1 h1 where 1: "handle_setup k srv c visit_req visit_uri cseq h = Some (c1, h1)"
    and 2: "drain_requests k crypt srv (c1\<lparr>rxbuf := []\<rparr>) h1 = Some (c', h')"
    unfolding step req by (cases "handle_setup k srv c visit_req visit_uri cseq h") auto
  have "strstr (cstr (rxbuf (c1\<lparr>rxbuf := []\<rparr>))) (CRLF @ CRLF) = None" by (simp add: cstr_def)
  with 2 have "c' = c1\<lparr>rxbuf := []\<rparr>" by (simp add: drain_requests_none)
  with visit_setup [OF 1 assms(4-7)] show ?thesis by simp
qed

lemma visit_poll_client:
  assumes "poll_client k_visitor crypt srv now c h = Some (c', h')" and "rxbuf c = []" and "\<not> auth_enabled srv" and "stream_enabled srv 0"
    and "\<not> tcp_fd c < 0" and "length (tracks c) = RTSP_TRACK_COUNT" and "slot_state c = Taken None False {}"
  shows "\<exists>n. slot_state c' = Taken (Some n) False {RTSP_TRACK_VIDEO}"
proof -
  define r where "r = k_visitor h (Recv (tcp_fd c) (RX_CAP - 1 - length (rxbuf c)))"
  define h1 where "h1 = h @ [(Recv (tcp_fd c) (RX_CAP - 1 - length (rxbuf c)), r)]"
  define c1 where "c1 = (if rv r > 0 then c\<lparr>rxbuf := rxbuf c @ map (char_of \<circ> unat) (take (nat (rv r)) (rbytes r))\<rparr> else c)"
  note def = assms(1) [unfolded poll_client_open [of c r k_visitor h h1 c1, OF assms(5) r_def h1_def c1_def]]
  have len: "0 < length visit_req" "length visit_req \<le> RX_CAP - 1"
    by (simp_all add: visit_req_def req_text_def visit_uri_def visit_fields_def RX_CAP_def)
  have r: "rv r = int (length visit_req)" "rbytes r = bytes_of visit_req"
    using len by (simp_all add: r_def k_visitor_def assms(2) length_bytes_of_visit)
  have c1: "c1 = c\<lparr>rxbuf := visit_req\<rparr>"
    using len bytes_of_inverse [of visit_req] by (simp add: c1_def r assms(2) length_bytes_of_visit comp_def)
  from def r len obtain c2 h2 where d: "drain_requests k_visitor crypt srv c1 h1 = Some (c2, h2)"
    and m: "poll_metadata k_visitor srv now (if length (rxbuf c2) \<ge> RX_CAP - 1 then c2\<lparr>rxbuf := []\<rparr> else c2) h2 = Some (c', h')"
    by (auto simp: bind_eq_Some_conv split: if_splits)
  have "\<exists>n. slot_state c2 = Taken (Some n) False {RTSP_TRACK_VIDEO}"
    by (rule visit_drain [OF d]) (use assms in \<open>simp_all add: c1\<close>)
  then show ?thesis using poll_metadata_machine [OF m] by (simp split: if_splits)
qed

lemma poll_accept_config:
  "poll_accept k srv h = (srv', h') \<Longrightarrow> auth_enabled srv' = auth_enabled srv \<and> stream_on srv' = stream_on srv"
  by (auto simp: poll_accept_def sys_def Let_def split: option.splits if_splits prod.splits)

lemma init_config:
  "rtsp_server_init k port h = (0, srv, h') \<Longrightarrow> \<not> auth_enabled srv \<and> stream_on srv = replicate RTSP_STREAM_COUNT False"
  by (auto simp: rtsp_server_init_def server0_def sys_def Let_def split: if_splits prod.splits)

text \<open>Polled for the first time, the server takes the visitor into its first slot and sets its track up.\<close>

lemma visit_poll:
  assumes "rtsp_server_poll k_visitor crypt srv h = Some (srv', h')" and "clients srv = replicate RTSP_MAX_CLIENTS client_init"
    and "\<not> auth_enabled srv" and "stream_enabled srv 0" and "wf_server srv"
  shows "\<exists>n. slot_state (clients srv' ! 0) = Taken (Some n) False {RTSP_TRACK_VIDEO}"
proof -
  have free: "free_slot (clients srv) = Some 0" "0 < length (clients srv)" by (simp_all add: assms(2) rtsp_consts client_init_def numeral_eq_Suc)
  obtain s1 h1 where acc: "poll_accept k_visitor srv h = (s1, h1)" by force
  obtain now h2 where n: "now_us k_visitor h1 = (now, h2)" by force
  from assms(1) have pc: "poll_clients k_visitor crypt s1 now (clients s1) h2 = Some (clients srv', h')"
    by (auto simp: rtsp_server_poll_def bind_eq_Some_conv acc n)
  have "rv (k_visitor h (Accept (listen_fd srv))) = 20" by (simp add: k_visitor_def)
  with poll_accept_machine [OF acc free(2)] free(1) have f: "fresh_client (clients s1 ! 0) 20" "length (clients s1) = length (clients srv)"
    by simp_all
  have wf1: "wf_server s1" using poll_accept_step [OF acc assms(5)] by (simp add: server_step_def)
  obtain c cs where c: "clients s1 = c # cs" using f(2) free(2) by (cases "clients s1") auto
  with pc obtain c' h3 cs' where 1: "poll_client k_visitor crypt s1 now c h2 = Some (c', h3)" "clients srv' = c' # cs'"
    by (auto simp: bind_eq_Some_conv dest: sym)
  have fc: "\<not> tcp_fd c < 0" "rxbuf c = []" "slot_state c = Taken None False {}" using f(1) by (simp_all add: c fresh_client_def)
  have "wf_idle c" using wf1 c by (simp add: wf_server_def)
  then have "length (tracks c) = RTSP_TRACK_COUNT" by (simp add: wf_idle_def wf_client_def)
  from visit_poll_client [OF 1(1) fc(2) _ _ fc(1) this fc(3)] poll_accept_config [OF acc] assms(3,4) show ?thesis
    by (simp add: 1(2) stream_enabled_def)
qed

section \<open>Refinement\<close>

text \<open>C3: The server refines the session machine of RTSP, step by step. In any state it reaches after a successful
  initialisation, and for any next operation, what a peer can observe of each of the eight client slots moves by
  a run of the machine whose labels are explained by the operation. Only a poll moves a slot: the first free one
  is taken exactly when a connection was accepted; a taken one is given up exactly when its socket was at its
  end or broken; otherwise its moves are among those that the requests in its buffer ask for, in their order and
  at most one for each: a SETUP sets up the track of its URI or fails to, a PLAY or a TEARDOWN acts on
  the session it names, and no other request does anything. By the machine the first SETUP brings a session
  number of 31 bits that stays until TEARDOWN, and nothing plays and no track is set up without a session.\<close>
theorem server_refines_sessions:
  assumes "kernel_ok k" and "rtsp_server_init k port h = (0, srv0, h0)"
    and "server_run k crypt ops srv0 h0 = Some (srv, h1)" and "server_do k crypt op srv h1 = Some (srv', h')"
    and "i < RTSP_MAX_CLIENTS"
  shows "length (clients srv) = RTSP_MAX_CLIENTS \<and> length (clients srv') = RTSP_MAX_CLIENTS \<and>
     slot_ok (slot_state (clients srv ! i)) \<and> slot_ok (slot_state (clients srv' ! i)) \<and>
     (\<exists>es. machine_run (slot_state (clients srv ! i)) es (slot_state (clients srv' ! i)) \<and>
        (if op = Op_poll then poll_events k srv i h1 h' es else es = []))"
proof -
  note init = rtsp_server_init_facts [OF assms(2)]
  have wf0: "wf_server srv0" using init by blast
  have "slots_ok srv0" using init by (auto simp: slots_ok_def)
  from server_run_slots_ok [OF assms(3,1) wf0 this] have s: "wf_server srv" "slots_ok srv" by simp_all
  have s': "slots_ok srv'" using server_do_slots_ok [OF assms(4,1) s] by blast
  have i: "i < length (clients srv)" "i < length (clients srv')" using s(2) s' assms(5) by (simp_all add: slots_ok_def)
  then have "slot_ok (slot_state (clients srv ! i))" "slot_ok (slot_state (clients srv' ! i))"
    using s(2) s' by (simp_all add: slots_ok_def)
  with server_step_machine [OF assms(4) s(1) i(1)] s(2) s' show ?thesis by (simp add: slots_ok_def)
qed

lemma server_refines_sessions_witness:
  "\<exists>srv0 h0 srv h1 srv' h' n es.
     rtsp_server_init k_visitor 554 [] = (0, srv0, h0) \<and> server_run k_visitor (\<lambda>p s. None) [Op_enable 0 25] srv0 h0 = Some (srv, h1) \<and>
     server_do k_visitor (\<lambda>p s. None) Op_poll srv h1 = Some (srv', h') \<and>
     slot_state (clients srv ! 0) = Free \<and> slot_state (clients srv' ! 0) = Taken (Some n) False {RTSP_TRACK_VIDEO} \<and> unat n < 2 ^ 31 \<and>
     machine_run Free (Accepted # es) (Taken (Some n) False {RTSP_TRACK_VIDEO}) \<and> polled (added h1 h') 20 [] es"
proof -
  have "fst (rtsp_server_init k_visitor 554 []) = 0"
    by (auto simp: rtsp_server_init_def sys_def k_visitor_def k_idle_def ok_reply_def split: prod.splits)
  then obtain srv0 h0 where i: "rtsp_server_init k_visitor 554 [] = (0, srv0, h0)"
    by (cases "rtsp_server_init k_visitor 554 []") auto
  define srv where "srv = rtsp_server_enable_stream srv0 0 25"
  have run: "server_run k_visitor (\<lambda>p s. None) [Op_enable 0 25] srv0 h0 = Some (srv, h0)" by (simp add: srv_def)
  note init = rtsp_server_init_facts [OF i]
  have s: "clients srv = replicate RTSP_MAX_CLIENTS client_init" "\<not> auth_enabled srv" "stream_enabled srv 0"
    using init init_config [OF i] by (auto simp: srv_def rtsp_server_enable_stream_def stream_enabled_def rtsp_consts)
  have wf0: "wf_server srv0" using init by blast
  have wf: "wf_server srv" using server_run_ok [OF k_visitor_ok wf0, of "\<lambda>p s. None" "[Op_enable 0 25]" h0] unfolding run by (auto simp: server_step_def)
  obtain srv' h' where p: "server_do k_visitor (\<lambda>p s. None) Op_poll srv h0 = Some (srv', h')"
    using server_do_ok [OF k_visitor_ok wf] by blast
  then have "rtsp_server_poll k_visitor (\<lambda>p s. None) srv h0 = Some (srv', h')" by simp
  from visit_poll [OF this s wf] obtain n where n: "slot_state (clients srv' ! 0) = Taken (Some n) False {RTSP_TRACK_VIDEO}" by blast
  have z: "0 < RTSP_MAX_CLIENTS" by (simp add: rtsp_consts)
  have c0: "slot_state (clients srv ! 0) = Free" "tcp_fd (clients srv ! 0) < 0" "free_slot (clients srv) = Some 0"
    using z by (simp_all add: s(1) client_init_def slot_state_def rtsp_consts numeral_eq_Suc)
  have a: "rv (k_visitor h0 (Accept (listen_fd srv))) = 20" by (simp add: k_visitor_def)
  from server_refines_sessions [OF k_visitor_ok i run p z] n c0
  obtain es where es: "unat n < 2 ^ 31" "machine_run Free es (Taken (Some n) False {RTSP_TRACK_VIDEO})" "poll_events k_visitor srv 0 h0 h' es"
    by auto
  from es(3) obtain es' where "es = Accepted # es'" "polled (added h0 h') 20 [] es'"
    using c0 by (auto simp: poll_events_def Let_def a)
  with i run p c0(1) n es(1,2) show ?thesis by blast
qed

end
