(* ===== verification/Isp_Buf_Addr.thy ===== *)
theory Isp_Buf_Addr
  imports Os
begin

text \<open>
  \<open>sdk/lib/isp_buf_addr.c\<close>: the sizes of the ISP's working buffers, the bump allocator that cuts
  them out of one pool, and the calls that hand their addresses to the driver. The file's static
  \<open>isp_core\<close> is a record passed along; its thirteen pairs of fields \<open>x\<close>, \<open>x_size\<close> are two maps over
  the names of the buffers. The allocator is an instance of a locale of bump allocators.
\<close>

section \<open>State\<close>

definition ISP_IOCTL_HANDSHAKE :: u32 where "ISP_IOCTL_HANDSHAKE = 0x40016921"
definition ISP_IOCTL_GET_BUF_INFO :: u32 where "ISP_IOCTL_GET_BUF_INFO = 0x80306926"
definition ISP_IOCTL_SET_DMA_ADDRS :: u32 where "ISP_IOCTL_SET_DMA_ADDRS = 0x40016920"
definition ISP_IOCTL_SET_STAT_INFO :: u32 where "ISP_IOCTL_SET_STAT_INFO = 0x40786904"
definition ISP_IOCTL_GET_STAT_INFO :: u32 where "ISP_IOCTL_GET_STAT_INFO = 0x80786905"
definition VMM_IOCTL_ALLOC :: u32 where "VMM_IOCTL_ALLOC = 0xC0506D0A"
definition POOL_ALIGN :: u32 where "POOL_ALIGN = 0x10000"
definition FH_ERR_MEM_ALLOC :: int where "FH_ERR_MEM_ALLOC = sint (0xa008400b :: u32)"
definition FH_ERR_NO_MEM :: int where "FH_ERR_NO_MEM = sint (0xa008400e :: u32)"

definition DMA_ADDRS_SIZE :: nat where "DMA_ADDRS_SIZE = 88"
definition STAT_INFO_SIZE :: nat where "STAT_INFO_SIZE = 120"
definition ISPP_STAT_SIZE :: u32 where "ISPP_STAT_SIZE = 3 * 0x60c8"
definition ISPF_STAT_SIZE :: u32 where "ISPF_STAT_SIZE = push_bit 2 3"

datatype isp_buf =
    isp_mem_front | gosd | ispp_stat | ispf_stat | ispb_stat | nr3d_stat | nr3d_frame | nr3d_coef
  | nr3d_nr2d_coef | mem_after_nr3d | drc_stat0 | mem_after_drc | isp_mem_end

text \<open>Offsets of the addresses in the argument of the address call (\<open>DMA_OFF_...\<close>).\<close>

definition dma_offsets :: "(nat \<times> isp_buf) list" where
  "dma_offsets = [(24, nr3d_frame), (28, nr3d_coef), (32, nr3d_nr2d_coef), (36, nr3d_stat), (40, drc_stat0),
     (60, gosd), (72, isp_mem_front), (80, mem_after_nr3d), (84, mem_after_drc)]"

record isp_core =
  isp_fd :: int
  vmm_fd :: int
  pool_phys_base :: u32
  pool_total_size :: u32
  pool_cursor :: u32
  buf_addr :: "isp_buf \<Rightarrow> u32"
  buf_size :: "isp_buf \<Rightarrow> u32"

text \<open>The static object before any call.\<close>

definition isp_core0 :: isp_core where
  "isp_core0 = \<lparr>isp_fd = 0, vmm_fd = 0, pool_phys_base = 0, pool_total_size = 0, pool_cursor = 0,
     buf_addr = (\<lambda>_. 0), buf_size = (\<lambda>_. 0)\<rparr>"

definition isp_core_set_fds :: "int \<Rightarrow> int \<Rightarrow> isp_core \<Rightarrow> isp_core" where
  "isp_core_set_fds ifd vfd core = core\<lparr>isp_fd := ifd, vmm_fd := vfd\<rparr>"

definition round_up8 :: "u32 \<Rightarrow> u32" where
  "round_up8 v = (v + 7) AND 0xfffffff8"

definition round_up128 :: "u32 \<Rightarrow> u32" where
  "round_up128 v = (v + 0x7f) AND 0xffffff80"

section \<open>Logging\<close>

text \<open>
  The loggers write one line to the trace file of the driver, if it can be opened, and one to
  standard output. Their lines are far shorter than the buffers they are built in.
\<close>

definition write_trace :: "kernel \<Rightarrow> string \<Rightarrow> hist \<Rightarrow> hist" where
  "write_trace k msg h =
     (let (r, h) = sys k (Open ''/proc/driver/trace'' 1) h
      in if rv r \<ge> 0 then sys_h k (Close (rv r)) (sys_h k (Write (rv r) (bytes_of msg)) h) else h)"

definition mem_line :: "nat \<Rightarrow> u32 \<Rightarrow> u32 \<Rightarrow> string \<Rightarrow> string" where
  "mem_line line addr sz name =
     ''isp_core_alloc_buf_addr('' @ dec line @ ''): [MEM_LOG] 0x'' @ hex_fixed 8 (unat addr) @ ''-0x''
       @ hex_fixed 8 (unat (addr + sz)) @ '' '' @ name @ ''('' @ dec (unat (drop_bit 10 sz)) @ '' KB)'' @ [LF]"

definition mem_log :: "kernel \<Rightarrow> nat \<Rightarrow> u32 \<Rightarrow> u32 \<Rightarrow> string \<Rightarrow> hist \<Rightarrow> hist" where
  "mem_log k line addr sz name h =
     sys_h k (Print (mem_line line addr sz name))
       (write_trace k (''msg:0:16:[API]'' @ mem_line line addr sz name) h)"

definition err_log :: "kernel \<Rightarrow> string \<Rightarrow> nat \<Rightarrow> string \<Rightarrow> hist \<Rightarrow> hist" where
  "err_log k func line body h =
     (let body_line = func @ ''('' @ dec line @ ''): '' @ trunc 192 body in
      sys_h k (Print body_line) (write_trace k (''msg:4:67108864:[API]'' @ body_line) h))"

definition simple_err_log :: "kernel \<Rightarrow> string \<Rightarrow> nat \<Rightarrow> string \<Rightarrow> hist \<Rightarrow> hist" where
  "simple_err_log k func line body h =
     sys_h k (Print body) (sys_h k (Print (''[ISP_CORE_ERROR]: '' @ func @ '' LINE:'' @ dec line @ '': '')) h)"

section \<open>Sizes\<close>

definition buf_sizes :: "u32 \<Rightarrow> u32 \<Rightarrow> u32 list" where
  "buf_sizes width height =
     (let main_row = round_up8 (drop_bit 3 (width * 10 + 7));
          sub_row = round_up8 (drop_bit 3 ((drop_bit 2 width) * 10 + 7));
          out = replicate 22 0;
          out = out[0 := height * main_row];
          out = out[1 := (drop_bit 2 height) * sub_row];
          out = out[2 := out ! 1];
          out = out[3 := 0x5000];
          out = out[4 := 0x41a0];
          out = out[0x11 := 0, 0x12 := 0, 0x13 := 0, 0x14 := 0x200]
      in out[0x15 := round_up128 (out ! 0)
               + ((round_up128 ISPF_STAT_SIZE + round_up128 ISPP_STAT_SIZE + 0xffff) AND 0xffff0000)
               + round_up128 (out ! 1) * 2 + 0x9400])"

definition isp_core_get_buf_size :: "kernel \<Rightarrow> isp_core \<Rightarrow> u32 \<Rightarrow> u32 \<Rightarrow> hist \<Rightarrow> u32 list \<times> hist" where
  "isp_core_get_buf_size k core width height h =
     (buf_sizes width height, sys_h k (Ioctl (isp_fd core) ISP_IOCTL_GET_BUF_INFO (Arg_words (replicate 32 0))) h)"

section \<open>The pool\<close>

definition vmm_request :: "u32 \<Rightarrow> u32 \<Rightarrow> string \<Rightarrow> u8 list" where
  "vmm_request sz align name =
     put (bytes_of (take 15 name)) 0x1C (put (le32 sz) 12 (put (le32 align) 8 (replicate 80 0)))"

definition buffer_malloc_withname :: "kernel \<Rightarrow> u32 \<Rightarrow> u32 \<Rightarrow> string \<Rightarrow> isp_core \<Rightarrow> hist \<Rightarrow> int \<times> isp_core \<times> hist" where
  "buffer_malloc_withname k sz align name core h =
     (let (r, req, h) = ioctl_bytes k (vmm_fd core) VMM_IOCTL_ALLOC (vmm_request sz align name) h
      in if r < 0 then (r, core, h)
         else (0, core\<lparr>pool_phys_base := get_le32 req 0, pool_total_size := sz\<rparr>, h))"

text \<open>
  \<open>isp_malloc\<close> with the field it stores to: its old value goes in, its new one comes out. All
  arithmetic is modulo \<open>2 ^ 32\<close>.
\<close>

definition align_up :: "u32 \<Rightarrow> u32 \<Rightarrow> u32" where
  "align_up v align =
     (let mask = (if align \<noteq> 0 then NOT (align - 1) else 0xffffffff);
          align_term = (if align \<noteq> 0 then align else 1)
      in (v + align_term - 1) AND mask)"

definition isp_malloc :: "kernel \<Rightarrow> u32 \<Rightarrow> u32 \<Rightarrow> u32 \<Rightarrow> isp_core \<Rightarrow> hist \<Rightarrow> int \<times> u32 \<times> isp_core \<times> hist" where
  "isp_malloc k sz align old core h =
     (if sz = 0 then (0, old, core, h)
      else
        let aligned = align_up (pool_phys_base core + pool_cursor core) align;
            pool_end = pool_phys_base core + pool_total_size core
        in if pool_end < sz + aligned then
             (FH_ERR_NO_MEM, old, core,
              simple_err_log k ''isp_malloc'' 0x25
                (''[mm] free size : 0x'' @ hex (unat (pool_end - aligned)) @ '' need size:0x'' @ hex (unat sz) @ ''. '' @ [LF]) h)
           else (0, aligned, core\<lparr>pool_cursor := sz + aligned - pool_phys_base core\<rparr>, h))"

text \<open>The thirteen allocations of the \<open>ALLOC\<close> macro: buffer, size, line number and printed name.\<close>

definition alloc_plan :: "u32 list \<Rightarrow> (isp_buf \<times> u32 \<times> nat \<times> string) list" where
  "alloc_plan bufsz =
     [(isp_mem_front, bufsz ! 0x11, 0x215, ''isp_mem_front''),
      (gosd, bufsz ! 0x14, 0x219, ''gosd''),
      (ispp_stat, ISPP_STAT_SIZE, 0x224, ''ispp_stat''),
      (ispf_stat, ISPF_STAT_SIZE, 0x225, ''ispf_stat''),
      (ispb_stat, 0, 0x226, ''ispb_stat''),
      (nr3d_stat, bufsz ! 3, 0x233, ''nr3d_stat''),
      (nr3d_frame, bufsz ! 0, 0x234, ''nr3d_frame''),
      (nr3d_coef, bufsz ! 1, 0x235, ''nr3d_coef''),
      (nr3d_nr2d_coef, bufsz ! 2, 0x236, ''nr3d_nr2d_coef''),
      (mem_after_nr3d, bufsz ! 0x13, 0x237, ''mem_after_nr3d''),
      (drc_stat0, bufsz ! 4, 0x23b, ''drc_stat0''),
      (mem_after_drc, bufsz ! 0x13, 0x23c, ''mem_after_drc''),
      (isp_mem_end, bufsz ! 0x12, 0x240, ''isp_mem_end'')]"

fun alloc_all :: "kernel \<Rightarrow> (isp_buf \<times> u32 \<times> nat \<times> string) list \<Rightarrow> isp_core \<Rightarrow> hist \<Rightarrow> int \<times> isp_core \<times> hist" where
  "alloc_all k [] core h = (0, core, h)"
| "alloc_all k ((b, sz, line, name) # ps) core h =
     (let (r, addr, core, h) = isp_malloc k sz 0x80 (buf_addr core b) core h
      in if r < 0 then (FH_ERR_MEM_ALLOC, core, h)
         else
           let core = core\<lparr>buf_addr := (buf_addr core)(b := addr), buf_size := (buf_size core)(b := sz)\<rparr>;
               h = mem_log k line addr sz name h
           in alloc_all k ps core h)"

definition dma_addrs :: "isp_core \<Rightarrow> u8 list" where
  "dma_addrs core = foldl (\<lambda>buf (off, b). put (le32 (buf_addr core b)) off buf) (replicate DMA_ADDRS_SIZE 0) dma_offsets"

definition isp_core_alloc_buf_addr :: "kernel \<Rightarrow> u32 \<Rightarrow> u32 \<Rightarrow> isp_core \<Rightarrow> hist \<Rightarrow> int \<times> isp_core \<times> hist" where
  "isp_core_alloc_buf_addr k width height core h =
     (let (bufsz, h) = isp_core_get_buf_size k core width height h;
          h = sys_h k (Ioctl (isp_fd core) ISP_IOCTL_HANDSHAKE (Arg_words [0])) h;
          (r, core, h) = buffer_malloc_withname k (bufsz ! 0x15) POOL_ALIGN ''isp'' core h
      in if r < 0 then (FH_ERR_MEM_ALLOC, core, h)
         else
           let core = core\<lparr>pool_cursor := 0\<rparr> in
           if pool_total_size core < bufsz ! 0x15 then
             (FH_ERR_MEM_ALLOC, core, err_log k ''isp_core_alloc_buf_addr'' 0x20a (''isp core init not get enough buffer.'' @ [LF]) h)
           else
             let (r, core, h) = alloc_all k (alloc_plan bufsz) core h in
             if r < 0 then (r, core, h)
             else
               let dma = dma_addrs core;
                   stat = replicate STAT_INFO_SIZE 0;
                   (s, h) = sys k (Ioctl (isp_fd core) ISP_IOCTL_SET_STAT_INFO (Arg_bytes stat)) h
               in if rv s \<noteq> 0 then
                    (FH_ERR_MEM_ALLOC, core, err_log k ''isp_core_alloc_buf_addr'' 0x250
                       (''ioctl SET_STAT_INFO failed: '' @ hex (nat (err s)) @ [LF]) h)
                  else
                    let stat = overlay (rbytes s) stat;
                        (d, h) = sys k (Ioctl (isp_fd core) ISP_IOCTL_SET_DMA_ADDRS (Arg_bytes dma)) h
                    in if rv d \<noteq> 0 then
                         (FH_ERR_MEM_ALLOC, core, simple_err_log k ''isp_core_alloc_buf_addr'' 599
                            (''set SET_ADDR to driver error, errorno='' @ dec_int (err d) @ [LF] @ '' '') h)
                       else
                         let (g, h) = sys k (Ioctl (isp_fd core) ISP_IOCTL_GET_STAT_INFO (Arg_bytes stat)) h
                         in if rv g \<noteq> 0 then
                              (FH_ERR_MEM_ALLOC, core, simple_err_log k ''isp_core_alloc_buf_addr'' 0x260
                                 (''ioctl GET_STAT_INFO failed: '' @ hex (nat (err g)) @ [LF]) h)
                            else (0, core, h))"

section \<open>Bump allocators\<close>

text \<open>
  What a bump allocator promises: an allocation returns an aligned range above everything used so
  far and below the limit, and it succeeds when the rest is large enough for the worst alignment.
\<close>

locale bump_allocator =
  fixes alloc :: "nat \<Rightarrow> 's \<Rightarrow> (nat \<times> 's) option"
    and used :: "'s \<Rightarrow> nat"
    and limit :: "'s \<Rightarrow> nat"
    and unit_size :: nat
    and cap :: nat
    and good :: "'s \<Rightarrow> bool"
  assumes alloc_range: "good s \<Longrightarrow> 0 < n \<Longrightarrow> n \<le> cap \<Longrightarrow> alloc n s = Some (a, s') \<Longrightarrow>
      used s \<le> a \<and> a \<le> used s + unit_size \<and> a + n = used s' \<and> used s' \<le> limit s \<and> a mod unit_size = 0"
    and alloc_keeps: "good s \<Longrightarrow> 0 < n \<Longrightarrow> n \<le> cap \<Longrightarrow> alloc n s = Some (a, s') \<Longrightarrow> good s' \<and> limit s' = limit s"
    and alloc_fits: "good s \<Longrightarrow> 0 < n \<Longrightarrow> n \<le> cap \<Longrightarrow> used s + n + unit_size \<le> limit s \<Longrightarrow> alloc n s \<noteq> None"
begin

fun allocs :: "nat list \<Rightarrow> 's \<Rightarrow> (nat list \<times> 's) option" where
  "allocs [] s = Some ([], s)"
| "allocs (n # ns) s =
     (case alloc n s of None \<Rightarrow> None
      | Some (a, s) \<Rightarrow> (case allocs ns s of None \<Rightarrow> None | Some (as, s) \<Rightarrow> Some (a # as, s)))"

definition sizes_ok :: "nat list \<Rightarrow> bool" where
  "sizes_ok ns \<longleftrightarrow> (\<forall>n \<in> set ns. 0 < n \<and> n \<le> cap)"

lemma sizes_ok_Cons [simp]: "sizes_ok (n # ns) \<longleftrightarrow> 0 < n \<and> n \<le> cap \<and> sizes_ok ns"
  by (auto simp: sizes_ok_def)

text \<open>Successive allocations lie above one another between the old and the new end of the used part.\<close>

fun stacked :: "nat \<Rightarrow> nat list \<Rightarrow> nat list \<Rightarrow> nat \<Rightarrow> bool" where
  "stacked lo [] [] hi = (lo \<le> hi)"
| "stacked lo (n # ns) (a # as) hi = (lo \<le> a \<and> a mod unit_size = 0 \<and> stacked (a + n) ns as hi)"
| "stacked lo _ _ hi = False"

lemma allocs_stacked:
  "good s \<Longrightarrow> sizes_ok ns \<Longrightarrow> allocs ns s = Some (as, s') \<Longrightarrow>
     stacked (used s) ns as (used s') \<and> good s' \<and> limit s' = limit s \<and> (used s \<le> limit s \<longrightarrow> used s' \<le> limit s)"
proof (induction ns arbitrary: s as)
  case (Cons n ns)
  from Cons.prems(3) obtain a s1 as1 where
    1: "alloc n s = Some (a, s1)" "allocs ns s1 = Some (as1, s')" "as = a # as1"
    by (auto split: option.splits)
  from Cons.prems have n: "0 < n" "n \<le> cap" "sizes_ok ns" by auto
  note r = alloc_range [OF Cons.prems(1) n(1,2) 1(1)] and kp = alloc_keeps [OF Cons.prems(1) n(1,2) 1(1)]
  from Cons.IH [OF conjunct1 [OF kp] n(3) 1(2)] r kp show ?case by (simp add: 1(3))
qed simp

lemma allocs_succeed:
  "good s \<Longrightarrow> sizes_ok ns \<Longrightarrow> used s + (\<Sum>n \<leftarrow> ns. n + unit_size) \<le> limit s \<Longrightarrow> \<exists>as s'. allocs ns s = Some (as, s')"
proof (induction ns arbitrary: s)
  case (Cons n ns)
  from Cons.prems have n: "0 < n" "n \<le> cap" "sizes_ok ns" by auto
  from Cons.prems(3) alloc_fits [OF Cons.prems(1) n(1,2)] obtain a s1 where 1: "alloc n s = Some (a, s1)" by fastforce
  note r = alloc_range [OF Cons.prems(1) n(1,2) 1] and kp = alloc_keeps [OF Cons.prems(1) n(1,2) 1]
  have "used s1 + (\<Sum>n \<leftarrow> ns. n + unit_size) \<le> limit s1" using r kp Cons.prems(3) by simp
  from Cons.IH [OF conjunct1 [OF kp] n(3) this] show ?case by (auto simp: 1)
qed simp

lemma stacked_disjoint:
  "stacked lo ns as hi \<Longrightarrow> length as = length ns \<and> lo \<le> hi \<and>
     (\<forall>i < length ns. lo \<le> as ! i \<and> as ! i + ns ! i \<le> hi \<and> as ! i mod unit_size = 0) \<and>
     (\<forall>i j. i < j \<longrightarrow> j < length ns \<longrightarrow> as ! i + ns ! i \<le> as ! j)"
proof (induction lo ns as hi rule: stacked.induct)
  case (2 lo n ns a as hi)
  then have IH: "length as = length ns" "a + n \<le> hi"
     "\<forall>i < length ns. a + n \<le> as ! i \<and> as ! i + ns ! i \<le> hi \<and> as ! i mod unit_size = 0"
     "\<forall>i j. i < j \<longrightarrow> j < length ns \<longrightarrow> as ! i + ns ! i \<le> as ! j" and a: "lo \<le> a" "a mod unit_size = 0" by auto
  show ?case
  proof (intro conjI allI impI)
    fix i j assume "i < j" "j < length (n # ns)"
    then show "(a # as) ! i + (n # ns) ! i \<le> (a # as) ! j"
      using IH(3,4) by (cases i; cases j) auto
  next
    fix i assume "i < length (n # ns)"
    then show "lo \<le> (a # as) ! i" "(a # as) ! i + (n # ns) ! i \<le> hi" "(a # as) ! i mod unit_size = 0"
      using IH(2,3) a by (cases i; fastforce)+
  qed (use IH a in auto)
qed auto

end

section \<open>The pool is a bump allocator\<close>

text \<open>The allocator of the model, seen on natural numbers: the kernel and the history only carry its log.\<close>

definition pool_alloc :: "nat \<Rightarrow> isp_core \<Rightarrow> (nat \<times> isp_core) option" where
  "pool_alloc n core =
     (case isp_malloc (\<lambda>h c. ok_reply 0) (word_of_nat n) 0x80 0 core [] of
        (r, a, core', _) \<Rightarrow> if r < 0 then None else Some (unat a, core'))"

definition pool_used :: "isp_core \<Rightarrow> nat" where
  "pool_used core = unat (pool_phys_base core) + unat (pool_cursor core)"

definition pool_limit :: "isp_core \<Rightarrow> nat" where
  "pool_limit core = unat (pool_phys_base core) + unat (pool_total_size core)"

text \<open>The pool lies so low that adding a request to an address in it cannot wrap.\<close>

definition pool_good :: "nat \<Rightarrow> isp_core \<Rightarrow> bool" where
  "pool_good cap core \<longleftrightarrow> pool_used core \<le> pool_limit core \<and> pool_limit core + 128 + cap < 2 ^ 32"

lemma unat_align_up:
  assumes "unat v + 127 < 2 ^ 32"
  shows "unat (align_up v 0x80) = (unat v + 127) div 128 * 128"
proof -
  have nz: "(0x80 :: u32) \<noteq> 0" by simp
  have "(0x80 - 1 :: u32) = mask 7" by (simp add: mask_eq_exp_minus_1)
  moreover have "v + 0x80 - 1 = v + 127" by simp
  moreover have "align_up v 0x80 = (v + 0x80 - 1) AND NOT (0x80 - 1)"
    unfolding align_up_def Let_def by (simp only: nz if_True not_False_eq_True)
  ultimately have "align_up v 0x80 = (v + 127) AND NOT (mask 7)" by (simp only:)
  moreover have "unat (v + 127) = unat v + 127" using assms by (simp add: unat_word_ariths)
  ultimately show ?thesis using unat_and_not_mask [of "v + 127" 7] by simp
qed

lemma err_negative: "FH_ERR_NO_MEM < 0" "FH_ERR_MEM_ALLOC < 0"
  by (simp_all add: FH_ERR_NO_MEM_def FH_ERR_MEM_ALLOC_def)

text \<open>On numbers, an allocation from a good pool.\<close>

lemma isp_malloc_nat:
  assumes "pool_good cap core" and "0 < unat sz" and "unat sz \<le> cap"
  defines "a \<equiv> (pool_used core + 127) div 128 * 128"
  shows "if a + unat sz \<le> pool_limit core
     then \<exists>w cur. isp_malloc k sz 0x80 old core h = (0, w, core\<lparr>pool_cursor := cur\<rparr>, h) \<and> unat w = a \<and>
            unat (pool_phys_base core) + unat cur = a + unat sz
     else fst (isp_malloc k sz 0x80 old core h) < 0"
proof -
  let ?base = "pool_phys_base core" and ?al = "align_up (pool_phys_base core + pool_cursor core) 0x80"
  have u: "pool_used core + 128 + cap < 2 ^ 32" using assms(1) by (simp add: pool_good_def)
  then have "unat (?base + pool_cursor core) = pool_used core"
    by (simp add: pool_used_def unat_plus_nowrap32)
  then have al: "unat ?al = a" using u unat_align_up [of "?base + pool_cursor core"] by (simp add: a_def)
  have a: "pool_used core \<le> a" "a \<le> pool_used core + 127" by (simp_all add: a_def)
  have al_sz: "unat (sz + ?al) = unat sz + a"
    using al a(2) u assms(3) by (simp add: unat_plus_nowrap32)
  have pool_end: "unat (?base + pool_total_size core) = pool_limit core"
    using assms(1) by (simp add: pool_limit_def pool_good_def unat_plus_nowrap32)
  have lt: "?base + pool_total_size core < sz + ?al \<longleftrightarrow> pool_limit core < unat sz + a"
    by (simp only: word_less_nat_alt al_sz pool_end)
  have "?base \<le> sz + ?al" using a(1) by (simp add: word_le_nat_alt al_sz pool_used_def)
  then have cur: "unat (sz + ?al - ?base) = unat sz + a - unat ?base" by (simp add: unat_minus_nowrap al_sz)
  have nz: "sz \<noteq> 0" using assms(2) by auto
  show ?thesis
  proof (cases "a + unat sz \<le> pool_limit core")
    case True
    with lt nz have "isp_malloc k sz 0x80 old core h = (0, ?al, core\<lparr>pool_cursor := sz + ?al - ?base\<rparr>, h)"
      by (simp add: isp_malloc_def Let_def)
    moreover have "unat ?base + unat (sz + ?al - ?base) = a + unat sz"
      using a(1) by (simp add: cur pool_used_def)
    ultimately show ?thesis using True al by auto
  next
    case False
    with lt nz show ?thesis by (simp add: isp_malloc_def Let_def err_negative)
  qed
qed

lemma pool_alloc_cases:
  assumes "pool_good cap core" and "0 < n" and "n \<le> cap"
  defines "a \<equiv> (pool_used core + 127) div 128 * 128"
  shows "if a + n \<le> pool_limit core
     then \<exists>cur. pool_alloc n core = Some (a, core\<lparr>pool_cursor := cur\<rparr>) \<and> unat (pool_phys_base core) + unat cur = a + n
     else pool_alloc n core = None"
proof -
  have "n < 2 ^ 32" using assms(1,3) by (simp add: pool_good_def)
  then have n: "unat (word_of_nat n :: u32) = n" by (simp add: unat_of_nat)
  show ?thesis
    using isp_malloc_nat [OF assms(1), of "word_of_nat n" "\<lambda>h c. ok_reply 0" 0 "[]"] assms(2,3)
    unfolding n a_def by (auto simp: pool_alloc_def split: if_splits prod.splits)
qed

interpretation pool: bump_allocator pool_alloc pool_used pool_limit 128 cap "pool_good cap" for cap
proof
  fix s :: isp_core and n a :: nat and s'
  assume s: "pool_good cap s" "0 < n" "n \<le> cap" and al: "pool_alloc n s = Some (a, s')"
  let ?a = "(pool_used s + 127) div 128 * 128"
  from pool_alloc_cases [OF s] al obtain cur where
    c: "?a + n \<le> pool_limit s" "a = ?a" "s' = s\<lparr>pool_cursor := cur\<rparr>" "unat (pool_phys_base s) + unat cur = ?a + n"
    by (auto split: if_splits)
  show "pool_used s \<le> a \<and> a \<le> pool_used s + 128 \<and> a + n = pool_used s' \<and> pool_used s' \<le> pool_limit s \<and> a mod 128 = 0"
  proof -
    have u: "pool_used s' = ?a + n" by (simp add: pool_used_def c(3,4))
    have "pool_used s \<le> ?a" "?a \<le> pool_used s + 128" by linarith+
    with c(1,2) show ?thesis by (simp add: u)
  qed
  have l: "pool_limit s' = pool_limit s" by (simp add: pool_limit_def c(3))
  have "pool_used s' = ?a + n" by (simp add: pool_used_def c(3,4))
  with c(1) s(1) l show "pool_good cap s' \<and> pool_limit s' = pool_limit s" by (simp add: pool_good_def)
next
  fix s :: isp_core and n :: nat
  assume s: "pool_good cap s" "0 < n" "n \<le> cap" and f: "pool_used s + n + 128 \<le> pool_limit s"
  have "(pool_used s + 127) div 128 * 128 + n \<le> pool_limit s" using f by linarith
  with pool_alloc_cases [OF s] show "pool_alloc n s \<noteq> None" by auto
qed

section \<open>The thirteen allocations\<close>

definition erase :: "isp_core \<Rightarrow> isp_core" where
  "erase core = core\<lparr>buf_addr := (\<lambda>_. 0), buf_size := (\<lambda>_. 0)\<rparr>"

lemma erase_pool [simp]:
  "pool_used (erase core) = pool_used core" "pool_limit (erase core) = pool_limit core"
  "pool_good cap (erase core) = pool_good cap core"
  "pool_phys_base (erase core) = pool_phys_base core"
  "erase (core\<lparr>buf_addr := f, buf_size := g\<rparr>) = erase core"
  "erase (core\<lparr>buf_size := g\<rparr>) = erase core"
  "erase (core\<lparr>pool_cursor := c\<rparr>) = (erase core)\<lparr>pool_cursor := c\<rparr>"
  by (simp_all add: erase_def pool_used_def pool_limit_def pool_good_def)

abbreviation plan_size :: "isp_buf \<times> u32 \<times> nat \<times> string \<Rightarrow> u32" where
  "plan_size p \<equiv> fst (snd p)"

definition asked :: "(isp_buf \<times> u32 \<times> nat \<times> string) list \<Rightarrow> (isp_buf \<times> u32 \<times> nat \<times> string) list" where
  "asked ps = filter (\<lambda>p. plan_size p \<noteq> 0) ps"

lemma asked_Cons: "asked (p # ps) = (if plan_size p \<noteq> 0 then p # asked ps else asked ps)"
  by (simp add: asked_def)

text \<open>The macro's sequence of calls refines the allocator's list of requests.\<close>

lemma alloc_all_refines:
  "pool_good cap core \<Longrightarrow> \<forall>p \<in> set (asked ps). unat (plan_size p) \<le> cap \<Longrightarrow> distinct (map fst ps) \<Longrightarrow>
   pool.allocs (map (unat \<circ> plan_size) (asked ps)) (erase core) = Some (as, s') \<Longrightarrow>
     \<exists>core' h'. alloc_all k ps core h = (0, core', h') \<and> erase core' = s' \<and>
       map (\<lambda>p. unat (buf_addr core' (fst p))) (asked ps) = as \<and>
       (\<forall>b. b \<notin> fst ` set (asked ps) \<longrightarrow> buf_addr core' b = buf_addr core b) \<and>
       (\<forall>p \<in> set ps. buf_size core' (fst p) = plan_size p) \<and>
       (\<forall>b. b \<notin> fst ` set ps \<longrightarrow> buf_size core' b = buf_size core b)"
proof (induction ps arbitrary: core h as)
  case Nil
  then show ?case by (simp add: asked_def)
next
  case (Cons p ps)
  obtain b sz line name where p: "p = (b, sz, line, name)" by (cases p) auto
  from Cons.prems(3) have b: "b \<notin> fst ` set ps" "distinct (map fst ps)" by (auto simp: p)
  have sub: "fst ` set (asked ps) \<subseteq> fst ` set ps" by (auto simp: asked_def)
  show ?case
  proof (cases "sz = 0")
    case True
    let ?core = "core\<lparr>buf_addr := (buf_addr core)(b := buf_addr core b), buf_size := (buf_size core)(b := sz)\<rparr>"
    have step: "alloc_all k (p # ps) core h = alloc_all k ps ?core (mem_log k line (buf_addr core b) sz name h)"
      using True by (simp add: p isp_malloc_def Let_def)
    have 1: "pool_good cap ?core" using Cons.prems(1) by (simp add: pool_good_def pool_used_def pool_limit_def)
    have 2: "\<forall>p \<in> set (asked ps). unat (plan_size p) \<le> cap" using Cons.prems(2) by (simp add: asked_Cons split: if_splits)
    have 3: "pool.allocs (map (unat \<circ> plan_size) (asked ps)) (erase ?core) = Some (as, s')"
      using Cons.prems(4) True by (simp add: asked_Cons p o_def)
    from Cons.IH [OF 1 2 b(2) 3, of "mem_log k line (buf_addr core b) sz name h"] True b(1) sub show ?thesis
      unfolding step by (auto simp: asked_Cons p)
  next
    case False
    then have ask: "asked (p # ps) = p # asked ps" by (simp add: asked_Cons p)
    have n: "0 < unat sz" "unat sz \<le> cap" using False Cons.prems(2) [unfolded ask] by (simp_all add: p unat_gt_0)
    let ?a = "(pool_used core + 127) div 128 * 128"
    obtain a s1 as1 where
      al: "pool_alloc (unat sz) (erase core) = Some (a, s1)" "pool.allocs (map (unat \<circ> plan_size) (asked ps)) s1 = Some (as1, s')"
      "as = a # as1"
      using Cons.prems(4) unfolding ask by (auto simp: p o_def split: option.splits)
    have good: "pool_good cap (erase core)" using Cons.prems(1) by simp
    from pool_alloc_cases [OF good n] al(1) obtain cur where
      c: "?a + unat sz \<le> pool_limit core" "a = ?a" "s1 = (erase core)\<lparr>pool_cursor := cur\<rparr>"
         "unat (pool_phys_base core) + unat cur = ?a + unat sz"
      by (auto split: if_splits)
    from isp_malloc_nat [OF Cons.prems(1) n, of k "buf_addr core b" h] c(1) obtain w cur' where
      m: "isp_malloc k sz 0x80 (buf_addr core b) core h = (0, w, core\<lparr>pool_cursor := cur'\<rparr>, h)" "unat w = ?a"
         "unat (pool_phys_base core) + unat cur' = ?a + unat sz" by auto
    from m(3) c(4) have cur: "cur' = cur" by (metis add_left_cancel word_unat_eq_iff)
    let ?core = "core\<lparr>pool_cursor := cur, buf_addr := (buf_addr core)(b := w), buf_size := (buf_size core)(b := sz)\<rparr>"
    have step: "alloc_all k (p # ps) core h = alloc_all k ps ?core (mem_log k line w sz name h)"
      by (simp add: p m(1) cur Let_def)
    have e: "erase ?core = s1" by (simp add: c(3) erase_def)
    have "pool_good cap s1"
      using pool.alloc_keeps [OF good n(1,2) al(1)] by blast
    then have 1: "pool_good cap ?core" using e by (metis erase_pool(3))
    have 2: "\<forall>p \<in> set (asked ps). unat (plan_size p) \<le> cap" using Cons.prems(2) by (simp add: ask)
    have 3: "pool.allocs (map (unat \<circ> plan_size) (asked ps)) (erase ?core) = Some (as1, s')"
      using al(2) e by simp
    have nb: "b \<notin> fst ` set (asked ps)" using b(1) sub by blast
    from Cons.IH [OF 1 2 b(2) 3, of "mem_log k line w sz name h"] nb b(1) show ?thesis
      unfolding step ask al(3) using c(2) m(2) by (auto simp: p)
  qed
qed

section \<open>The sizes fit the pool\<close>

definition up128 :: "nat \<Rightarrow> nat" where
  "up128 n = (n + 127) div 128 * 128"

definition frame_bytes :: "nat \<Rightarrow> nat \<Rightarrow> nat" where
  "frame_bytes w h = h * (((w * 10 + 7) div 8 + 7) div 8 * 8)"

lemma unat_round_up8: "unat v + 7 < 2 ^ 32 \<Longrightarrow> unat (round_up8 v) = (unat v + 7) div 8 * 8"
proof -
  assume v: "unat v + 7 < 2 ^ 32"
  have "(0xfffffff8 :: u32) = NOT (mask 3)" by (simp add: mask_eq_exp_minus_1)
  then show ?thesis using v unat_and_not_mask [of "v + 7" 3] by (simp add: round_up8_def unat_word_ariths)
qed

lemma unat_round_up128: "unat v + 127 < 2 ^ 32 \<Longrightarrow> unat (round_up128 v) = up128 (unat v)"
proof -
  assume v: "unat v + 127 < 2 ^ 32"
  have "(0xffffff80 :: u32) = NOT (mask 7)" by (simp add: mask_eq_exp_minus_1)
  then show ?thesis using v unat_and_not_mask [of "v + 127" 7] by (simp add: round_up128_def up128_def unat_word_ariths)
qed

lemma unat_times_nowrap32: "unat (a :: u32) * unat b < 2 ^ 32 \<Longrightarrow> unat (a * b) = unat a * unat b"
  by (simp add: unat_word_ariths)

lemma row_bytes:
  assumes "unat w \<le> 8192"
  shows "unat (round_up8 (drop_bit 3 (w * 10 + 7))) = ((unat w * 10 + 7) div 8 + 7) div 8 * 8"
    and "((unat w * 10 + 7) div 8 + 7) div 8 * 8 \<le> 10256"
proof -
  have "unat (w * 10) = unat w * 10" using assms by (subst unat_times_nowrap32) simp_all
  then have "unat (w * 10 + 7) = unat w * 10 + 7" using assms by (subst unat_plus_nowrap32) simp_all
  then have d: "unat (drop_bit 3 (w * 10 + 7)) = (unat w * 10 + 7) div 8" by (simp add: unat_drop_bit_u32)
  have le: "(unat w * 10 + 7) div 8 \<le> 10240" using assms by linarith
  with d show "unat (round_up8 (drop_bit 3 (w * 10 + 7))) = ((unat w * 10 + 7) div 8 + 7) div 8 * 8"
    by (subst unat_round_up8) simp_all
  show "((unat w * 10 + 7) div 8 + 7) div 8 * 8 \<le> 10256" using le by linarith
qed

lemma frame_word:
  assumes "unat w \<le> 8192" and "unat h \<le> 8192"
  shows "unat (h * round_up8 (drop_bit 3 (w * 10 + 7))) = frame_bytes (unat w) (unat h)"
    and "frame_bytes (unat w) (unat h) \<le> 84017152"
proof -
  note r = row_bytes [OF assms(1)]
  show le: "frame_bytes (unat w) (unat h) \<le> 84017152"
    unfolding frame_bytes_def using mult_le_mono [OF assms(2) r(2)] by simp
  then show "unat (h * round_up8 (drop_bit 3 (w * 10 + 7))) = frame_bytes (unat w) (unat h)"
    unfolding frame_bytes_def by (subst unat_times_nowrap32) (simp_all add: r(1))
qed

lemma buf_sizes_nth:
  "buf_sizes w h ! 0 = h * round_up8 (drop_bit 3 (w * 10 + 7))"
  "buf_sizes w h ! 1 = drop_bit 2 h * round_up8 (drop_bit 3 (drop_bit 2 w * 10 + 7))"
  "buf_sizes w h ! 2 = buf_sizes w h ! 1"
  "buf_sizes w h ! 3 = 0x5000" "buf_sizes w h ! 4 = 0x41a0"
  "buf_sizes w h ! 0x11 = 0" "buf_sizes w h ! 0x12 = 0" "buf_sizes w h ! 0x13 = 0" "buf_sizes w h ! 0x14 = 0x200"
  "buf_sizes w h ! 0x15 = round_up128 (buf_sizes w h ! 0)
     + ((round_up128 ISPF_STAT_SIZE + round_up128 ISPP_STAT_SIZE + 0xffff) AND 0xffff0000)
     + round_up128 (buf_sizes w h ! 1) * 2 + 0x9400"
  by (simp_all add: buf_sizes_def Let_def)

lemma pool_words:
  assumes "unat w \<le> 8192" and "unat h \<le> 8192"
  defines "n0 \<equiv> frame_bytes (unat w) (unat h)" and "n1 \<equiv> frame_bytes (unat w div 4) (unat h div 4)"
  shows "unat (buf_sizes w h ! 0) = n0" and "unat (buf_sizes w h ! 1) = n1"
    and "unat (buf_sizes w h ! 0x15) = up128 n0 + 2 * up128 n1 + 0x29400"
    and "n0 \<le> 84017152" and "n1 \<le> 84017152"
proof -
  have q: "unat (drop_bit 2 w) = unat w div 4" "unat (drop_bit 2 h) = unat h div 4" by (simp_all add: unat_drop_bit_u32)
  then have le: "unat (drop_bit 2 w) \<le> 8192" "unat (drop_bit 2 h) \<le> 8192" using assms(1,2) by auto
  show a: "unat (buf_sizes w h ! 0) = n0" "n0 \<le> 84017152"
    unfolding buf_sizes_nth n0_def using frame_word [OF assms(1,2)] by auto
  show b: "unat (buf_sizes w h ! 1) = n1" "n1 \<le> 84017152"
    unfolding buf_sizes_nth n1_def using frame_word [OF le] by (auto simp: q)
  have r: "unat (round_up128 (buf_sizes w h ! 0)) = up128 n0" "unat (round_up128 (buf_sizes w h ! 1)) = up128 n1"
    using a b by (simp_all add: unat_round_up128)
  have up: "up128 n0 \<le> 84017280" "up128 n1 \<le> 84017280" using a(2) b(2) unfolding up128_def by linarith+
  have const: "(round_up128 ISPF_STAT_SIZE + round_up128 ISPP_STAT_SIZE + 0xffff) AND 0xffff0000 = (0x20000 :: u32)"
    by (simp add: round_up128_def ISPF_STAT_SIZE_def ISPP_STAT_SIZE_def)
  have d: "unat (round_up128 (buf_sizes w h ! 1) * 2) = 2 * up128 n1"
    using r(2) up(2) by (subst unat_times_nowrap32) simp_all
  show "unat (buf_sizes w h ! 0x15) = up128 n0 + 2 * up128 n1 + 0x29400"
    unfolding buf_sizes_nth(10) const using r d up by (simp add: unat_plus_nowrap32)
qed

lemma frame_bytes_pos: "4 \<le> w \<Longrightarrow> 4 \<le> h \<Longrightarrow> 0 < frame_bytes w h \<and> 0 < frame_bytes (w div 4) (h div 4)"
proof -
  assume "4 \<le> w" "4 \<le> h"
  then have "1 \<le> w div 4" "1 \<le> h div 4" "1 \<le> w" "1 \<le> h" by simp_all
  moreover have "1 \<le> x \<Longrightarrow> 0 < ((x * 10 + 7) div 8 + 7) div 8 * 8" for x :: nat by simp
  ultimately show ?thesis by (simp add: frame_bytes_def)
qed

text \<open>The buffers that are given memory, in their order in the pool.\<close>

definition live_bufs :: "isp_buf list" where
  "live_bufs = [gosd, ispp_stat, ispf_stat, nr3d_stat, nr3d_frame, nr3d_coef, nr3d_nr2d_coef, drc_stat0]"

lemma asked_plan:
  assumes "buf_sizes w h ! 0 \<noteq> 0" and "buf_sizes w h ! 1 \<noteq> 0"
  shows "map fst (asked (alloc_plan (buf_sizes w h))) = live_bufs"
    and "map plan_size (asked (alloc_plan (buf_sizes w h))) =
       [0x200, 0x12258, 12, 0x5000, buf_sizes w h ! 0, buf_sizes w h ! 1, buf_sizes w h ! 1, 0x41a0]"
proof -
  have c: "ISPP_STAT_SIZE = 0x12258" "ISPF_STAT_SIZE = 12" by (simp_all add: ISPP_STAT_SIZE_def ISPF_STAT_SIZE_def)
  note n = buf_sizes_nth(3-9)
  show "map fst (asked (alloc_plan (buf_sizes w h))) = live_bufs"
    "map plan_size (asked (alloc_plan (buf_sizes w h))) =
       [0x200, 0x12258, 12, 0x5000, buf_sizes w h ! 0, buf_sizes w h ! 1, buf_sizes w h ! 1, 0x41a0]"
    unfolding alloc_plan_def n c using assms by (simp_all add: asked_def live_bufs_def)
qed

text \<open>The driver accepts the buffers: the pool it hands out begins at \<open>base\<close>, and no call fails.\<close>

definition isp_driver_ok :: "kernel \<Rightarrow> int \<Rightarrow> int \<Rightarrow> u32 \<Rightarrow> bool" where
  "isp_driver_ok k ifd vfd base \<longleftrightarrow>
     (\<forall>h bs. rv (k h (Ioctl vfd VMM_IOCTL_ALLOC (Arg_bytes bs))) \<ge> 0 \<and>
        take 4 (rbytes (k h (Ioctl vfd VMM_IOCTL_ALLOC (Arg_bytes bs)))) = le32 base) \<and>
     (\<forall>h bs req. req \<in> {ISP_IOCTL_SET_STAT_INFO, ISP_IOCTL_SET_DMA_ADDRS, ISP_IOCTL_GET_STAT_INFO} \<longrightarrow>
        rv (k h (Ioctl ifd req (Arg_bytes bs))) = 0)"

lemma get_le32_cong:
  assumes "take (off + 4) bs = take (off + 4) cs"
  shows "get_le32 bs off = get_le32 cs off"
proof -
  have "bs ! i = cs ! i" if "i < off + 4" for i using that assms by (metis nth_take)
  then show ?thesis by (simp add: get_le32_def)
qed

lemma buffer_malloc_ok:
  assumes "isp_driver_ok k ifd (vmm_fd core) base"
  shows "\<exists>h'. buffer_malloc_withname k sz align name core h =
     (0, core\<lparr>pool_phys_base := base, pool_total_size := sz\<rparr>, h')"
proof -
  define req where "req = vmm_request sz align name"
  define r where "r = k h (Ioctl (vmm_fd core) VMM_IOCTL_ALLOC (Arg_bytes req))"
  have r: "rv r \<ge> 0" "take 4 (rbytes r) = le32 base" using assms by (simp_all add: isp_driver_ok_def r_def)
  have len: "4 \<le> length (rbytes r)" using arg_cong [OF r(2), of length] by simp
  have "length req = 80" by (simp add: req_def vmm_request_def)
  then have "take (0 + 4) (overlay (rbytes r) req) = take (0 + 4) (le32 base)"
    using len r(2) by (simp add: overlay_def min_def)
  then have "get_le32 (overlay (rbytes r) req) 0 = base"
    using get_le32_cong [of 0 "overlay (rbytes r) req" "le32 base"] by (simp add: get_le32_le32)
  with r(1) show ?thesis
    by (simp add: buffer_malloc_withname_def ioctl_bytes_eq Let_def flip: req_def r_def)
qed

lemma sys_pair: "sys k c h = (k h c, h @ [(c, k h c)])"
  by (simp add: sys_def)

text \<open>The calls after the allocations, when the driver accepts them.\<close>

lemma alloc_buf_addr_tail:
  assumes "isp_driver_ok k (isp_fd core) (vmm_fd core) base"
    and "isp_core_get_buf_size k core w hh h = (bufsz, h1)"
    and "alloc_all k (alloc_plan bufsz)
           (core\<lparr>pool_phys_base := base, pool_total_size := bufsz ! 0x15, pool_cursor := 0\<rparr>) h3 = (0, core', h4)"
    and "buffer_malloc_withname k (bufsz ! 0x15) POOL_ALIGN ''isp'' core
           (sys_h k (Ioctl (isp_fd core) ISP_IOCTL_HANDSHAKE (Arg_words [0])) h1) =
         (0, core\<lparr>pool_phys_base := base, pool_total_size := bufsz ! 0x15\<rparr>, h3)"
    and "isp_fd core' = isp_fd core"
  shows "\<exists>h' s1 s2. isp_core_alloc_buf_addr k w hh core h = (0, core', h') \<and>
     calls h' = calls h4 @ [Ioctl (isp_fd core) ISP_IOCTL_SET_STAT_INFO (Arg_bytes s1),
       Ioctl (isp_fd core) ISP_IOCTL_SET_DMA_ADDRS (Arg_bytes (dma_addrs core')),
       Ioctl (isp_fd core) ISP_IOCTL_GET_STAT_INFO (Arg_bytes s2)]"
proof -
  have z: "rv (k h (Ioctl (isp_fd core) ISP_IOCTL_SET_STAT_INFO (Arg_bytes bs))) = 0"
    "rv (k h (Ioctl (isp_fd core) ISP_IOCTL_SET_DMA_ADDRS (Arg_bytes bs))) = 0"
    "rv (k h (Ioctl (isp_fd core) ISP_IOCTL_GET_STAT_INFO (Arg_bytes bs))) = 0" for h bs
    using assms(1) by (simp_all add: isp_driver_ok_def)
  show ?thesis
    unfolding isp_core_alloc_buf_addr_def assms(2) Let_def prod.case assms(4)
    by (simp add: assms(3,5) sys_pair z)
qed

lemma alloc_all_fds: "alloc_all k ps core h = (r, core', h') \<Longrightarrow> isp_fd core' = isp_fd core \<and> vmm_fd core' = vmm_fd core"
proof (induction ps arbitrary: core h)
  case (Cons p ps)
  obtain b sz line name where p: "p = (b, sz, line, name)" by (cases p) auto
  obtain r1 a c1 h1 where m: "isp_malloc k sz 0x80 (buf_addr core b) core h = (r1, a, c1, h1)"
    by (cases "isp_malloc k sz 0x80 (buf_addr core b) core h") auto
  then have "isp_fd c1 = isp_fd core" "vmm_fd c1 = vmm_fd core"
    by (auto simp: isp_malloc_def Let_def split: if_splits)
  with Cons.prems Cons.IH show ?case by (fastforce simp: p m Let_def split: if_splits)
qed simp

lemma alloc_plan_distinct: "distinct (map fst (alloc_plan bs))"
  by (simp add: alloc_plan_def)

lemma get_buf_size_pair: "\<exists>h'. isp_core_get_buf_size k core w hh h = (buf_sizes w hh, h')"
  by (simp add: isp_core_get_buf_size_def)

text \<open>The pool is large enough for the eight buffers and their alignment.\<close>

lemma pool_holds:
  assumes "4 \<le> unat w" "unat w \<le> 8192" "4 \<le> unat h" "unat h \<le> 8192"
    and "pool_total_size core = buf_sizes w h ! 0x15" and "pool_cursor core = 0"
    and "unat (pool_phys_base core) + 2 * unat (buf_sizes w h ! 0x15) + 128 < 2 ^ 32"
  shows "\<exists>as s'. pool.allocs (map (unat \<circ> plan_size) (asked (alloc_plan (buf_sizes w h)))) (erase core) = Some (as, s') \<and>
     pool.stacked (unat (pool_phys_base core)) (map (unat \<circ> plan_size) (asked (alloc_plan (buf_sizes w h)))) as (pool_used s') \<and>
     pool_used s' \<le> unat (pool_phys_base core) + unat (buf_sizes w h ! 0x15)"
    and "pool_good (unat (buf_sizes w h ! 0x15)) core"
    and "\<forall>p \<in> set (asked (alloc_plan (buf_sizes w h))). unat (plan_size p) \<le> unat (buf_sizes w h ! 0x15)"
proof -
  let ?cap = "unat (buf_sizes w h ! 0x15)" and ?ps = "asked (alloc_plan (buf_sizes w h))"
  define n0 where "n0 = frame_bytes (unat w) (unat h)"
  define n1 where "n1 = frame_bytes (unat w div 4) (unat h div 4)"
  note pw = pool_words [OF assms(2,4), folded n0_def n1_def]
  have pos: "0 < n0" "0 < n1" using frame_bytes_pos [OF assms(1,3)] by (simp_all add: n0_def n1_def)
  have up: "n0 \<le> up128 n0" "n1 \<le> up128 n1" unfolding up128_def by linarith+
  have nz: "buf_sizes w h ! 0 \<noteq> 0" "buf_sizes w h ! 1 \<noteq> 0" using pw(1,2) pos by auto
  have sizes: "map (unat \<circ> plan_size) ?ps = [0x200, 0x12258, 12, 0x5000, n0, n1, n1, 0x41a0]"
    using arg_cong [OF asked_plan(2) [OF nz], of "map unat"] pw(1,2) by simp
  have used: "pool_used (erase core) = unat (pool_phys_base core)" unfolding erase_pool by (simp add: pool_used_def assms(6))
  have limit: "pool_limit (erase core) = unat (pool_phys_base core) + ?cap" unfolding erase_pool by (simp add: pool_limit_def assms(5))
  show good: "pool_good ?cap core" using assms(7) used limit by (simp add: pool_good_def)
  then have good': "pool_good ?cap (erase core)" by simp
  have ok: "pool.sizes_ok ?cap (map (unat \<circ> plan_size) ?ps)"
    unfolding sizes pool.sizes_ok_def using pos up pw(3) by auto
  then show "\<forall>p \<in> set ?ps. unat (plan_size p) \<le> ?cap"
    by (auto simp: pool.sizes_ok_def)
  have "pool_used (erase core) + (\<Sum>n \<leftarrow> map (unat \<circ> plan_size) ?ps. n + 128) \<le> pool_limit (erase core)"
    unfolding sizes used limit pw(3) using up by simp
  from pool.allocs_succeed [OF good' ok this] obtain as s' where
    al: "pool.allocs (map (unat \<circ> plan_size) ?ps) (erase core) = Some (as, s')" by blast
  from pool.allocs_stacked [OF good' ok al] used limit al
  show "\<exists>as s'. pool.allocs (map (unat \<circ> plan_size) ?ps) (erase core) = Some (as, s') \<and>
     pool.stacked (unat (pool_phys_base core)) (map (unat \<circ> plan_size) ?ps) as (pool_used s') \<and>
     pool_used s' \<le> unat (pool_phys_base core) + ?cap" by auto
qed

text \<open>The initialisation, from the allocations of the plan to the driver's acceptance.\<close>

lemma alloc_buf_addr_layout:
  assumes "4 \<le> unat w" "unat w \<le> 8192" "4 \<le> unat hh" "unat hh \<le> 8192"
    and "isp_driver_ok k (isp_fd core) (vmm_fd core) base"
    and "unat base + 2 * unat (buf_sizes w hh ! 0x15) + 128 < 2 ^ 32"
  shows "\<exists>core' h'. isp_core_alloc_buf_addr k w hh core h = (0, core', h') \<and>
     (\<forall>b \<in> set live_bufs. unat base \<le> unat (buf_addr core' b) \<and> unat (buf_addr core' b) mod 128 = 0 \<and>
        unat (buf_addr core' b) + unat (buf_size core' b) \<le> unat base + unat (buf_sizes w hh ! 0x15)) \<and>
     (\<forall>i j. i < j \<longrightarrow> j < length live_bufs \<longrightarrow>
        unat (buf_addr core' (live_bufs ! i)) + unat (buf_size core' (live_bufs ! i)) \<le> unat (buf_addr core' (live_bufs ! j))) \<and>
     map (buf_size core') live_bufs =
       [0x200, 0x12258, 12, 0x5000, buf_sizes w hh ! 0, buf_sizes w hh ! 1, buf_sizes w hh ! 1, 0x41a0] \<and>
     Ioctl (isp_fd core) ISP_IOCTL_SET_DMA_ADDRS (Arg_bytes (dma_addrs core')) \<in> set (calls h')"
proof -
  let ?bs = "buf_sizes w hh" and ?cap = "unat (buf_sizes w hh ! 0x15)"
  let ?ps = "asked (alloc_plan ?bs)"
  obtain h1 where h1: "isp_core_get_buf_size k core w hh h = (?bs, h1)" using get_buf_size_pair by blast
  obtain h3 where h3: "buffer_malloc_withname k (?bs ! 0x15) POOL_ALIGN ''isp'' core
      (sys_h k (Ioctl (isp_fd core) ISP_IOCTL_HANDSHAKE (Arg_words [0])) h1) =
      (0, core\<lparr>pool_phys_base := base, pool_total_size := ?bs ! 0x15\<rparr>, h3)"
    using buffer_malloc_ok [OF assms(5)] by blast
  define core1 where "core1 = core\<lparr>pool_phys_base := base, pool_total_size := ?bs ! 0x15, pool_cursor := 0\<rparr>"
  have c1: "pool_total_size core1 = ?bs ! 0x15" "pool_cursor core1 = 0" "pool_phys_base core1 = base" by (simp_all add: core1_def)
  have fit: "unat (pool_phys_base core1) + 2 * ?cap + 128 < 2 ^ 32" using assms(6) by (simp add: c1)
  note ph = pool_holds [OF assms(1-4) c1(1,2) fit]
  from ph(1) obtain as s' where al: "pool.allocs (map (unat \<circ> plan_size) ?ps) (erase core1) = Some (as, s')"
    and st: "pool.stacked (unat base) (map (unat \<circ> plan_size) ?ps) as (pool_used s')"
    and top: "pool_used s' \<le> unat base + ?cap" unfolding c1(3) by blast
  from alloc_all_refines [OF ph(2,3) alloc_plan_distinct al, of k h3] obtain core' h4 where
    r: "alloc_all k (alloc_plan ?bs) core1 h3 = (0, core', h4)"
       "map (\<lambda>p. unat (buf_addr core' (fst p))) ?ps = as"
       "\<forall>p \<in> set (alloc_plan ?bs). buf_size core' (fst p) = plan_size p" by blast
  have fd: "isp_fd core' = isp_fd core" using alloc_all_fds [OF r(1)] by (simp add: core1_def)
  from alloc_buf_addr_tail [OF assms(5) h1 r(1) [unfolded core1_def] h3 fd] obtain h' s1 s2 where
    f: "isp_core_alloc_buf_addr k w hh core h = (0, core', h')"
       "calls h' = calls h4 @ [Ioctl (isp_fd core) ISP_IOCTL_SET_STAT_INFO (Arg_bytes s1),
          Ioctl (isp_fd core) ISP_IOCTL_SET_DMA_ADDRS (Arg_bytes (dma_addrs core')),
          Ioctl (isp_fd core) ISP_IOCTL_GET_STAT_INFO (Arg_bytes s2)]" by blast
  note pw = pool_words [OF assms(2,4)]
  have nz: "?bs ! 0 \<noteq> 0" "?bs ! 1 \<noteq> 0" using pw(1,2) frame_bytes_pos [OF assms(1,3)] by auto
  note plan = asked_plan [OF nz]
  have as: "as = map (\<lambda>b. unat (buf_addr core' b)) live_bufs"
    using r(2) by (simp flip: plan(1) add: o_def)
  have "map (buf_size core') (map fst ?ps) = map plan_size ?ps"
    using r(3) by (auto simp: asked_def)
  then have sz: "map (buf_size core') live_bufs = map plan_size ?ps" by (simp only: plan(1))
  then have ns: "map (unat \<circ> plan_size) ?ps = map (\<lambda>b. unat (buf_size core' b)) live_bufs"
    by (metis (no_types, lifting) list.map_comp map_eq_conv comp_apply)
  note d = pool.stacked_disjoint [OF st [unfolded as ns]]
  have len: "length live_bufs = 8" by (simp add: live_bufs_def)
  have inside: "unat base \<le> unat (buf_addr core' b) \<and> unat (buf_addr core' b) mod 128 = 0 \<and>
        unat (buf_addr core' b) + unat (buf_size core' b) \<le> unat base + ?cap" if b: "b \<in> set live_bufs" for b
  proof -
    from b obtain i where i: "i < length live_bufs" "b = live_bufs ! i" by (metis in_set_conv_nth)
    with d top show ?thesis by fastforce
  qed
  have apart: "\<forall>i j. i < j \<longrightarrow> j < length live_bufs \<longrightarrow>
      unat (buf_addr core' (live_bufs ! i)) + unat (buf_size core' (live_bufs ! i)) \<le> unat (buf_addr core' (live_bufs ! j))"
    using d by simp
  show ?thesis
    using f inside apart sz plan(2) by (intro exI [of _ core'] exI [of _ h']) simp
qed

section \<open>Properties\<close>

text \<open>C23: Initialisation of the ISP's memory: for any picture of at least 4 by 4 and at most 8192 by 8192
  pixels, and a driver that grants the pool below the end of the address space, the function succeeds. The
  eight buffers that get memory are 128-byte aligned, lie inside the pool and do not overlap, each has the
  size asked for, and the driver receives the structure that holds their addresses.\<close>
theorem isp_buffers_disjoint:
  assumes "4 \<le> unat w" "unat w \<le> 8192" "4 \<le> unat hh" "unat hh \<le> 8192"
    and "isp_driver_ok k (isp_fd core) (vmm_fd core) base"
    and "unat base + 2 * unat (buf_sizes w hh ! 0x15) + 128 < 2 ^ 32"
  shows "\<exists>core' h'. isp_core_alloc_buf_addr k w hh core h = (0, core', h') \<and>
     (\<forall>b \<in> set live_bufs. unat base \<le> unat (buf_addr core' b) \<and> unat (buf_addr core' b) mod 128 = 0 \<and>
        unat (buf_addr core' b) + unat (buf_size core' b) \<le> unat base + unat (buf_sizes w hh ! 0x15)) \<and>
     (\<forall>i j. i < j \<longrightarrow> j < length live_bufs \<longrightarrow>
        unat (buf_addr core' (live_bufs ! i)) + unat (buf_size core' (live_bufs ! i)) \<le> unat (buf_addr core' (live_bufs ! j))) \<and>
     map (buf_size core') live_bufs =
       [0x200, 0x12258, 12, 0x5000, buf_sizes w hh ! 0, buf_sizes w hh ! 1, buf_sizes w hh ! 1, 0x41a0] \<and>
     Ioctl (isp_fd core) ISP_IOCTL_SET_DMA_ADDRS (Arg_bytes (dma_addrs core')) \<in> set (calls h')"
  by (rule alloc_buf_addr_layout [OF assms])

text \<open>A driver that hands out a pool at a fixed address.\<close>

definition k_pool :: "u32 \<Rightarrow> kernel" where
  "k_pool base h c =
     (case c of Ioctl fd req a \<Rightarrow> if req = VMM_IOCTL_ALLOC then (ok_reply 0)\<lparr>rbytes := le32 base\<rparr> else ok_reply 0
      | _ \<Rightarrow> ok_reply 0)"

lemma k_pool_ok: "isp_driver_ok (k_pool base) ifd vfd base"
  by (auto simp: isp_driver_ok_def k_pool_def VMM_IOCTL_ALLOC_def ISP_IOCTL_SET_STAT_INFO_def
      ISP_IOCTL_SET_DMA_ADDRS_def ISP_IOCTL_GET_STAT_INFO_def)

lemma isp_buffers_disjoint_witness:
  "\<exists>core' h'. isp_core_alloc_buf_addr (k_pool 0xA0000000) 1920 1080 (isp_core_set_fds 4 7 isp_core0) [] = (0, core', h') \<and>
     (\<forall>b \<in> set live_bufs. unat (0xA0000000 :: u32) \<le> unat (buf_addr core' b) \<and> unat (buf_addr core' b) mod 128 = 0 \<and>
        unat (buf_addr core' b) + unat (buf_size core' b) \<le> unat (0xA0000000 :: u32) + unat (buf_sizes 1920 1080 ! 0x15)) \<and>
     (\<forall>i j. i < j \<longrightarrow> j < length live_bufs \<longrightarrow>
        unat (buf_addr core' (live_bufs ! i)) + unat (buf_size core' (live_bufs ! i)) \<le> unat (buf_addr core' (live_bufs ! j))) \<and>
     map (buf_size core') live_bufs =
       [0x200, 0x12258, 12, 0x5000, buf_sizes 1920 1080 ! 0, buf_sizes 1920 1080 ! 1, buf_sizes 1920 1080 ! 1, 0x41a0] \<and>
     Ioctl (isp_fd (isp_core_set_fds 4 7 isp_core0)) ISP_IOCTL_SET_DMA_ADDRS (Arg_bytes (dma_addrs core')) \<in> set (calls h')"
proof (rule isp_buffers_disjoint [OF _ _ _ _ k_pool_ok])
  show "unat (0xA0000000 :: u32) + 2 * unat (buf_sizes 1920 1080 ! 0x15) + 128 < 2 ^ 32"
    by (subst pool_words(3)) (simp_all add: frame_bytes_def up128_def)
qed simp_all

lemma get_le32_dma:
  "length (dma_addrs core) = 88 \<and> list_all (\<lambda>(off, b). get_le32 (dma_addrs core) off = buf_addr core b) dma_offsets \<and>
     list_all (\<lambda>i. get_le32 (dma_addrs core) (4 * i) = 0)
       (filter (\<lambda>i. 4 * i \<notin> fst ` set dma_offsets) [0..<22])"
proof -
  have z: "off + 4 \<le> 88 \<Longrightarrow> get_le32 (replicate 88 0) off = 0" for off
    by (simp add: get_le32_def)
  have f: "filter (\<lambda>i. 4 * i \<notin> fst ` set dma_offsets) [0..<22] = [0, 1, 2, 3, 4, 5, 11, 12, 13, 14, 16, 17, 19]"
    by (simp add: dma_offsets_def upt_conv_Cons)
  show ?thesis
    unfolding f by (simp add: dma_addrs_def dma_offsets_def DMA_ADDRS_SIZE_def buf_simps z)
qed

text \<open>The structure handed to the driver is 88 bytes long, holds each address in little-endian order at its
  documented offset and zero in every other word.\<close>
lemma dma_addrs_layout:
  "length (dma_addrs core) = 88 \<and> list_all (\<lambda>(off, b). get_le32 (dma_addrs core) off = buf_addr core b) dma_offsets \<and>
     list_all (\<lambda>i. get_le32 (dma_addrs core) (4 * i) = 0) (filter (\<lambda>i. 4 * i \<notin> fst ` set dma_offsets) [0..<22])"
  by (rule get_le32_dma)

end
