(* ===== verification/Mini_Streamer.thy ===== *)
theory Mini_Streamer
  imports Rtsp_Server Isp_Buf_Addr Cv2003_Driver Isp_Init
begin

text \<open>
  \<open>majestic/mini_streamer.c\<close>: the program that brings the camera up with the libraries of \<open>sdk/lib\<close> and
  serves its two H.264 streams through the RTSP server. The kernel drivers \<open>/dev/isp\<close>, \<open>/dev/enc\<close>,
  \<open>/dev/media_process\<close> and \<open>/dev/vmm_userdev\<close> are part of the kernel parameter; the bitrate law of
  \<open>majestic_bitrate.h\<close>, which computes in floating point, is the parameter \<open>bitrate\<close>.
\<close>

section \<open>Constants\<close>

definition ISP_IOCTL_VPSS_GET_SYS_SIZE :: u32 where "ISP_IOCTL_VPSS_GET_SYS_SIZE = 0xC0046966"
definition ISP_IOCTL_VPSS_SET_SYS_ADDR :: u32 where "ISP_IOCTL_VPSS_SET_SYS_ADDR = 0xC00C6964"
definition ISP_IOCTL_VPSS_GET_CHN_SIZE :: u32 where "ISP_IOCTL_VPSS_GET_CHN_SIZE = 0xC0106967"
definition ISP_IOCTL_VPSS_SET_CHN_ADDR :: u32 where "ISP_IOCTL_VPSS_SET_CHN_ADDR = 0xC0186968"
definition ISP_IOCTL_VPSS_SET_VI_ATTR :: u32 where "ISP_IOCTL_VPSS_SET_VI_ATTR = 0xC0F4696A"
definition ISP_IOCTL_VPSS_ENABLE :: u32 where "ISP_IOCTL_VPSS_ENABLE = 0xC0046971"
definition ISP_IOCTL_VPSS_SET_CHN_ATTR :: u32 where "ISP_IOCTL_VPSS_SET_CHN_ATTR = 0xC00C696C"
definition ISP_IOCTL_VPSS_OPEN_CHN :: u32 where "ISP_IOCTL_VPSS_OPEN_CHN = 0xC0046973"
definition ISP_IOCTL_VPSS_SET_VO_MODE :: u32 where "ISP_IOCTL_VPSS_SET_VO_MODE = 0xC00869A4"

definition ISP_IOCTL_VENC_SYS_GET_SIZE :: u32 where "ISP_IOCTL_VENC_SYS_GET_SIZE = 0xC0085401"
definition ISP_IOCTL_VENC_SYS_SET_ADDR :: u32 where "ISP_IOCTL_VENC_SYS_SET_ADDR = 0xC00C5400"
definition ISP_IOCTL_VENC_QUERY_CHN_MEM :: u32 where "ISP_IOCTL_VENC_QUERY_CHN_MEM = 0xC0145402"
definition ISP_IOCTL_VENC_CREATE_CHN :: u32 where "ISP_IOCTL_VENC_CREATE_CHN = 0xC01C5403"
definition ISP_IOCTL_VENC_SET_RC_ATTR :: u32 where "ISP_IOCTL_VENC_SET_RC_ATTR = 0xC06C540C"
definition ISP_IOCTL_VENC_START_RECV_PIC :: u32 where "ISP_IOCTL_VENC_START_RECV_PIC = 0xC0045407"
definition ISP_IOCTL_VENC_GET_STREAM :: u32 where "ISP_IOCTL_VENC_GET_STREAM = 0xC1A04D05"
definition ISP_IOCTL_VENC_RELEASE_STREAM :: u32 where "ISP_IOCTL_VENC_RELEASE_STREAM = 0xC004540A"
definition ISP_IOCTL_VENC_SET_CHN_CONFIG :: u32 where "ISP_IOCTL_VENC_SET_CHN_CONFIG = 0xC0485405"
definition MEDIA_IOCTL_BIND :: u32 where "MEDIA_IOCTL_BIND = 0xC0104D00"

definition MEDIA_OBJECT_VPU :: u32 where "MEDIA_OBJECT_VPU = 2"
definition MEDIA_OBJECT_ENC :: u32 where "MEDIA_OBJECT_ENC = 4"
definition VENC_STREAM_H264 :: u32 where "VENC_STREAM_H264 = 4"
definition VENC_CODEC_H264 :: u32 where "VENC_CODEC_H264 = 4"
definition VENC_PROFILE_MAIN :: u32 where "VENC_PROFILE_MAIN = 77"
definition VENC_INIT_QP :: u32 where "VENC_INIT_QP = 35"
definition VENC_FPS :: u32 where "VENC_FPS = 25"
definition VENC_GOP_FRAMES :: u32 where "VENC_GOP_FRAMES = 25"
definition VENC_STREAM_WORDS :: nat where "VENC_STREAM_WORDS = 0x1A0 div 4"
definition VENC_STREAM_NALU_WORD :: nat where "VENC_STREAM_NALU_WORD = 12"
definition VENC_STREAM_NALU_MAX :: u32 where "VENC_STREAM_NALU_MAX = (0x170 - 0x30) div 16"

section \<open>Memory, signals and the drivers' text interfaces\<close>

text \<open>The request has the layout of the one \<open>isp_buf_addr.c\<close> builds, with a fixed alignment.\<close>

definition vmm_alloc :: "kernel \<Rightarrow> int \<Rightarrow> u32 \<Rightarrow> string \<Rightarrow> hist \<Rightarrow> int \<times> u32 \<times> hist" where
  "vmm_alloc k fd sz name h =
     (let (r, req, h) = ioctl_bytes k fd VMM_IOCTL_ALLOC (vmm_request sz 0x1000 name) h
      in (r, if 0 \<le> r then get_le32 req 0 else 0, h))"

text \<open>The handler of the two signals that end the program, on the flag \<open>g_running\<close>.\<close>

definition sig_handler :: "int \<Rightarrow> bool \<Rightarrow> bool" where
  "sig_handler sig running = False"

text \<open>Reading \<open>g_running\<close>: a handler may have run since the last time.\<close>

definition read_running :: "kernel \<Rightarrow> bool \<Rightarrow> hist \<Rightarrow> bool \<times> hist" where
  "read_running k running h =
     (let (r, h) = sys k Pending_signal h in (if rv r = 0 then running else sig_handler (rv r) running, h))"

definition write_proc_config :: "kernel \<Rightarrow> string \<Rightarrow> string \<Rightarrow> hist \<Rightarrow> hist" where
  "write_proc_config k path value h =
     (let (f, h) = sys k (Open path O_WRONLY) h
      in if rv f < 0 then h
         else sys_h k (Close (rv f)) (sys_h k (Write (rv f) (bytes_of value)) h))"

definition proc_config :: "(string \<times> string) list" where
  "proc_config =
     [(''/proc/driver/vpu'', ''vi_1920_1080''),
      (''/proc/driver/vpu'', ''cap_0_1920_1080''),
      (''/proc/driver/vpu'', ''cap_1_800_576''),
      (''/proc/driver/vpu'', ''cap_2_512_288''),
      (''/proc/driver/vpu'', ''buf_0_2''),
      (''/proc/driver/vpu'', ''buf_1_3''),
      (''/proc/driver/vpu'', ''buf_2_1''),
      (''/proc/driver/vpu'', ''cirbuf_on''),
      (''/proc/driver/vpu'', ''cbufsize_80''),
      (''/proc/driver/isp'', ''wdr_off''),
      (''/proc/driver/isp'', ''cir_on''),
      (''/proc/driver/enc'', ''stm_1572864''),
      (''/proc/driver/jpeg'', ''mem_1_131072''),
      (''/proc/driver/jpeg'', ''mjpg_0_0''),
      (''/proc/driver/clock'', ''nn_clk,enable,90000000'')]"

definition apply_proc_config :: "kernel \<Rightarrow> hist \<Rightarrow> hist" where
  "apply_proc_config k h = fold (\<lambda>(path, value) h. write_proc_config k path value h) proc_config h"

section \<open>The video processor\<close>

record vpss_chn_desc =
  d_chan :: u32
  d_width :: u32
  d_height :: u32
  d_vmm_name :: string

definition VPSS_CHANNELS :: "vpss_chn_desc list" where
  "VPSS_CHANNELS =
     [\<lparr>d_chan = 0, d_width = 1920, d_height = 1080, d_vmm_name = ''vpu-ch-0''\<rparr>,
      \<lparr>d_chan = 1, d_width = 800, d_height = 576, d_vmm_name = ''vpu-ch-1''\<rparr>]"

text \<open>The three loops over the channels, each left at the first failing call.\<close>

fun vpss_chn_buffers :: "kernel \<Rightarrow> int \<Rightarrow> int \<Rightarrow> vpss_chn_desc list \<Rightarrow> hist \<Rightarrow> int \<times> hist" where
  "vpss_chn_buffers k ifd vfd [] h = (0, h)"
| "vpss_chn_buffers k ifd vfd (d # ds) h =
     (let (r, q, h) = ioctl_words k ifd ISP_IOCTL_VPSS_GET_CHN_SIZE [d_chan d, d_width d, d_height d, 0] h in
      if r < 0 then (- 1, h)
      else
        let (r, ph, h) = vmm_alloc k vfd (q ! 3) (d_vmm_name d) h in
        if r < 0 then (- 1, h)
        else
          let (r, h) = ioctl_r k ifd ISP_IOCTL_VPSS_SET_CHN_ADDR
                (Arg_words [d_chan d, ph, 0, q ! 3, d_width d, d_height d]) h
          in if r < 0 then (- 1, h) else vpss_chn_buffers k ifd vfd ds h)"

fun ioctl_each :: "kernel \<Rightarrow> int \<Rightarrow> u32 \<Rightarrow> u32 list list \<Rightarrow> hist \<Rightarrow> int \<times> hist" where
  "ioctl_each k fd req [] h = (0, h)"
| "ioctl_each k fd req (ws # wss) h =
     (let (r, h) = ioctl_r k fd req (Arg_words ws) h
      in if r < 0 then (- 1, h) else ioctl_each k fd req wss h)"

definition vi_attr :: "u32 list" where
  "vi_attr = (replicate 62 0)[0 := 1920, 1 := 1080]"

definition vpss_setup :: "kernel \<Rightarrow> int \<Rightarrow> int \<Rightarrow> hist \<Rightarrow> int \<times> hist" where
  "vpss_setup k ifd vfd h =
     (let (r, sz, h) = ioctl_words k ifd ISP_IOCTL_VPSS_GET_SYS_SIZE [0] h in
      if r < 0 then (- 1, h)
      else let (r, ph, h) = vmm_alloc k vfd (sz ! 0) ''vpu-sys'' h in
      if r < 0 then (- 1, h)
      else let (r, h) = ioctl_r k ifd ISP_IOCTL_VPSS_SET_SYS_ADDR (Arg_words [ph, 0, sz ! 0]) h in
      if r < 0 then (- 1, h)
      else let (r, h) = vpss_chn_buffers k ifd vfd VPSS_CHANNELS h in
      if r < 0 then (- 1, h)
      else let (r, h) = ioctl_r k ifd ISP_IOCTL_VPSS_SET_VI_ATTR (Arg_words vi_attr) h in
      if r < 0 then (- 1, h)
      else let (r, h) = ioctl_r k ifd ISP_IOCTL_VPSS_ENABLE (Arg_words [0]) h in
      if r < 0 then (- 1, h)
      else let (r, h) = ioctl_each k ifd ISP_IOCTL_VPSS_SET_CHN_ATTR
             (map (\<lambda>d. [d_chan d, d_width d, d_height d]) VPSS_CHANNELS) h in
      if r < 0 then (- 1, h)
      else let (r, h) = ioctl_r k ifd ISP_IOCTL_VPSS_OPEN_CHN (Arg_words [0]) h in
      if r < 0 then (- 1, h)
      else ioctl_each k ifd ISP_IOCTL_VPSS_SET_VO_MODE (map (\<lambda>d. [d_chan d, 1]) VPSS_CHANNELS) h)"

section \<open>The image signal processor\<close>

definition isp_warning :: string where
  "isp_warning =
     ''WARNING: about to write the ISP register table via /dev/mem.'' @ [LF]
       @ ''This is the part that was never settled before this session '' @ map char_of [0xE2, 0x80, 0x94 :: nat] @ [LF]
       @ ''if the device hangs or the kernel crashes here, that'' @ [CHR 0x27] @ ''s this'' @ [LF]
       @ ''step, not the VPSS/VMM/buffer-address work before it.'' @ [LF]"

text \<open>\<open>None\<close> is the division by zero \<open>isp_hw_init\<close> may end in.\<close>

definition isp_setup ::
  "kernel \<Rightarrow> isp_core \<Rightarrow> isp_ctx \<Rightarrow> int \<Rightarrow> int \<Rightarrow> u32 \<Rightarrow> u32 \<Rightarrow> hist \<Rightarrow> (int \<times> isp_core \<times> isp_ctx \<times> hist) option" where
  "isp_setup k core ctx ifd vfd width height h =
     (let (r, h) = ioctl_r k ifd 0x80086929 (Arg_words [0, 0]) h in
      if r < 0 then Some (- 1, core, ctx, h)
      else
        let h = sys_h k (Ioctl ifd 0x80306926 (Arg_words (replicate 12 0))) h;
            (r, h) = ioctl_r k ifd 0x80786905 (Arg_bytes (replicate 120 0)) h in
      if r < 0 then Some (- 1, core, ctx, h)
      else let (r, one, h) = ioctl_words k ifd 0x40046908 [1] h in
      if r < 0 then Some (- 1, core, ctx, h)
      else let (r, one, h) = ioctl_words k ifd 0x40046909 one h in
      if r < 0 then Some (- 1, core, ctx, h)
      else let (r, h) = ioctl_r k ifd 0x690A (Arg_words [0]) h in
      if r < 0 then Some (- 1, core, ctx, h)
      else let (r, h) = ioctl_r k ifd 0x4004690F (Arg_words one) h in
      if r < 0 then Some (- 1, core, ctx, h)
      else
        let core = isp_core_set_fds ifd vfd core;
            (r, core, h) = isp_core_alloc_buf_addr k width height core h
        in if r \<noteq> 0 then Some (- 1, core, ctx, sys_h k (Print (''isp_core_alloc_buf_addr failed'' @ [LF])) h)
           else
             (case isp_hw_init k ctx width height (sys_h k (Print isp_warning) h) of None \<Rightarrow> None
              | Some (r, ctx, h) \<Rightarrow>
                  if r < 0
                  then Some (- 1, core, ctx,
                         sys_h k (Print (''isp_hw_init failed (chip ID mismatch or mmap failure)'' @ [LF])) h)
                  else Some (0, core, ctx, sys_h k (Ioctl ifd 0x6910 (Arg_words [0])) (isp_start_processing k ctx h))))"

section \<open>The encoder\<close>

record venc_create_chn =
  cr_chan :: u32
  cr_buf_phys :: u32
  cr_buf_virt :: u32
  cr_buf_size :: u32
  cr_width :: u32
  cr_height :: u32
  cr_codec :: u32

definition create_chn_words :: "venc_create_chn \<Rightarrow> u32 list" where
  "create_chn_words c = [cr_chan c, cr_buf_phys c, cr_buf_virt c, cr_buf_size c, cr_width c, cr_height c, cr_codec c]"

record venc_rc_attr_mode9 =
  rc_chan :: u32
  rc_hw_rc_type :: u32
  rc_reserved0 :: u32
  rc_bitrate_a :: u32
  rc_param2_a :: u32
  rc_bitrate_b :: u32
  rc_bitrate_c :: u32
  rc_bitrate_d :: u32
  rc_param2_b :: u32
  rc_param2_c :: u32
  rc_size_marker :: u32
  rc_max_bitrate_param :: u32
  rc_zero0 :: u32
  rc_gop :: u32
  rc_enable :: u32
  rc_zero1 :: u32
  rc_qp_delta_max :: u32
  rc_qp_min_a :: u32
  rc_qp_max_a :: u32
  rc_zero2 :: u32
  rc_qp_step :: u32
  rc_zero3 :: u32
  rc_qp_max_b :: u32
  rc_qp_min_b :: u32
  rc_bitrate_floor :: u32
  rc_bitrate_ceil :: u32

definition rc_attr_words :: "venc_rc_attr_mode9 \<Rightarrow> u32 list" where
  "rc_attr_words c =
     [rc_chan c, rc_hw_rc_type c, rc_reserved0 c, rc_bitrate_a c, rc_param2_a c, rc_bitrate_b c, rc_bitrate_c c,
      rc_bitrate_d c, rc_param2_b c, rc_param2_c c, rc_size_marker c, rc_max_bitrate_param c, rc_zero0 c, rc_gop c,
      rc_enable c, rc_zero1 c, rc_qp_delta_max c, rc_qp_min_a c, rc_qp_max_a c, rc_zero2 c, rc_qp_step c,
      rc_zero3 c, rc_qp_max_b c, rc_qp_min_b c, rc_bitrate_floor c, rc_bitrate_ceil c]"

definition rc_attr :: "u32 \<Rightarrow> u32 \<Rightarrow> venc_rc_attr_mode9" where
  "rc_attr chan bitrate_kbps =
     \<lparr>rc_chan = chan, rc_hw_rc_type = 2, rc_reserved0 = 0, rc_bitrate_a = bitrate_kbps, rc_param2_a = 0,
      rc_bitrate_b = bitrate_kbps, rc_bitrate_c = bitrate_kbps, rc_bitrate_d = bitrate_kbps, rc_param2_b = 0,
      rc_param2_c = 0, rc_size_marker = 8, rc_max_bitrate_param = bitrate_kbps * 2, rc_zero0 = 0, rc_gop = 5,
      rc_enable = 1, rc_zero1 = 0, rc_qp_delta_max = 200, rc_qp_min_a = 0x1e, rc_qp_max_a = 0x22, rc_zero2 = 0,
      rc_qp_step = - 2, rc_zero3 = 0, rc_qp_max_b = 0x20, rc_qp_min_b = 0x1e, rc_bitrate_floor = 2000,
      rc_bitrate_ceil = 4000\<rparr>"

definition venc_set_rc_attr :: "kernel \<Rightarrow> int \<Rightarrow> u32 \<Rightarrow> u32 \<Rightarrow> hist \<Rightarrow> int \<times> hist" where
  "venc_set_rc_attr k efd chan bitrate_kbps h =
     ioctl_r k efd ISP_IOCTL_VENC_SET_RC_ATTR (Arg_words (rc_attr_words (rc_attr chan bitrate_kbps))) h"

definition venc_sys_init :: "kernel \<Rightarrow> int \<Rightarrow> int \<Rightarrow> hist \<Rightarrow> int \<times> hist" where
  "venc_sys_init k efd vfd h =
     (let (r, q, h) = ioctl_words k efd ISP_IOCTL_VENC_SYS_GET_SIZE [0, 0] h in
      if r < 0 then (- 1, sys_h k (Perror ''VENC_SYS_GET_SIZE'') h)
      else let (r, ph, h) = vmm_alloc k vfd (q ! 0) ''venc-sys'' h in
      if r < 0 then (- 1, sys_h k (Perror ''vmm_alloc(venc-sys)'') h)
      else let (r, h) = ioctl_r k efd ISP_IOCTL_VENC_SYS_SET_ADDR (Arg_words [ph, 0, q ! 0]) h in
      if r < 0 then (- 1, sys_h k (Perror ''VENC_SYS_SET_ADDR'') h)
      else (0, h))"

definition chn_config :: "u32 \<Rightarrow> u32 \<Rightarrow> u32 \<Rightarrow> u32 list" where
  "chn_config chan width height =
     [chan, VENC_CODEC_H264, width, height, width, height, VENC_GOP_FRAMES, VENC_PROFILE_MAIN, VENC_INIT_QP,
      VENC_FPS OR push_bit 16 1] @ replicate 8 0"

text \<open>The two addresses the caller passes for results keep their old values when a call fails.\<close>

definition venc_chn_setup ::
  "kernel \<Rightarrow> int \<Rightarrow> int \<Rightarrow> u32 \<Rightarrow> u32 \<Rightarrow> u32 \<Rightarrow> u32 \<Rightarrow> u32 \<times> u32 \<Rightarrow> hist \<Rightarrow> int \<times> (u32 \<times> u32) \<times> hist" where
  "venc_chn_setup k efd vfd chan width height bitrate_kbps outs h =
     (let (r, q, h) = ioctl_words k efd ISP_IOCTL_VENC_QUERY_CHN_MEM [chan, 0, width, height, 0] h in
      if r < 0 then (- 1, outs, sys_h k (Perror ''VENC_QUERY_CHN_MEM'') h)
      else let (r, ph, h) = vmm_alloc k vfd (q ! 1) (trunc 16 (''venc-chn-'' @ dec (unat chan))) h in
      if r < 0 then (- 1, outs, sys_h k (Perror ''vmm_alloc(venc-chn)'') h)
      else
        let chn = \<lparr>cr_chan = chan, cr_buf_phys = ph, cr_buf_virt = 0, cr_buf_size = q ! 1, cr_width = width,
                   cr_height = height, cr_codec = 0\<rparr>;
            (r, h) = ioctl_r k efd ISP_IOCTL_VENC_CREATE_CHN (Arg_words (create_chn_words chn)) h in
      if r < 0 then (- 1, outs, sys_h k (Perror ''VENC_CREATE_CHN'') h)
      else let (r, h) = ioctl_r k efd ISP_IOCTL_VENC_SET_CHN_CONFIG (Arg_words (chn_config chan width height)) h in
      if r < 0 then (- 1, outs, sys_h k (Perror ''VENC_SET_CHN_CONFIG'') h)
      else let (r, h) = venc_set_rc_attr k efd chan bitrate_kbps h in
      if r < 0 then (- 1, outs, sys_h k (Perror ''VENC_SET_RC_ATTR'') h)
      else (0, (ph, q ! 1), h))"

definition venc_bind_and_start :: "kernel \<Rightarrow> int \<Rightarrow> int \<Rightarrow> u32 \<Rightarrow> hist \<Rightarrow> int \<times> hist" where
  "venc_bind_and_start k mfd efd chan h =
     (let (r, h) = ioctl_r k mfd MEDIA_IOCTL_BIND (Arg_words [MEDIA_OBJECT_VPU, chan, MEDIA_OBJECT_ENC, chan]) h in
      if r < 0 then (- 1, sys_h k (Perror ''MEDIA_BIND vpu->enc'') h)
      else let (r, h) = ioctl_r k efd ISP_IOCTL_VENC_START_RECV_PIC (Arg_words [chan]) h in
      if r < 0 then (- 1, sys_h k (Perror ''VENC_START_RECV_PIC'') h)
      else (0, h))"

section \<open>Frames\<close>

definition strip_start_code :: "u8 list \<Rightarrow> u8 list" where
  "strip_start_code buf =
     (let off = (if 4 \<le> length buf \<and> buf ! 0 = 0 \<and> buf ! 1 = 0 \<and> buf ! 2 = 0 \<and> buf ! 3 = 1 then 4
                 else if 3 \<le> length buf \<and> buf ! 0 = 0 \<and> buf ! 1 = 0 \<and> buf ! 2 = 1 then 3
                 else 0)
      in drop off buf)"

text \<open>
  One pass of the loop over the NAL units, for unit \<open>i\<close> of \<open>n\<close>. The bytes of the encoder's buffer, which it
  leaves alone until the stream is released, are fetched once. \<open>None\<close> is an access past the end of the
  mapping: its length is a sum of two 32-bit numbers, which may wrap.
\<close>

definition push_nalu ::
  "kernel \<Rightarrow> int \<Rightarrow> u32 list \<Rightarrow> u32 \<Rightarrow> u64 \<Rightarrow> nat \<Rightarrow> nat \<Rightarrow> rtsp_server \<Rightarrow> hist \<Rightarrow> (rtsp_server \<times> hist) option" where
  "push_nalu k memfd st chan pts_us n i srv h =
     (let phys = st ! (VENC_STREAM_NALU_WORD + i * 4 + 1);
          len = st ! (VENC_STREAM_NALU_WORD + i * 4 + 3)
      in if len = 0 then Some (srv, h)
         else
           let page_off = phys AND 0xFFF;
               (m, h) = sys k (Mmap memfd (len + page_off) (phys AND NOT 0xFFF)) h
           in if rv m = MAP_FAILED then Some (srv, h)
              else if unat (len + page_off) < unat page_off + unat len then None
              else
                let (b, h) = sys k (Fetch (rv m) (unat page_off) (unat len)) h;
                    bytes = overlay (rbytes b) (replicate (unat len) 0);
                    h = (if chan = 0 then sys_h k (Write 1 bytes) h else h)
                in do {
                  (srv, h) \<leftarrow> rtsp_server_push_nal k srv (sint chan) (strip_start_code bytes) pts_us (i + 1 = n) h;
                  Some (srv, sys_h k (Munmap (rv m) (len + page_off)) h)
                })"

fun push_nalus ::
  "kernel \<Rightarrow> int \<Rightarrow> u32 list \<Rightarrow> u32 \<Rightarrow> u64 \<Rightarrow> nat \<Rightarrow> nat list \<Rightarrow> rtsp_server \<Rightarrow> hist \<Rightarrow> (rtsp_server \<times> hist) option" where
  "push_nalus k memfd st chan pts_us n [] srv h = Some (srv, h)"
| "push_nalus k memfd st chan pts_us n (i # is) srv h =
     do {
       (srv, h) \<leftarrow> push_nalu k memfd st chan pts_us n i srv h;
       push_nalus k memfd st chan pts_us n is srv h
     }"

definition nalu_count :: "u32 list \<Rightarrow> nat" where
  "nalu_count st = unat (if st ! 4 < VENC_STREAM_NALU_MAX then st ! 4 else VENC_STREAM_NALU_MAX)"

definition venc_get_stream ::
  "kernel \<Rightarrow> int \<Rightarrow> int \<Rightarrow> int \<Rightarrow> rtsp_server \<Rightarrow> hist \<Rightarrow> (bool \<times> rtsp_server \<times> hist) option" where
  "venc_get_stream k mfd efd memfd srv h =
     (let st = (replicate VENC_STREAM_WORDS 0)[0 := VENC_STREAM_H264];
          (r, st, h) = ioctl_words k mfd ISP_IOCTL_VENC_GET_STREAM st h
      in if r \<noteq> 0 \<or> st ! 1 \<noteq> VENC_STREAM_H264 then Some (False, srv, h)
         else
           let chan = st ! 3;
               n = nalu_count st;
               pts_us = push_bit 32 (ucast (st ! 11)) OR ucast (st ! 10)
           in do {
             (srv, h) \<leftarrow> push_nalus k memfd st chan pts_us n [0..<n] srv h;
             Some (True, srv, sys_h k (Ioctl efd ISP_IOCTL_VENC_RELEASE_STREAM (Arg_words [chan])) h)
           })"

section \<open>The program\<close>

record streamer =
  s_mp_fd :: int
  s_isp_fd :: int
  s_enc_fd :: int
  s_vmm_fd :: int
  s_sensor :: cv2003
  s_core :: isp_core
  s_ctx :: isp_ctx
  s_rtsp :: rtsp_server

fun start_encoders ::
  "kernel \<Rightarrow> (u32 \<Rightarrow> u32 \<Rightarrow> u32 \<Rightarrow> u32) \<Rightarrow> int \<Rightarrow> int \<Rightarrow> int \<Rightarrow> vpss_chn_desc list \<Rightarrow> hist \<Rightarrow> int \<times> hist" where
  "start_encoders k bitrate mfd efd vfd [] h = (0, h)"
| "start_encoders k bitrate mfd efd vfd (d # ds) h =
     (let (r, _, h) = venc_chn_setup k efd vfd (d_chan d) (d_width d) (d_height d)
             (bitrate (d_width d) (d_height d) VENC_FPS) (0, 0) h in
      if r < 0 then (1, sys_h k (Print (''venc_chn_setup failed for channel '' @ dec (unat (d_chan d)) @ [LF])) h)
      else let (r, h) = venc_bind_and_start k mfd efd (d_chan d) h in
      if r < 0 then (1, h) else start_encoders k bitrate mfd efd vfd ds h)"

text \<open>The server's configuration: both streams, the encoder's callback, and where the passwords come from.\<close>

definition configure_server :: "kernel \<Rightarrow> int \<Rightarrow> rtsp_server \<Rightarrow> hist \<Rightarrow> rtsp_server \<times> hist" where
  "configure_server k efd srv h =
     (let srv = fold (\<lambda>d srv. rtsp_server_enable_stream srv (sint (d_chan d)) VENC_FPS) VPSS_CHANNELS srv;
          srv = rtsp_server_on_idr_request srv (Venc_request_idr efd);
          (u, h) = sys k (Getenv ''MINI_STREAMER_RTSP_USER'') h;
          (p, h) = sys k (Getenv ''MINI_STREAMER_RTSP_PASS'') h
      in case (rtext u, rtext p) of
           (Some user, Some pass) \<Rightarrow>
             (rtsp_server_set_credentials srv user pass,
              sys_h k (Print (''RTSP auth: user '' @ user @ '' from the environment'' @ [LF])) h)
         | _ \<Rightarrow>
             (rtsp_server_use_shadow srv ''/etc/shadow'',
              sys_h k (Print (''RTSP auth: system accounts from /etc/shadow, like majestic'' @ [LF])) h))"

text \<open>Everything up to the loop: an exit code and no streamer, or the streamer.\<close>

definition print_line :: "kernel \<Rightarrow> string \<Rightarrow> hist \<Rightarrow> hist" where
  "print_line k s h = sys_h k (Print (s @ [LF])) h"

definition start_up :: "kernel \<Rightarrow> hist \<Rightarrow> hist" where
  "start_up k h =
     (let h = sys_h k (Signal 2 ''sig_handler'') h;
          h = sys_h k (Signal 15 ''sig_handler'') h;
          h = sys_h k (Signal 13 ''SIG_IGN'') h;
          h = print_line k ''=== FH8852V201 Mini Streamer (majestic replacement) ==='' h;
          h = print_line k ''Sensor: CV2003 @ /dev/i2c-0:0x35'' h;
          h = print_line k (''Output: raw H.264 NALUs on stdout'' @ [LF]) h
      in apply_proc_config k h)"

definition bring_up ::
  "kernel \<Rightarrow> (u32 \<Rightarrow> u32 \<Rightarrow> u32 \<Rightarrow> u32) \<Rightarrow> hist \<Rightarrow> ((int + streamer) \<times> hist) option" where
  "bring_up k bitrate h =
     (let h = start_up k h;
          (mp, h) = sys k (Open ''/dev/media_process'' O_RDWR) h;
          (isp, h) = sys k (Open ''/dev/isp'' O_RDWR) h;
          (enc, h) = sys k (Open ''/dev/enc'' O_RDWR) h;
          (jpeg, h) = sys k (Open ''/dev/jpeg'' O_RDWR) h;
          (vmm, h) = sys k (Open ''/dev/vmm_userdev'' O_RDWR) h
      in if rv mp < 0 \<or> rv isp < 0 \<or> rv enc < 0 \<or> rv vmm < 0 then
           Some (Inl 1, print_line k (''device open failed (mp='' @ dec_int (rv mp) @ '' isp='' @ dec_int (rv isp)
             @ '' enc='' @ dec_int (rv enc) @ '' vmm='' @ dec_int (rv vmm) @ '')'') h)
         else let (r, cv, h) = cv2003_init k cv2003_0 h in
         if r < 0 then Some (Inl 1, print_line k ''cv2003_init failed'' h)
         else let (r, cv, h) = cv2003_set_format k cv h in
         if r < 0 then Some (Inl 1, print_line k ''cv2003_set_format failed'' h)
         else let (r, h) = vpss_setup k (rv isp) (rv vmm) h in
         if r < 0 then Some (Inl 1, print_line k ''vpss_setup failed'' h)
         else do {
           (r, core, ctx, h) \<leftarrow> isp_setup k isp_core0 \<lparr>ctx_regs = 0, mem_fd = 0, ctx_width = 0, ctx_height = 0\<rparr>
             (rv isp) (rv vmm) 1920 1080 h;
           if r < 0 then Some (Inl 1, print_line k ''isp_setup failed'' h)
           else let (r, h) = venc_sys_init k (rv enc) (rv vmm) h in
           if r < 0 then Some (Inl 1, print_line k ''venc_sys_init failed'' h)
           else let (r, h) = start_encoders k bitrate (rv mp) (rv enc) (rv vmm) VPSS_CHANNELS h in
           if r \<noteq> 0 then Some (Inl 1, h)
           else let (r, srv, h) = rtsp_server_init k 554 h in
           if r < 0 then Some (Inl 1, print_line k ''rtsp_server_init failed'' h)
           else
             let (srv, h) = configure_server k (rv enc) srv h;
                 h = print_line k (''Pipeline ready: rtsp://0.0.0.0:554/stream=0 (main), ''
                       @ ''rtsp://0.0.0.0:554/stream=1 (sub). Raw H.264 for stream=0 also on stdout.'') h;
                 h = print_line k ''Press Ctrl+C to stop'' h
             in Some (Inr \<lparr>s_mp_fd = rv mp, s_isp_fd = rv isp, s_enc_fd = rv enc, s_vmm_fd = rv vmm, s_sensor = cv,
                           s_core = core, s_ctx = ctx, s_rtsp = srv\<rparr>, h)
         })"

text \<open>
  The loop: the server is polled and one frame is taken, until a signal has arrived. Nothing bounds the
  number of rounds.
\<close>

partial_function (option) main_loop ::
  "kernel \<Rightarrow> (string \<Rightarrow> string \<Rightarrow> string option) \<Rightarrow> int \<Rightarrow> int \<Rightarrow> int \<Rightarrow> bool \<Rightarrow> rtsp_server \<Rightarrow> u32 \<Rightarrow> hist
     \<Rightarrow> (rtsp_server \<times> u32 \<times> hist) option" where
  "main_loop k crypt mfd efd memfd running srv frames h =
     (let (running, h) = read_running k running h in
      if \<not> running then Some (srv, frames, h)
      else do {
        (srv, h) \<leftarrow> rtsp_server_poll k crypt srv h;
        (got, srv, h) \<leftarrow> venc_get_stream k mfd efd memfd srv h;
        if \<not> got then main_loop k crypt mfd efd memfd running srv frames (sys_h k (Usleep 2000) h)
        else
          let frames = frames + 1;
              h = (if frames mod 50 = 0 then print_line k (''Frames: '' @ dec (unat frames)) h else h)
          in main_loop k crypt mfd efd memfd running srv frames h
      })"

definition shut_down :: "kernel \<Rightarrow> streamer \<Rightarrow> rtsp_server \<Rightarrow> u32 \<Rightarrow> hist \<Rightarrow> hist" where
  "shut_down k s srv frames h =
     (let (srv, h) = rtsp_server_close k srv h;
          h = sys_h k (Print ([LF] @ ''Stopping... ('' @ dec (unat frames) @ '' frames captured)'' @ [LF])) h;
          (cv, h) = cv2003_deinit k (s_sensor s) h;
          (ctx, h) = isp_cleanup k (s_ctx s) h;
          h = sys_h k (Close (s_enc_fd s)) h;
          h = sys_h k (Close (s_vmm_fd s)) h;
          h = sys_h k (Close (s_isp_fd s)) h
      in sys_h k (Close (s_mp_fd s)) h)"

definition streamer_main ::
  "kernel \<Rightarrow> (string \<Rightarrow> string \<Rightarrow> string option) \<Rightarrow> (u32 \<Rightarrow> u32 \<Rightarrow> u32 \<Rightarrow> u32) \<Rightarrow> hist \<Rightarrow> (int \<times> hist) option" where
  "streamer_main k crypt bitrate h =
     do {
       (up, h) \<leftarrow> bring_up k bitrate h;
       (case up of
          Inl code \<Rightarrow> Some (code, h)
        | Inr s \<Rightarrow> do {
            (srv, frames, h) \<leftarrow> main_loop k crypt (s_mp_fd s) (s_enc_fd s) (mem_fd (s_ctx s)) True (s_rtsp s) 0 h;
            Some (0, shut_down k s srv frames h)
          })
     }"

end
