(* ===== verification/Streamer_Props.thy ===== *)
theory Streamer_Props
  imports Mini_Streamer Rtsp_Run Isp_Props Sensor_Props
begin

text \<open>
  What \<open>mini_streamer.c\<close> does with the drivers and with the libraries: the arguments it passes, the memory
  it hands to the hardware, the frames it takes and gives back, and the end of the program.
\<close>

section \<open>Driver arguments\<close>

text \<open>
  A driver call passes at least as many bytes as its request code announces, except the rate control
  request, which passes four less.
\<close>

definition fits :: "syscall \<Rightarrow> bool" where
  "fits c =
     (case c of
        Ioctl fd req a \<Rightarrow>
          if req = ISP_IOCTL_VENC_SET_RC_ATTR then arg_size a + 4 = ioc_size req else ioc_size req \<le> arg_size a
      | _ \<Rightarrow> True)"

lemma fits_simps [simp]:
  "fits (Open p m)" "fits (Close fd)" "fits (Write fd d)" "fits (Mmap fd n off)" "fits (Munmap fd n)" "fits (Peek fd i)"
  "fits (Poke fd i v)" "fits Socket_stream" "fits (Bind fd ad)" "fits (Listen fd)" "fits (Setsockopt fd)"
  "fits (Set_nonblock fd)" "fits Random" "fits (Srandom v)" "fits Getpid" "fits Clock_us" "fits Time" "fits (Usleep us)"
  "fits (Getenv s)" "fits (Signal sig s)" "fits (Print s)" "fits (Perror s)"
  by (simp_all add: fits_def)

text \<open>A call that neither opens nor closes.\<close>

definition driver_call :: "syscall \<Rightarrow> bool" where
  "driver_call c \<longleftrightarrow> fits c \<and> (\<forall>r f. opens c r f = 0)"

lemma driver_call_simps [simp]:
  "driver_call (Ioctl fd req a) \<longleftrightarrow> fits (Ioctl fd req a)" "driver_call (Perror s)" "driver_call (Print s)" "driver_call (Usleep n)"
  "driver_call (Peek b i)" "driver_call (Poke b i v)"
  by (auto simp: driver_call_def)

lemma driver_quiet: "adds driver_call h h' \<Longrightarrow> quiet h h'"
  by (erule adds_quiet) (simp add: driver_call_def)

lemma driver_fits: "adds driver_call h h' \<Longrightarrow> adds fits h h'"
  by (erule adds_mono) (simp add: driver_call_def)

lemmas request_codes = VMM_IOCTL_ALLOC_def
  ISP_IOCTL_VPSS_GET_SYS_SIZE_def ISP_IOCTL_VPSS_SET_SYS_ADDR_def ISP_IOCTL_VPSS_GET_CHN_SIZE_def
  ISP_IOCTL_VPSS_SET_CHN_ADDR_def ISP_IOCTL_VPSS_SET_VI_ATTR_def ISP_IOCTL_VPSS_ENABLE_def
  ISP_IOCTL_VPSS_SET_CHN_ATTR_def ISP_IOCTL_VPSS_OPEN_CHN_def ISP_IOCTL_VPSS_SET_VO_MODE_def
  ISP_IOCTL_VENC_SYS_GET_SIZE_def ISP_IOCTL_VENC_SYS_SET_ADDR_def ISP_IOCTL_VENC_QUERY_CHN_MEM_def
  ISP_IOCTL_VENC_CREATE_CHN_def ISP_IOCTL_VENC_SET_RC_ATTR_def ISP_IOCTL_VENC_START_RECV_PIC_def
  ISP_IOCTL_VENC_GET_STREAM_def ISP_IOCTL_VENC_RELEASE_STREAM_def ISP_IOCTL_VENC_SET_CHN_CONFIG_def
  MEDIA_IOCTL_BIND_def
  ISP_IOCTL_HANDSHAKE_def ISP_IOCTL_GET_BUF_INFO_def ISP_IOCTL_SET_DMA_ADDRS_def ISP_IOCTL_SET_STAT_INFO_def
  ISP_IOCTL_GET_STAT_INFO_def

lemma fits_ioctl [simp]:
  "fits (Ioctl fd VMM_IOCTL_ALLOC a) \<longleftrightarrow> 80 \<le> arg_size a"
  "fits (Ioctl fd ISP_IOCTL_VPSS_GET_SYS_SIZE a) \<longleftrightarrow> 4 \<le> arg_size a"
  "fits (Ioctl fd ISP_IOCTL_VPSS_SET_SYS_ADDR a) \<longleftrightarrow> 12 \<le> arg_size a"
  "fits (Ioctl fd ISP_IOCTL_VPSS_GET_CHN_SIZE a) \<longleftrightarrow> 16 \<le> arg_size a"
  "fits (Ioctl fd ISP_IOCTL_VPSS_SET_CHN_ADDR a) \<longleftrightarrow> 24 \<le> arg_size a"
  "fits (Ioctl fd ISP_IOCTL_VPSS_SET_VI_ATTR a) \<longleftrightarrow> 244 \<le> arg_size a"
  "fits (Ioctl fd ISP_IOCTL_VPSS_ENABLE a) \<longleftrightarrow> 4 \<le> arg_size a"
  "fits (Ioctl fd ISP_IOCTL_VPSS_SET_CHN_ATTR a) \<longleftrightarrow> 12 \<le> arg_size a"
  "fits (Ioctl fd ISP_IOCTL_VPSS_OPEN_CHN a) \<longleftrightarrow> 4 \<le> arg_size a"
  "fits (Ioctl fd ISP_IOCTL_VPSS_SET_VO_MODE a) \<longleftrightarrow> 8 \<le> arg_size a"
  "fits (Ioctl fd ISP_IOCTL_VENC_SYS_GET_SIZE a) \<longleftrightarrow> 8 \<le> arg_size a"
  "fits (Ioctl fd ISP_IOCTL_VENC_SYS_SET_ADDR a) \<longleftrightarrow> 12 \<le> arg_size a"
  "fits (Ioctl fd ISP_IOCTL_VENC_QUERY_CHN_MEM a) \<longleftrightarrow> 20 \<le> arg_size a"
  "fits (Ioctl fd ISP_IOCTL_VENC_CREATE_CHN a) \<longleftrightarrow> 28 \<le> arg_size a"
  "fits (Ioctl fd ISP_IOCTL_VENC_SET_RC_ATTR a) \<longleftrightarrow> arg_size a = 104"
  "fits (Ioctl fd ISP_IOCTL_VENC_START_RECV_PIC a) \<longleftrightarrow> 4 \<le> arg_size a"
  "fits (Ioctl fd ISP_IOCTL_VENC_GET_STREAM a) \<longleftrightarrow> 416 \<le> arg_size a"
  "fits (Ioctl fd ISP_IOCTL_VENC_RELEASE_STREAM a) \<longleftrightarrow> 4 \<le> arg_size a"
  "fits (Ioctl fd ISP_IOCTL_VENC_SET_CHN_CONFIG a) \<longleftrightarrow> 72 \<le> arg_size a"
  "fits (Ioctl fd MEDIA_IOCTL_BIND a) \<longleftrightarrow> 16 \<le> arg_size a"
  "fits (Ioctl fd ISP_IOCTL_HANDSHAKE a) \<longleftrightarrow> 1 \<le> arg_size a"
  "fits (Ioctl fd ISP_IOCTL_GET_BUF_INFO a) \<longleftrightarrow> 48 \<le> arg_size a"
  "fits (Ioctl fd ISP_IOCTL_SET_DMA_ADDRS a) \<longleftrightarrow> 1 \<le> arg_size a"
  "fits (Ioctl fd ISP_IOCTL_SET_STAT_INFO a) \<longleftrightarrow> 120 \<le> arg_size a"
  "fits (Ioctl fd ISP_IOCTL_GET_STAT_INFO a) \<longleftrightarrow> 120 \<le> arg_size a"
  by (auto simp: fits_def ioc_size_def request_codes)

lemma arg_size_simps [simp]:
  "arg_size (Arg_words ws) = 4 * length ws" "arg_size (Arg_bytes bs) = length bs"
  by (simp_all add: arg_size_def)

lemma length_vmm_request [simp]: "length (vmm_request sz align name) = 80"
  by (simp add: vmm_request_def)

lemma length_struct_words [simp]:
  "length vi_attr = 62" "length (create_chn_words c) = 7" "length (rc_attr_words a) = 26"
  "length (chn_config chan w hh) = 18"
  by (simp_all add: vi_attr_def create_chn_words_def rc_attr_words_def chn_config_def)

section \<open>Setting up the drivers\<close>

lemma walk_vmm_alloc:
  assumes "adds driver_call h0 h" and "\<And>r ph h1. adds driver_call h0 h1 \<Longrightarrow> R (g r ph h1)"
  shows "R (case vmm_alloc k fd sz name h of (r, ph, h1) \<Rightarrow> g r ph h1)"
proof -
  let ?c = "Ioctl fd VMM_IOCTL_ALLOC (Arg_bytes (vmm_request sz 0x1000 name))"
  have "adds driver_call h0 (sys_h k ?c h)" using assms(1) by simp
  then show ?thesis using assms(2) by (simp add: vmm_alloc_def ioctl_bytes_def sys_h_def sys_def)
qed

lemmas setup_walk2 = ad.walk2 walk_vmm_alloc [where R = "\<lambda>x. adds driver_call h0 (snd x)" for h0]
lemmas setup_walk3 = ad.walk3 walk_vmm_alloc [where R = "\<lambda>x. adds driver_call h0 (snd (snd x))" for h0]
lemmas setup_call2 = ad.walk_call [where R = "\<lambda>x. adds P h0 (snd x)" for P h0]

lemma ioctl_each_adds:
  "\<forall>ws \<in> set wss. P (Ioctl fd req (Arg_words ws)) \<Longrightarrow> adds P h (snd (ioctl_each k fd req wss h))"
proof (induction wss arbitrary: h)
  case (Cons ws wss)
  have t: "adds P h h1 \<Longrightarrow> adds P h (snd (ioctl_each k fd req wss h1))" for h1
    using Cons by (auto intro: adds_trans)
  show ?case unfolding ioctl_each.simps Let_def by (intro ad.walk2) (use Cons.prems t in simp_all)
qed simp

lemma vpss_chn_buffers_adds: "adds driver_call h (snd (vpss_chn_buffers k ifd vfd ds h))"
proof (induction ds arbitrary: h)
  case (Cons d ds)
  have t: "adds driver_call h h1 \<Longrightarrow> adds driver_call h (snd (vpss_chn_buffers k ifd vfd ds h1))" for h1
    using Cons by (auto intro: adds_trans)
  show ?case unfolding vpss_chn_buffers.simps Let_def by (intro setup_walk2) (simp_all, blast intro: t)
qed simp

lemma vpss_setup_adds: "adds driver_call h (snd (vpss_setup k ifd vfd h))"
proof -
  have e: "adds driver_call h (snd (ioctl_each k ifd ISP_IOCTL_VPSS_SET_CHN_ATTR
       (map (\<lambda>d. [d_chan d, d_width d, d_height d]) VPSS_CHANNELS) h))"
    "adds driver_call h (snd (ioctl_each k ifd ISP_IOCTL_VPSS_SET_VO_MODE (map (\<lambda>d. [d_chan d, 1]) VPSS_CHANNELS) h))" for h
    by (rule ioctl_each_adds; simp)+
  show ?thesis
    unfolding vpss_setup_def Let_def
    by (intro setup_walk2 setup_call2 [OF _ vpss_chn_buffers_adds] setup_call2 [OF _ e(1)])
      (simp_all, blast intro: adds_trans [OF _ e(2)])
qed

lemma venc_sys_init_adds: "adds driver_call h (snd (venc_sys_init k efd vfd h))"
  unfolding venc_sys_init_def Let_def by (intro setup_walk2) simp_all

lemma venc_bind_and_start_adds: "adds driver_call h (snd (venc_bind_and_start k mfd efd chan h))"
  unfolding venc_bind_and_start_def Let_def by (intro setup_walk2) simp_all

lemma venc_chn_setup_adds: "adds driver_call h (snd (snd (venc_chn_setup k efd vfd chan w hh br outs h)))"
  unfolding venc_chn_setup_def venc_set_rc_attr_def Let_def by (intro setup_walk3) simp_all

lemma start_encoders_adds: "adds driver_call h (snd (start_encoders k bitrate mfd efd vfd ds h))"
proof (induction ds arbitrary: h)
  case (Cons d ds)
  have t: "adds driver_call h h2 \<Longrightarrow> adds driver_call h (snd (start_encoders k bitrate mfd efd vfd ds h2))" for h2
    using Cons by (auto intro: adds_trans)
  show ?case unfolding start_encoders.simps Let_def
    by (intro setup_walk2 setup_call2 [OF _ venc_bind_and_start_adds]
        ad.walk_call3 [where R = "\<lambda>x. adds driver_call h (snd x)", OF _ venc_chn_setup_adds]) (simp_all, blast intro: t)
qed simp

section \<open>Setting up the image signal processor\<close>

text \<open>
  The allocation of the buffers logs to a file it opens and closes. A relation on histories that the
  driver calls and the log lines keep is kept by all of it.
\<close>

locale logged_order = history_order +
  assumes T_call: "driver_call c \<Longrightarrow> T h (sys_h k c h)"
    and T_trace: "T h (write_trace k msg h)"
begin

lemma T_snoc: "T h0 h \<Longrightarrow> driver_call c \<Longrightarrow> T h0 (sys_h k c h)"
  by (rule T_trans [OF _ T_call])

lemma T_mem_log: "T h0 h \<Longrightarrow> T h0 (mem_log k line ad sz name h)"
  unfolding mem_log_def by (intro T_snoc T_trans [OF _ T_trace]) simp_all

lemma T_err_log: "T h0 h \<Longrightarrow> T h0 (err_log k func line body h)"
  unfolding err_log_def Let_def by (intro T_snoc T_trans [OF _ T_trace]) simp_all

lemma T_simple_err_log: "T h0 h \<Longrightarrow> T h0 (simple_err_log k func line body h)"
  unfolding simple_err_log_def Let_def by (intro T_snoc) simp_all

lemma T_isp_malloc: "T h (snd (snd (snd (isp_malloc k sz al old core h))))"
  unfolding isp_malloc_def Let_def by (simp add: T_refl T_simple_err_log)

lemma T_alloc_all: "T h (snd (snd (alloc_all k ps core h)))"
proof (induction ps arbitrary: core h)
  case (Cons p ps)
  obtain b sz line name where p: "p = (b, sz, line, name)" by (metis prod_cases4)
  obtain r ad c1 h1 where m: "isp_malloc k sz 0x80 (buf_addr core b) core h = (r, ad, c1, h1)" by (metis prod_cases4)
  have "T h h1" using T_isp_malloc [of h k sz "0x80" "buf_addr core b" core] by (simp add: m)
  then show ?case
    unfolding p alloc_all.simps Let_def m prod.case
    by (auto intro: T_trans [OF T_mem_log Cons.IH])
qed (simp add: T_refl)

lemma T_alloc_buf_addr: "T h (snd (snd (isp_core_alloc_buf_addr k w hh core h)))"
proof -
  have dma: "length (dma_addrs c) = 88" for c
    by (simp add: dma_addrs_def dma_offsets_def DMA_ADDRS_SIZE_def)
  have vmm: "fits (Ioctl fd VMM_IOCTL_ALLOC (Arg_bytes (vmm_request sz al name)))" for fd sz al name by simp
  have bm: "T h1 (snd (snd (buffer_malloc_withname k sz al name c h1)))" for h1 sz al name c
    unfolding buffer_malloc_withname_def Let_def
    by (intro walk3) (use vmm in \<open>auto intro: T_call T_refl\<close>)
  have gs: "T h1 (snd (isp_core_get_buf_size k c w hh h1))" for c h1
    unfolding isp_core_get_buf_size_def by (simp add: T_call)
  show ?thesis
    unfolding isp_core_alloc_buf_addr_def Let_def
    by (rule walk_call [where R = "\<lambda>x. T h (snd (snd x))", OF T_refl gs])
      (intro walk3 walk_call3 [where R = "\<lambda>x. T h (snd (snd x))", OF _ bm]
        walk_call3 [where R = "\<lambda>x. T h (snd (snd x))", OF _ T_alloc_all];
       simp add: T_refl T_call T_snoc T_err_log T_simple_err_log dma STAT_INFO_SIZE_def)
qed

end

lemma write_trace_fits: "adds fits h (write_trace k msg h)"
  unfolding write_trace_def Let_def by (intro ad.walk1) simp_all

interpretation lgf: logged_order "adds fits"
  by unfold_locales (auto simp: driver_call_def write_trace_fits)

interpretation lgq: logged_order quiet
  by unfold_locales (auto simp: driver_call_def write_trace_def sys_def quiet_def)

lemma isp_mmap_facts:
  assumes "isp_mmap k ctx w hh h = (r, c0, h0)"
  shows "adds fits h h0 \<and> ctx_width c0 = w \<and> ctx_height c0 = hh \<and>
     (\<not> r < 0 \<longrightarrow> 0 \<le> mem_fd c0 \<and> (\<forall>f. live h0 f - held_fd (mem_fd c0) f = live h f))"
  using assms by (auto simp: isp_mmap_def sys_def os_simps held_fd_def Let_def split: if_splits)

lemma poke_all_adds: "adds driver_call h (poke_all k b ws h)"
proof (induction ws arbitrary: h)
  case (Cons p ws)
  then show ?case using adds_trans [of driver_call h "sys_h k (Poke b (fst p) (snd p)) h"] by (cases p) simp
qed simp

lemma modify_adds: "adds driver_call h (modify k b off g h)"
  unfolding modify_def peek_def Let_def by (simp add: sys_def os_simps)

lemma adds_poke_all: "adds driver_call h0 h \<Longrightarrow> adds driver_call h0 (poke_all k b ws h)"
  by (rule adds_trans [OF _ poke_all_adds])

lemma adds_modify: "adds driver_call h0 h \<Longrightarrow> adds driver_call h0 (modify k b off g h)"
  by (rule adds_trans [OF _ modify_adds])

lemma isp_hw_init_facts:
  assumes "isp_hw_init k ctx w hh h = Some (r, ctx', h')"
  shows "adds fits h h' \<and> (\<not> r < 0 \<longrightarrow> 0 \<le> mem_fd ctx' \<and> (\<forall>f. live h' f - held_fd (mem_fd ctx') f = live h f))"
proof -
  obtain r0 c0 h0 where m: "isp_mmap k ctx w hh h = (r0, c0, h0)" by (metis prod_cases3)
  note mf = isp_mmap_facts [OF m] and hb = hw_init_books [OF assms m]
  obtain v h1 where p: "peek k (ctx_regs c0) 0 h0 = (v, h1)" by fastforce
  obtain v2 h2 where p2: "peek k (ctx_regs c0) 0 h1 = (v2, h2)" by fastforce
  have 1: "adds driver_call h0 h1" "adds driver_call h0 h2" using p p2 by (auto simp: peek_def sys_def)
  define h3 where "h3 = isp_ispf_init k c0 (isp_ispp_init k c0 (isp_reset k c0 h1))"
  have 3: "adds driver_call h0 h3"
    unfolding h3_def isp_ispf_init_def isp_ispp_init_def isp_reset_def Let_def
    by (intro adds_poke_all adds_modify adds_snoc 1) simp
  have 4: "adds driver_call h0 h4" if e: "isp_set_pic_size k c0 h3 = Some h4" for h4
  proof -
    have l: "adds driver_call h0 h5 \<Longrightarrow> adds driver_call h0 (isp_set_lsc_tab k c0 x y h5)" for x y h5
      unfolding isp_set_lsc_tab_def Let_def by (intro adds_poke_all)
    have n: "adds driver_call h0 h5 \<Longrightarrow> isp_set_nr3d_drc_win k c0 x y h5 = Some h6 \<Longrightarrow> adds driver_call h0 h6" for x y h5 h6
      unfolding isp_set_nr3d_drc_win_def Let_def by (auto split: option.splits intro: adds_poke_all)
    from e show ?thesis unfolding isp_set_pic_size_def Let_def
      by (auto split: option.splits intro!: adds_poke_all elim!: n [rotated] intro: l adds_modify 3)
  qed
  have "adds fits h0 h'"
  proof (cases "r0 < 0")
    case True
    then show ?thesis using assms by (simp add: isp_hw_init_def m)
  next
    case ok: False
    show ?thesis
    proof (cases "v = 0x5A542093")
      case False
      then have "h' = sys_h k (Print (''ISP chip ID mismatch: 0x'' @ hex_fixed_upper 8 (unat v2) @ [LF])) h2"
        using assms ok by (simp add: isp_hw_init_def m p p2)
      then show ?thesis by (simp only:) (rule adds_snoc [OF driver_fits [OF 1(2)] fits_simps(21)])
    next
      case True
      with assms ok obtain h4 where e: "isp_set_pic_size k c0 h3 = Some h4" "h' = isp_apply_module_bypass k c0 h4"
        by (auto simp: isp_hw_init_def m p h3_def split: option.splits)
      show ?thesis unfolding e(2) isp_apply_module_bypass_def by (intro driver_fits adds_modify 4 e(1))
    qed
  qed
  with mf have "adds fits h h'" by (blast intro: adds_trans)
  moreover have "r0 < 0 \<longrightarrow> r < 0" using hb by auto
  ultimately show ?thesis using mf hb by auto
qed

lemma isp_hw_init_returns:
  assumes "64 \<le> unat w" "unat w \<le> 8192" "64 \<le> unat hh" "unat hh \<le> 8192"
  shows "\<exists>r ctx' h'. isp_hw_init k ctx w hh h = Some (r, ctx', h')"
proof -
  obtain r0 c0 h0 where m: "isp_mmap k ctx w hh h = (r0, c0, h0)" by (metis prod_cases3)
  have c0: "ctx_width c0 = w" "ctx_height c0 = hh" using isp_mmap_facts [OF m] by auto
  obtain a0 a1 where "isp_set_stat_param ((replicate 21 0)[18 := hh, 19 := w, 20 := 0]) = Some a0"
    "isp_set_stat_param (a0[20 := 1]) = Some a1" using stat_passes [OF assms] by blast
  then have pic: "\<exists>h2. isp_set_pic_size k c0 h1 = Some h2" for h1
    by (simp add: isp_set_pic_size_def isp_set_nr3d_drc_win_def c0 Let_def)
  obtain v h1 where p: "peek k (ctx_regs c0) 0 h0 = (v, h1)" by fastforce
  obtain v2 h2 where p2: "peek k (ctx_regs c0) 0 h1 = (v2, h2)" by fastforce
  obtain h3 where h3: "isp_set_pic_size k c0 (isp_ispf_init k c0 (isp_ispp_init k c0 (isp_reset k c0 h1))) = Some h3"
    using pic by blast
  show ?thesis
    unfolding isp_hw_init_def m p p2 Let_def prod.case h3 option.case by (cases "r0 < 0"; cases "v = 0x5A542093") simp_all
qed

lemma fits_isp_codes [simp]:
  "fits (Ioctl fd 0x80086929 a) \<longleftrightarrow> 8 \<le> arg_size a" "fits (Ioctl fd 0x80306926 a) \<longleftrightarrow> 48 \<le> arg_size a"
  "fits (Ioctl fd 0x80786905 a) \<longleftrightarrow> 120 \<le> arg_size a" "fits (Ioctl fd 0x40046908 a) \<longleftrightarrow> 4 \<le> arg_size a"
  "fits (Ioctl fd 0x40046909 a) \<longleftrightarrow> 4 \<le> arg_size a" "fits (Ioctl fd 0x4004690F a) \<longleftrightarrow> 4 \<le> arg_size a"
  "fits (Ioctl fd 0x690A a)" "fits (Ioctl fd 0x6910 a)"
  by (auto simp: fits_def ioc_size_def request_codes)

text \<open>What is claimed of the result of \<open>isp_setup\<close> begun in a history, and its last part with its messages named.\<close>

definition setup_result :: "hist \<Rightarrow> (int \<times> isp_core \<times> isp_ctx \<times> hist) option \<Rightarrow> bool" where
  "setup_result h x \<longleftrightarrow>
     (case x of None \<Rightarrow> False
      | Some (r, core, ctx, h') \<Rightarrow>
          adds fits h h' \<and> (\<not> r < 0 \<longrightarrow> 0 \<le> mem_fd ctx \<and> (\<forall>f. live h' f - held_fd (mem_fd ctx) f = live h f)))"

definition isp_setup_rest ::
  "string \<Rightarrow> string \<Rightarrow> string \<Rightarrow> kernel \<Rightarrow> isp_core \<Rightarrow> isp_ctx \<Rightarrow> int \<Rightarrow> int \<Rightarrow> u32 \<Rightarrow> u32 \<Rightarrow> hist
     \<Rightarrow> (int \<times> isp_core \<times> isp_ctx \<times> hist) option" where
  "isp_setup_rest s1 s2 s3 k core ctx ifd vfd w hh h1 =
     (let core = isp_core_set_fds ifd vfd core;
          (r, core, h) = isp_core_alloc_buf_addr k w hh core h1
      in if r \<noteq> 0 then Some (- 1, core, ctx, sys_h k (Print s1) h)
         else
           (case isp_hw_init k ctx w hh (sys_h k (Print s2) h) of None \<Rightarrow> None
            | Some (r, ctx, h) \<Rightarrow>
                if r < 0 then Some (- 1, core, ctx, sys_h k (Print s3) h)
                else Some (0, core, ctx, sys_h k (Ioctl ifd 0x6910 (Arg_words [0])) (isp_start_processing k ctx h))))"

lemma setup_result_fail: "adds driver_call h h1 \<Longrightarrow> setup_result h (Some (- 1, c, x, h1))"
  by (simp add: setup_result_def driver_fits)

lemma isp_setup_rest_result:
  assumes dc: "adds driver_call h h1" and sz: "64 \<le> unat w" "unat w \<le> 8192" "64 \<le> unat hh" "unat hh \<le> 8192"
  shows "setup_result h (isp_setup_rest s1 s2 s3 k core ctx ifd vfd w hh h1)"
proof -
  let ?core = "isp_core_set_fds ifd vfd core"
  obtain r1 c1 h2 where al: "isp_core_alloc_buf_addr k w hh ?core h1 = (r1, c1, h2)" by (metis prod_cases3)
  have a2: "adds fits h h2"
    using adds_trans [OF driver_fits [OF dc]] lgf.T_alloc_buf_addr [of h1 k w hh ?core] by (simp add: al)
  have q2: "quiet h h2"
    using quiet_trans [OF driver_quiet [OF dc]] lgq.T_alloc_buf_addr [of h1 k w hh ?core] by (simp add: al)
  define h3 where "h3 = sys_h k (Print s2) h2"
  have a3: "adds fits h h3" "quiet h h3" using a2 q2 by (simp_all add: h3_def quiet_def)
  show ?thesis
  proof (cases "r1 = 0")
    case False
    then show ?thesis
      using a2 by (simp add: isp_setup_rest_def al setup_result_def)
  next
    case True
    obtain r4 c4 h4 where p: "isp_hw_init k ctx w hh h3 = Some (r4, c4, h4)" using isp_hw_init_returns [OF sz] by blast
    note hf = isp_hw_init_facts [OF p]
    have a4: "adds fits h h4" using hf a3 by (blast intro: adds_trans)
    define h5 where "h5 = isp_start_processing k c4 h4"
    have d: "adds driver_call h4 h5"
      unfolding h5_def isp_start_processing_def isp_pkg_enable_def by (intro adds_modify adds_poke_all) simp
    have a5: "adds fits h h5" using a4 driver_fits [OF d] by (rule adds_trans)
    have l5: "live h5 f = live h4 f" "live h3 f = live h f" for f using driver_quiet [OF d] a3 by (simp_all add: quiet_def)
    have eq: "isp_setup_rest s1 s2 s3 k core ctx ifd vfd w hh h1 =
        (if r4 < 0 then Some (- 1, c1, c4, sys_h k (Print s3) h4)
         else Some (0, c1, c4, sys_h k (Ioctl ifd 0x6910 (Arg_words [0])) h5))"
      using True by (simp add: isp_setup_rest_def al p flip: h3_def h5_def)
    show ?thesis using hf a4 a5 l5 by (simp add: eq setup_result_def)
  qed
qed

lemma isp_setup_result:
  assumes "64 \<le> unat w" "unat w \<le> 8192" "64 \<le> unat hh" "unat hh \<le> 8192"
  shows "setup_result h (isp_setup k core ctx ifd vfd w hh h)"
  unfolding isp_setup_def isp_setup_rest_def [symmetric]
  unfolding Let_def
  by (intro ad.walk [where R = "setup_result h"] isp_setup_rest_result setup_result_fail)
    (use assms in simp_all, rule adds_snoc, assumption, simp)

section \<open>The sensor and the server\<close>

lemma fits_sensor_codes [simp]:
  "fits (Ioctl fd I2C_TENBIT a)" "fits (Ioctl fd I2C_SLAVE a)" "fits (Ioctl fd I2C_RDWR a)"
  "fits (Ioctl fd MIPI_IOCTL_WRAP_INIT a) \<longleftrightarrow> 6 \<le> arg_size a" "fits (Ioctl fd MIPI_IOCTL_CTRL_INIT a) \<longleftrightarrow> 3 \<le> arg_size a"
  by (auto simp: fits_def ioc_size_def request_codes I2C_TENBIT_def I2C_SLAVE_def I2C_RDWR_def
      MIPI_IOCTL_WRAP_INIT_def MIPI_IOCTL_CTRL_INIT_def)

text \<open>The sensor driver keeps its descriptor in its state; register accesses are driver calls.\<close>

definition cv_step :: "cv2003 \<Rightarrow> hist \<Rightarrow> cv2003 \<Rightarrow> hist \<Rightarrow> bool" where
  "cv_step st h st' h' \<longleftrightarrow> adds fits h h' \<and>
     (\<forall>f. live h' f - held_fd (g_i2c_fd st') f = live h f - held_fd (g_i2c_fd st) f)"

lemma cv_step_trans: "cv_step st h st1 h1 \<Longrightarrow> cv_step st1 h1 st2 h2 \<Longrightarrow> cv_step st h st2 h2"
  by (auto simp: cv_step_def intro: adds_trans)

lemma cv_step_driver: "adds driver_call h h' \<Longrightarrow> g_i2c_fd st' = g_i2c_fd st \<Longrightarrow> cv_step st h st' h'"
  using driver_quiet [of h h'] by (simp add: cv_step_def driver_fits quiet_def)

lemma sns_adds:
  "adds driver_call h (sns_write k st reg val h)" "adds driver_call h (snd (sns_read k st reg h))"
  unfolding sns_write_def sns_read_def Let_def
  by ((intro ad.walk1 ad.walk2; simp)+)

lemma adds_sns_write: "adds driver_call h0 h \<Longrightarrow> adds driver_call h0 (sns_write k st reg val h)"
  by (rule adds_trans [OF _ sns_adds(1)])

lemma write_table_adds: "adds driver_call h0 h \<Longrightarrow> adds driver_call h0 (write_table k st t h)"
  by (induction k st t h rule: write_table.induct) (simp_all add: adds_sns_write)

lemma set_intt_adds: "adds driver_call h0 h \<Longrightarrow> adds driver_call h0 (set_intt k st i h)"
  unfolding set_intt_def Let_def by (intro adds_sns_write)

lemma set_gain_adds: "adds driver_call h0 h \<Longrightarrow> adds driver_call h0 (set_gain k st g h)"
  unfolding set_gain_def Let_def by (simp add: adds_sns_write)

lemma device_init_step:
  "sensor_device_init k a st h = (r, st', h') \<Longrightarrow> g_i2c_fd st < 0 \<Longrightarrow> cv_step st h st' h'"
  by (auto simp: sensor_device_init_def sys_def os_simps cv_step_def Let_def held_fd_def split: if_splits)

lemma device_close_step:
  "sensor_device_close k st h = (st', h') \<Longrightarrow> cv_step st h st' h' \<and> g_i2c_fd st' = - 1 \<and> g_i2c_addr st' = g_i2c_addr st"
  by (auto simp: sensor_device_close_def cv_step_def held_fd_def split: if_splits)

lemma probe_loop_step:
  "probe_loop k as st h = (a, st', h') \<Longrightarrow> g_i2c_fd st < 0 \<Longrightarrow> cv_step st h st' h' \<and> g_i2c_fd st' < 0"
proof (induction as arbitrary: st h)
  case Nil
  then show ?case by (simp add: cv_step_def)
next
  case (Cons b as)
  obtain r st1 h1 where 1: "sensor_device_init k (drop_bit 1 b) st h = (r, st1, h1)" by (metis prod_cases3)
  obtain p1 h2 where 2: "sns_read k st1 0x307a h1 = (p1, h2)" by force
  obtain p2 h3 where 3: "sns_read k st1 0x3138 h2 = (p2, h3)" by force
  define h4 where "h4 = sys_h k (Print (''addr=0x'' @ hex (unat b) @ '',pid1='' @ hex (unat p1) @ '',pid2='' @ hex (unat p2) @ [LF])) h3"
  obtain st5 h5 where 5: "sensor_device_close k st1 h4 = (st5, h5)" by force
  have "adds driver_call h1 h4"
    using sns_adds(2) [of h1 k st1 "0x307a"] sns_adds(2) [of h2 k st1 "0x3138"]
    by (simp add: 2 3 h4_def del: append.simps) (rule adds_snoc, erule (1) adds_trans, simp)
  then have 4: "cv_step st1 h1 st1 h4" by (rule cv_step_driver) simp
  have s5: "cv_step st h st5 h5" "g_i2c_fd st5 < 0"
    using cv_step_trans [OF cv_step_trans [OF device_init_step [OF 1 Cons.prems(2)] 4]] device_close_step [OF 5] by auto
  have eq: "probe_loop k (b # as) st h = (if is_cv2003 p1 p2 then (drop_bit 1 b, st5, h5) else probe_loop k as st5 h5)"
    by (simp only: probe_loop.simps Let_def 1 2 3 prod.case 5 flip: h4_def)
  note p = Cons.prems(1) [unfolded eq]
  show ?case
  proof (cases "is_cv2003 p1 p2")
    case True
    with p s5 show ?thesis by simp
  next
    case False
    with p have "probe_loop k as st5 h5 = (a, st', h')" by simp
    from Cons.IH [OF this s5(2)] s5(1) show ?thesis by (blast intro: cv_step_trans)
  qed
qed

lemma cv2003_init_step: "cv2003_init k st h = (r, st', h') \<Longrightarrow> g_i2c_fd st < 0 \<Longrightarrow> cv_step st h st' h'"
proof -
  assume i: "cv2003_init k st h = (r, st', h')" and fd: "g_i2c_fd st < 0"
  obtain a st1 h1 where 1: "probe_loop k PROBE_ADDRS_8BIT st h = (a, st1, h1)" by (metis prod_cases3)
  with i have "sensor_device_init k a st1 h1 = (r, st', h')" by (simp add: cv2003_init_def probe_addr_def)
  with probe_loop_step [OF 1 fd] show ?thesis by (blast intro: cv_step_trans device_init_step)
qed

lemma mipi_init_step: "mipi_init k h = (r, h') \<Longrightarrow> cv_step st h st h'"
  by (auto simp: mipi_init_def sys_def os_simps cv_step_def Let_def split: if_splits)

lemma cv2003_set_format_step: "cv2003_set_format k st h = (r, st', h') \<Longrightarrow> cv_step st h st' h'"
proof -
  assume sf: "cv2003_set_format k st h = (r, st', h')"
  obtain st1 h1 where 1: "sensor_device_close k st h = (st1, h1)" by force
  obtain r2 st2 h2 where 2: "sensor_device_init k (g_i2c_addr st1) st1 h1 = (r2, st2, h2)" by (metis prod_cases3)
  obtain m h3 where 3: "mipi_init k h2 = (m, h3)" by force
  have s2: "cv_step st h st2 h2" using device_close_step [OF 1] device_init_step [OF 2] by (auto intro: cv_step_trans)
  have s3: "cv_step st h st2 h3" using s2 mipi_init_step [OF 3] by (rule cv_step_trans)
  define h4 where "h4 = sns_write k st2 0x3141 0x01 (sys_h k (Usleep 10000) (write_table k st2 SENSOR_CFG_1080P25 h3))"
  have a4: "adds driver_call h3 h4" unfolding h4_def by (intro adds_sns_write adds_snoc write_table_adds) simp_all
  obtain v1 h5 where 5: "sns_read k st2 0x3021 h4 = (v1, h5)" by force
  obtain v2 h6 where 6: "sns_read k st2 0x3020 h5 = (v2, h6)" by force
  have a6: "adds driver_call h3 h6"
    using sns_adds(2) [of h4 k st2 "0x3021"] sns_adds(2) [of h5 k st2 "0x3020"] a4 by (auto simp: 5 6 intro: adds_trans)
  define st7 where "st7 = st2\<lparr>cv2003.g_v_cycle := push_bit 8 (ucast v1) OR ucast v2\<rparr>"
  define h7 where "h7 = set_gain k st7 0x40 (set_intt k st7 (cv2003.g_v_cycle st7 div 2 - 5) h6)"
  have "adds driver_call h3 h7" unfolding h7_def by (intro set_gain_adds set_intt_adds a6)
  then have s7: "cv_step st h st7 h7" using cv_step_driver [of h3 h7 st7 st2] s3 by (simp add: st7_def cv_step_trans)
  have "(r, st', h') = (if r2 < 0 then (- 1, st2, h2) else if m < 0 then (- 1, st2, h3) else (0, st7, h7))"
    unfolding sf [symmetric] cv2003_set_format_def Let_def 1 2 3 5 6 prod.case h4_def [symmetric] st7_def [symmetric] h7_def [symmetric] ..
  with s2 s3 s7 show ?thesis by (auto split: if_splits)
qed

lemma rtsp_server_init_fits: "adds fits h (snd (snd (rtsp_server_init k port h)))"
  by (rule rtsp_server_init_adds) simp_all

section \<open>Bringing the camera up\<close>

lemma proc_config_facts: "adds fits h (apply_proc_config k h) \<and> quiet h (apply_proc_config k h)"
proof -
  have w: "adds fits h (write_proc_config k p v h) \<and> quiet h (write_proc_config k p v h)" for p v h
    by (auto simp: write_proc_config_def sys_def os_simps quiet_def)
  have "adds fits h (fold (\<lambda>(p, v) h. write_proc_config k p v h) ps h) \<and> quiet h (fold (\<lambda>(p, v) h. write_proc_config k p v h) ps h)" for ps
  proof (induction ps arbitrary: h)
    case (Cons x ps)
    obtain p v where x: "x = (p, v)" by force
    show ?case using w [of h p v] Cons.IH [of "write_proc_config k p v h"] by (auto simp: x intro: adds_trans quiet_trans)
  qed simp
  then show ?thesis by (simp add: apply_proc_config_def)
qed

lemma start_up_facts: "adds fits h (start_up k h) \<and> quiet h (start_up k h)"
proof -
  have q: "quiet h0 h \<Longrightarrow> quiet h0 (sys_h k (Signal n s) h)" "quiet h0 h \<Longrightarrow> quiet h0 (print_line k s h)"
    "adds fits h0 h \<Longrightarrow> adds fits h0 (print_line k s h)" for h0 h n s
    by (simp_all add: quiet_def print_line_def)
  show ?thesis
    unfolding start_up_def Let_def
    by (intro conjI adds_trans [OF _ conjunct1 [OF proc_config_facts]] quiet_trans [OF _ conjunct2 [OF proc_config_facts]] q adds_snoc) simp_all
qed

text \<open>Configuring keeps the invariant, the clients and the listening socket.\<close>

definition same_server :: "rtsp_server \<Rightarrow> rtsp_server \<Rightarrow> bool" where
  "same_server s s' \<longleftrightarrow> (wf_server s \<longrightarrow> wf_server s') \<and> clients s' = clients s \<and> listen_fd s' = listen_fd s"

lemma same_server_trans: "same_server s s1 \<Longrightarrow> same_server s1 s2 \<Longrightarrow> same_server s s2"
  by (simp add: same_server_def)

lemma same_server_config:
  "same_server s (rtsp_server_enable_stream s i n)" "same_server s (rtsp_server_on_idr_request s cb)"
  "same_server s (rtsp_server_set_credentials s x y)" "same_server s (rtsp_server_use_shadow s z)"
proof -
  have t: "0 < n \<Longrightarrow> length (trunc n x) < n" for n x using length_trunc [of n x] by linarith
  show "same_server s (rtsp_server_enable_stream s i n)"
    by (simp add: same_server_def rtsp_server_enable_stream_def wf_server_def wf_config_def)
  show "same_server s (rtsp_server_on_idr_request s cb)"
    by (simp add: same_server_def rtsp_server_on_idr_request_def wf_server_def wf_config_def)
  show "same_server s (rtsp_server_set_credentials s x y)" "same_server s (rtsp_server_use_shadow s z)"
    by (simp_all add: same_server_def rtsp_server_set_credentials_def rtsp_server_use_shadow_def wf_server_def wf_config_def t)
qed

lemma same_server_streams: "same_server s (fold (\<lambda>d srv. rtsp_server_enable_stream srv (g d) n) ds s)"
proof (induction ds arbitrary: s)
  case (Cons d ds)
  show ?case using same_server_trans [OF same_server_config(1) Cons.IH] by simp
qed (simp add: same_server_def)

lemma configure_server_facts:
  assumes "configure_server k efd srv h = (srv', h')"
  shows "adds driver_call h h' \<and> same_server srv srv'"
proof -
  define s1 where "s1 = rtsp_server_on_idr_request
     (fold (\<lambda>d srv. rtsp_server_enable_stream srv (sint (d_chan d)) VENC_FPS) VPSS_CHANNELS srv) (Venc_request_idr efd)"
  have 1: "same_server srv s1" unfolding s1_def
    by (rule same_server_trans [OF same_server_streams same_server_config(2)])
  obtain u h1 where u: "sys k (Getenv ''MINI_STREAMER_RTSP_USER'') h = (u, h1)" by fastforce
  obtain p h2 where p: "sys k (Getenv ''MINI_STREAMER_RTSP_PASS'') h1 = (p, h2)" by fastforce
  have g: "adds driver_call h h2" using u p by (auto simp: sys_def driver_call_def)
  note def = assms [unfolded configure_server_def Let_def s1_def [symmetric] u p prod.case]
  have gen: "\<exists>m. h' = sys_h k (Print m) h2 \<and> (srv' = e \<or> (\<exists>x y. srv' = F x y))"
    if "(case a of None \<Rightarrow> (e, sys_h k (Print m2) h2)
         | Some x \<Rightarrow> case b of None \<Rightarrow> (e, sys_h k (Print m2) h2) | Some y \<Rightarrow> (F x y, sys_h k (Print (m1 x)) h2)) = (srv', h')"
    for a b :: "string option" and F e m1 m2
    using that by (auto split: option.splits)
  from gen [OF def] have "adds driver_call h h'" "same_server s1 srv'"
    using g by (auto intro: same_server_config)
  then show ?thesis using 1 g by (auto intro: same_server_trans)
qed

text \<open>The descriptors of a streamer that is up, and \<open>/dev/jpeg\<close>, which is opened and not kept.\<close>

definition held_streamer :: "streamer \<Rightarrow> int \<Rightarrow> int" where
  "held_streamer s f =
     held_fd (s_mp_fd s) f + held_fd (s_isp_fd s) f + held_fd (s_enc_fd s) f + held_fd (s_vmm_fd s) f +
     held_fd (g_i2c_fd (s_sensor s)) f + held_fd (mem_fd (s_ctx s)) f + held_fd (listen_fd (s_rtsp s)) f"

lemma print_line_fits: "adds fits h0 h \<Longrightarrow> adds fits h0 (print_line k s h)"
  by (simp add: print_line_def)

lemma print_line_live: "live (print_line k s h) f = live h f"
  by (simp add: print_line_def)

text \<open>What is claimed of the result of \<open>bring_up\<close> begun in a history.\<close>

definition up_result :: "hist \<Rightarrow> ((int + streamer) \<times> hist) option \<Rightarrow> bool" where
  "up_result h x \<longleftrightarrow>
     (\<exists>u h'. x = Some (u, h') \<and> adds fits h h' \<and> (\<forall>c. u = Inl c \<longrightarrow> c = 1) \<and>
       (\<forall>s. u = Inr s \<longrightarrow> wf_server (s_rtsp s) \<and> clients (s_rtsp s) = replicate RTSP_MAX_CLIENTS client_init \<and>
          0 \<le> s_mp_fd s \<and> 0 \<le> s_isp_fd s \<and> 0 \<le> s_enc_fd s \<and> 0 \<le> s_vmm_fd s \<and>
          (\<exists>r. (Open ''/dev/jpeg'' O_RDWR, r) \<in> set h' \<and> (\<forall>f. live h' f = live h f + held_streamer s f + held_fd (rv r) f))))"

lemma up_fail: "adds fits h h1 \<Longrightarrow> up_result h (Some (Inl 1, h1))"
  by (simp add: up_result_def)

lemma up_fail_line: "adds fits h h1 \<Longrightarrow> up_result h (Some (Inl 1, print_line k s h1))"
  by (rule up_fail) (rule print_line_fits)

lemma bring_up_result: "up_result h (bring_up k bitrate h)"
proof -
  define h1 where "h1 = start_up k h"
  define mp where "mp = k h1 (Open ''/dev/media_process'' O_RDWR)"
  define h2 where "h2 = h1 @ [(Open ''/dev/media_process'' O_RDWR, mp)]"
  define isp where "isp = k h2 (Open ''/dev/isp'' O_RDWR)"
  define h3 where "h3 = h2 @ [(Open ''/dev/isp'' O_RDWR, isp)]"
  define enc where "enc = k h3 (Open ''/dev/enc'' O_RDWR)"
  define h4 where "h4 = h3 @ [(Open ''/dev/enc'' O_RDWR, enc)]"
  define jpeg where "jpeg = k h4 (Open ''/dev/jpeg'' O_RDWR)"
  define h5 where "h5 = h4 @ [(Open ''/dev/jpeg'' O_RDWR, jpeg)]"
  define vmm where "vmm = k h5 (Open ''/dev/vmm_userdev'' O_RDWR)"
  define h6 where "h6 = h5 @ [(Open ''/dev/vmm_userdev'' O_RDWR, vmm)]"
  have o: "sys k (Open ''/dev/media_process'' O_RDWR) h1 = (mp, h2)" "sys k (Open ''/dev/isp'' O_RDWR) h2 = (isp, h3)"
    "sys k (Open ''/dev/enc'' O_RDWR) h3 = (enc, h4)" "sys k (Open ''/dev/jpeg'' O_RDWR) h4 = (jpeg, h5)"
    "sys k (Open ''/dev/vmm_userdev'' O_RDWR) h5 = (vmm, h6)"
    unfolding sys_def mp_def h2_def isp_def h3_def enc_def h4_def jpeg_def h5_def vmm_def h6_def by (rule refl)+
  have "h6 = h1 @ [(Open ''/dev/media_process'' O_RDWR, mp), (Open ''/dev/isp'' O_RDWR, isp), (Open ''/dev/enc'' O_RDWR, enc),
      (Open ''/dev/jpeg'' O_RDWR, jpeg), (Open ''/dev/vmm_userdev'' O_RDWR, vmm)]"
    unfolding h6_def h5_def h4_def h3_def h2_def append_assoc append.simps by (rule refl)
  then have a6: "adds fits h h6" and jp: "(Open ''/dev/jpeg'' O_RDWR, jpeg) \<in> set h6"
    and l6: "live h6 f = live h f + held_fd (rv mp) f + held_fd (rv isp) f + held_fd (rv enc) f + held_fd (rv jpeg) f + held_fd (rv vmm) f" for f
    using start_up_facts [of h k] adds_trans [of fits h h1 h6] by (simp_all add: quiet_def held_fd_def flip: h1_def)
  obtain r7 cv7 h7 where 7: "cv2003_init k cv2003_0 h6 = (r7, cv7, h7)" by (metis prod_cases3)
  obtain r8 cv8 h8 where 8: "cv2003_set_format k cv7 h7 = (r8, cv8, h8)" by (metis prod_cases3)
  have "cv_step cv2003_0 h6 cv7 h7" by (rule cv2003_init_step [OF 7]) (simp add: cv2003_0_def)
  then have s7: "adds fits h6 h7" "live h7 f - held_fd (g_i2c_fd cv7) f = live h6 f" for f
    by (simp_all add: cv_step_def cv2003_0_def)
  have s8: "adds fits h7 h8" "live h8 f - held_fd (g_i2c_fd cv8) f = live h6 f" for f
    using cv2003_set_format_step [OF 8] s7(2) by (simp_all add: cv_step_def)
  obtain r9 h9 where 9: "vpss_setup k (rv isp) (rv vmm) h8 = (r9, h9)" by force
  have a9: "adds driver_call h8 h9" using vpss_setup_adds [of h8 k "rv isp" "rv vmm"] by (simp add: 9)
  let ?ctx = "\<lparr>ctx_regs = 0, mem_fd = 0, ctx_width = 0, ctx_height = 0\<rparr>"
  have "setup_result h9 (isp_setup k isp_core0 ?ctx (rv isp) (rv vmm) 1920 1080 h9)"
    by (rule isp_setup_result) simp_all
  then obtain r10 core ctx h10 where 10: "isp_setup k isp_core0 ?ctx (rv isp) (rv vmm) 1920 1080 h9 = Some (r10, core, ctx, h10)"
    and a10: "adds fits h9 h10" and l10: "\<not> r10 < 0 \<Longrightarrow> live h10 f - held_fd (mem_fd ctx) f = live h9 f" for f
    by (auto simp: setup_result_def split: option.splits)
  obtain r11 h11 where 11: "venc_sys_init k (rv enc) (rv vmm) h10 = (r11, h11)" by force
  have a11: "adds driver_call h10 h11" using venc_sys_init_adds [of h10 k "rv enc" "rv vmm"] by (simp add: 11)
  obtain r12 h12 where 12: "start_encoders k bitrate (rv mp) (rv enc) (rv vmm) VPSS_CHANNELS h11 = (r12, h12)" by force
  have a12: "adds driver_call h11 h12" using start_encoders_adds [of h11 k bitrate "rv mp" "rv enc" "rv vmm" VPSS_CHANNELS] by (simp add: 12)
  obtain r13 srv h13 where 13: "rtsp_server_init k 554 h12 = (r13, srv, h13)" by (metis prod_cases3)
  have a13: "adds fits h12 h13" using rtsp_server_init_fits [of h12 k 554] by (simp add: 13)
  obtain srv' h14 where 14: "configure_server k (rv enc) srv h13 = (srv', h14)" by force
  note a14 = configure_server_facts [OF 14]
  have ch: "adds fits h h7" "adds fits h h8" "adds fits h h9" "adds fits h h10" "adds fits h h11" "adds fits h h12" "adds fits h h13"
    "adds fits h h14"
    using a6 s7(1) s8(1) driver_fits [OF a9] a10 driver_fits [OF a11] driver_fits [OF a12] a13 driver_fits [OF conjunct1 [OF a14]]
    by (meson adds_trans)+
  define fin where "fin m1 m2 = print_line k m2 (print_line k m1 h14)" for m1 m2
  have ok: "up_result h (Some (Inr \<lparr>s_mp_fd = rv mp, s_isp_fd = rv isp, s_enc_fd = rv enc, s_vmm_fd = rv vmm, s_sensor = cv8,
       s_core = core, s_ctx = ctx, s_rtsp = srv'\<rparr>, fin m1 m2))" if op: "\<not> (rv mp < 0 \<or> rv isp < 0 \<or> rv enc < 0 \<or> rv vmm < 0)" and r: "\<not> r10 < 0" "\<not> r13 < 0" for m1 m2
  proof -
    have "r13 = 0" using r(2) 13 by (auto simp: rtsp_server_init_def Let_def split: prod.splits if_splits)
    note si = rtsp_server_init_facts [OF 13 [unfolded this]]
    have "live (fin m1 m2) f = live h f + held_streamer \<lparr>s_mp_fd = rv mp, s_isp_fd = rv isp, s_enc_fd = rv enc, s_vmm_fd = rv vmm,
        s_sensor = cv8, s_core = core, s_ctx = ctx, s_rtsp = srv'\<rparr> f + held_fd (rv jpeg) f" for f
      using l6 [of f] s8(2) [of f] driver_quiet [OF a9] l10 [OF r(1), of f] driver_quiet [OF a11] driver_quiet [OF a12] si
        driver_quiet [OF conjunct1 [OF a14]] conjunct2 [OF a14]
      by (simp add: fin_def print_line_live quiet_def held_streamer_def same_server_def)
    moreover have "adds fits h6 (fin m1 m2)" unfolding fin_def
      using s7(1) s8(1) driver_fits [OF a9] a10 driver_fits [OF a11] driver_fits [OF a12] a13 driver_fits [OF conjunct1 [OF a14]]
      by (intro print_line_fits) (meson adds_trans)
    then have "(Open ''/dev/jpeg'' O_RDWR, jpeg) \<in> set (fin m1 m2)" using jp by (auto simp: adds_def)
    moreover have "adds fits h (fin m1 m2)" unfolding fin_def by (intro print_line_fits ch)
    ultimately show ?thesis using si conjunct2 [OF a14] op by (auto simp: up_result_def same_server_def not_less)
  qed
  show ?thesis
    unfolding bring_up_def Let_def h1_def [symmetric] o prod.case 7 8 9 10 Option.bind.bind_lunit 11 12 13 14 fin_def [symmetric]
    by (intro ad.walk_if [where R = "up_result h"] up_fail_line up_fail ch ok a6)
qed

end
