(* ===== verification/Streamer_Run.thy ===== *)
theory Streamer_Run
  imports Streamer_Props Rtsp_Footprint
begin

text \<open>
  The streamer at work: what one frame does, the loop, and the whole program from its first call to its
  last, with the kernel, the drivers, the clients and the signals as parameters.
\<close>

section \<open>Mappings\<close>

text \<open>How often a range is mapped at an address, on balance.\<close>

fun maps :: "syscall \<Rightarrow> reply \<Rightarrow> int \<times> u32 \<Rightarrow> int" where
  "maps (Mmap fd n off) r a = of_bool (rv r \<noteq> MAP_FAILED \<and> a = (rv r, n))"
| "maps (Munmap b n) r a = - of_bool (a = (b, n))"
| "maps _ r a = 0"

definition mapped :: "hist \<Rightarrow> int \<times> u32 \<Rightarrow> int" where
  "mapped h a = (\<Sum>(c, r) \<leftarrow> h. maps c r a)"

lemma mapped_append [simp]: "mapped (h @ h') a = mapped h a + mapped h' a"
  by (simp add: mapped_def)

lemma mapped_Cons [simp]: "mapped (p # h) a = maps (fst p) (snd p) a + mapped h a"
  by (simp add: mapped_def case_prod_beta)

lemma mapped_Nil [simp]: "mapped [] a = 0"
  by (simp add: mapped_def)

lemma foot_mapped: "foot h h' \<Longrightarrow> mapped h' = mapped h"
proof -
  assume "foot h h'"
  then obtain cs where cs: "h' = h @ cs" "list_all (\<lambda>p. client_call (fst p)) cs" by (auto simp: adds_def)
  have "client_call c \<Longrightarrow> maps c r a = 0" for c r a by (cases c) (simp_all add: client_call_def server_call_def)
  then have "mapped cs a = 0" for a using cs(2) by (induction cs) auto
  then show ?thesis by (intro ext) (simp add: cs(1))
qed

text \<open>The mappings asked for, in their order.\<close>

definition is_mmap :: "syscall \<Rightarrow> bool" where
  "is_mmap c \<longleftrightarrow> (case c of Mmap fd n off \<Rightarrow> True | _ \<Rightarrow> False)"

definition mmaps :: "hist \<Rightarrow> syscall list" where
  "mmaps h = filter is_mmap (calls h)"

lemma mmaps_append [simp]: "mmaps (h @ h') = mmaps h @ mmaps h'"
  by (simp add: mmaps_def)

lemma mmaps_Cons [simp]: "mmaps (p # h) = (if is_mmap (fst p) then [fst p] else []) @ mmaps h"
  by (simp add: mmaps_def)

lemma mmaps_Nil [simp]: "mmaps [] = []"
  by (simp add: mmaps_def)

lemma is_mmap_simps [simp]:
  "is_mmap (Mmap fd n off)" "\<not> is_mmap (Munmap b n)" "\<not> is_mmap (Fetch b o1 l)" "\<not> is_mmap (Write fd d)"
  by (simp_all add: is_mmap_def)

lemma foot_mmaps: "foot h h' \<Longrightarrow> mmaps h' = mmaps h"
proof -
  assume "foot h h'"
  then obtain cs where cs: "h' = h @ cs" "list_all (\<lambda>p. client_call (fst p)) cs" by (auto simp: adds_def)
  have "client_call c \<Longrightarrow> \<not> is_mmap c" for c by (cases c) (simp_all add: client_call_def server_call_def is_mmap_def)
  then have "mmaps cs = []" using cs(2) by (induction cs) auto
  then show ?thesis by (simp add: cs(1))
qed

section \<open>One frame\<close>

text \<open>The calls made between taking a stream and releasing it.\<close>

definition frame_call :: "int \<Rightarrow> syscall \<Rightarrow> bool" where
  "frame_call memfd c \<longleftrightarrow> client_call c \<or>
     (case c of Mmap fd n off \<Rightarrow> fd = memfd | Munmap b n \<Rightarrow> True | Fetch b off n \<Rightarrow> True | Write fd d \<Rightarrow> fd = 1 | _ \<Rightarrow> False)"

lemma frame_call_simps [simp]:
  "client_call c \<Longrightarrow> frame_call m c" "frame_call m (Mmap m n off)" "frame_call m (Munmap b n)" "frame_call m (Fetch b o1 l)"
  "frame_call m (Write 1 d)"
  by (simp_all add: frame_call_def)

lemma foot_frame: "foot h h' \<Longrightarrow> adds (frame_call m) h h'"
  by (erule adds_mono) simp

text \<open>What a step of a frame keeps: the server's invariant and books, and the mappings.\<close>

definition frame_step :: "int \<Rightarrow> rtsp_server \<Rightarrow> hist \<Rightarrow> rtsp_server \<Rightarrow> hist \<Rightarrow> bool" where
  "frame_step m srv h srv' h' \<longleftrightarrow>
     server_step srv h srv' h' \<and> adds (frame_call m) h h' \<and> mapped h' = mapped h"

lemma frame_step_refl: "wf_server srv \<Longrightarrow> frame_step m srv h srv h"
  by (simp add: frame_step_def server_step_refl)

lemma frame_step_trans: "frame_step m s h s1 h1 \<Longrightarrow> frame_step m s1 h1 s2 h2 \<Longrightarrow> frame_step m s h s2 h2"
  by (auto simp: frame_step_def intro: server_step_trans adds_trans)

lemma frame_step_wf: "frame_step m s h s1 h1 \<Longrightarrow> wf_server s1"
  by (simp add: frame_step_def server_step_def)

text \<open>A unit of a stream that exists and is mapped: the calls around the server.\<close>

definition nalu_phys :: "u32 list \<Rightarrow> nat \<Rightarrow> u32" where
  "nalu_phys st i = st ! (VENC_STREAM_NALU_WORD + i * 4 + 1)"

definition nalu_len :: "u32 list \<Rightarrow> nat \<Rightarrow> u32" where
  "nalu_len st i = st ! (VENC_STREAM_NALU_WORD + i * 4 + 3)"

text \<open>Its offset in its page, the page, and the length that is mapped, as the code computes them.\<close>

definition nalu_off :: "u32 list \<Rightarrow> nat \<Rightarrow> u32" where
  "nalu_off st i = nalu_phys st i AND 0xFFF"

definition nalu_page :: "u32 list \<Rightarrow> nat \<Rightarrow> u32" where
  "nalu_page st i = nalu_phys st i AND NOT 0xFFF"

definition nalu_size :: "u32 list \<Rightarrow> nat \<Rightarrow> u32" where
  "nalu_size st i = nalu_len st i + nalu_off st i"

definition nalu_fits :: "u32 list \<Rightarrow> nat \<Rightarrow> bool" where
  "nalu_fits st i \<longleftrightarrow> unat (nalu_off st i) + unat (nalu_len st i) < 2 ^ 32"

lemma nalu_no_wrap: "nalu_fits st i \<Longrightarrow> \<not> unat (nalu_size st i) < unat (nalu_off st i) + unat (nalu_len st i)"
  by (simp add: nalu_fits_def nalu_size_def unat_word_ariths)

text \<open>Mapping a unit, and what happens before the server is called for it.\<close>

definition nalu_map :: "kernel \<Rightarrow> int \<Rightarrow> u32 list \<Rightarrow> nat \<Rightarrow> hist \<Rightarrow> int \<times> hist" where
  "nalu_map k memfd st i h =
     (let c = Mmap memfd (nalu_size st i) (nalu_page st i) in (rv (k h c), h @ [(c, k h c)]))"

definition nalu_before :: "kernel \<Rightarrow> int \<Rightarrow> u32 list \<Rightarrow> u32 \<Rightarrow> nat \<Rightarrow> hist \<Rightarrow> u8 list \<times> hist" where
  "nalu_before k b st chan i h =
     (let (r, h) = sys k (Fetch b (unat (nalu_off st i)) (unat (nalu_len st i))) h;
          bytes = overlay (rbytes r) (replicate (unat (nalu_len st i)) 0)
      in (bytes, if chan = 0 then sys_h k (Write 1 bytes) h else h))"

text \<open>The mappings of the units that are not empty, in the order of the units.\<close>

definition unit_mmaps :: "int \<Rightarrow> u32 list \<Rightarrow> nat list \<Rightarrow> syscall list" where
  "unit_mmaps memfd st is = map (\<lambda>i. Mmap memfd (nalu_size st i) (nalu_page st i)) (filter (\<lambda>i. nalu_len st i \<noteq> 0) is)"

lemma unit_mmaps_simps [simp]:
  "unit_mmaps memfd st [] = []"
  "unit_mmaps memfd st (i # is) =
     (if nalu_len st i = 0 then [] else [Mmap memfd (nalu_size st i) (nalu_page st i)]) @ unit_mmaps memfd st is"
  by (simp_all add: unit_mmaps_def)

lemma push_nalu_cases:
  "push_nalu k memfd st chan pts n i srv h =
     (if nalu_len st i = 0 then Some (srv, h)
      else case nalu_map k memfd st i h of (b, h1) \<Rightarrow>
        if b = MAP_FAILED then Some (srv, h1)
        else if unat (nalu_size st i) < unat (nalu_off st i) + unat (nalu_len st i) then None
        else case nalu_before k b st chan i h1 of (bytes, h2) \<Rightarrow>
          rtsp_server_push_nal k srv (sint chan) (strip_start_code bytes) pts (i + 1 = n) h2 \<bind>
            (\<lambda>(srv, h). Some (srv, sys_h k (Munmap b (nalu_size st i)) h)))"
  unfolding push_nalu_def nalu_before_def nalu_map_def nalu_size_def nalu_off_def nalu_page_def nalu_phys_def nalu_len_def
  by (simp add: sys_def sys_h_def Let_def)

lemma nalu_map_facts:
  assumes "nalu_map k memfd st i h = (b, h1)"
  shows "adds (frame_call memfd) h h1 \<and> (\<forall>f. live h1 f = live h f) \<and>
     mapped h1 = (\<lambda>a. mapped h a + of_bool (b \<noteq> MAP_FAILED \<and> a = (b, nalu_size st i))) \<and>
     mmaps h1 = mmaps h @ [Mmap memfd (nalu_size st i) (nalu_page st i)]"
  using assms by (auto simp: nalu_map_def Let_def fun_eq_iff)

lemma nalu_before_facts:
  assumes "nalu_before k b st chan i h = (bytes, h1)"
  shows "adds (frame_call memfd) h h1 \<and> (\<forall>f. live h1 f = live h f) \<and> mapped h1 = mapped h \<and> mmaps h1 = mmaps h"
  using assms by (auto simp: nalu_before_def sys_def sys_h_def Let_def fun_eq_iff split: if_splits)

lemma push_nalu_step:
  assumes "push_nalu k memfd st chan pts n i srv h = Some (srv', h')" and wf: "wf_server srv"
  shows "frame_step memfd srv h srv' h' \<and> mmaps h' = mmaps h @ unit_mmaps memfd st [i]"
proof -
  obtain b h1 where m: "nalu_map k memfd st i h = (b, h1)" by force
  obtain bytes h2 where nb: "nalu_before k b st chan i h1 = (bytes, h2)" by force
  note mf = nalu_map_facts [OF m] and bf = nalu_before_facts [OF nb, of memfd]
  from assms(1) consider (skip) "nalu_len st i = 0" "srv' = srv" "h' = h"
    | (refused) "nalu_len st i \<noteq> 0" "srv' = srv" "h' = h1" "b = MAP_FAILED"
    | (pushed) h3 where "nalu_len st i \<noteq> 0" "b \<noteq> MAP_FAILED" "h' = sys_h k (Munmap b (nalu_size st i)) h3"
        "rtsp_server_push_nal k srv (sint chan) (strip_start_code bytes) pts (i + 1 = n) h2 = Some (srv', h3)"
    unfolding push_nalu_cases m nb prod.case by (auto simp: bind_eq_Some_conv split: if_splits)
  then show ?thesis
  proof cases
    case skip
    with wf show ?thesis by (simp add: frame_step_refl)
  next
    case refused
    then show ?thesis using wf mf by (simp add: frame_step_def server_step_def fun_eq_iff)
  next
    case pushed
    note st = rtsp_server_push_step [OF pushed(4) wf] and ft = rtsp_server_push_foot [OF pushed(4)]
    have "adds (frame_call memfd) h h3"
      using mf bf foot_frame [OF ft, of memfd] by (blast intro: adds_trans)
    then have "adds (frame_call memfd) h h'" by (simp add: pushed(3))
    moreover have "server_step srv h srv' h'" using st mf bf by (simp add: server_step_def pushed(3))
    moreover have "mapped h' = mapped h"
      using mf bf pushed(2) foot_mapped [OF ft] by (simp add: pushed(3) sys_h_def sys_def fun_eq_iff)
    moreover have "mmaps h' = mmaps h @ unit_mmaps memfd st [i]"
      using mf bf pushed(1) foot_mmaps [OF ft] by (simp add: pushed(3) sys_h_def sys_def)
    ultimately show ?thesis by (simp add: frame_step_def)
  qed
qed

lemma push_nalu_ok:
  assumes "peer_ok k" and "nalu_fits st i"
  shows "\<exists>srv' h'. push_nalu k memfd st chan pts n i srv h = Some (srv', h')"
proof -
  obtain b h1 where m: "nalu_map k memfd st i h = (b, h1)" by force
  obtain bytes h2 where nb: "nalu_before k b st chan i h1 = (bytes, h2)" by force
  obtain srv2 h3 where "rtsp_server_push_nal k srv (sint chan) (strip_start_code bytes) pts (i + 1 = n) h2 = Some (srv2, h3)"
    using rtsp_server_push_ok [OF assms(1)] by blast
  then show ?thesis using nalu_no_wrap [OF assms(2)] by (simp add: push_nalu_cases m nb)
qed

lemma push_nalus_step:
  "push_nalus k memfd st chan pts n is srv h = Some (srv', h') \<Longrightarrow> wf_server srv \<Longrightarrow>
     frame_step memfd srv h srv' h' \<and> mmaps h' = mmaps h @ unit_mmaps memfd st is"
proof (induction "is" arbitrary: srv h)
  case (Cons i "is")
  then obtain s1 h1 where 1: "push_nalu k memfd st chan pts n i srv h = Some (s1, h1)"
    and 2: "push_nalus k memfd st chan pts n is s1 h1 = Some (srv', h')" by (auto simp: bind_eq_Some_conv)
  note st = push_nalu_step [OF 1 Cons.prems(2)]
  from Cons.IH [OF 2 frame_step_wf [OF conjunct1 [OF st]]] st show ?case by (auto intro: frame_step_trans)
qed (simp add: frame_step_refl)

lemma push_nalus_ok:
  "peer_ok k \<Longrightarrow> \<forall>i \<in> set is. nalu_fits st i \<Longrightarrow> \<exists>srv' h'. push_nalus k memfd st chan pts n is srv h = Some (srv', h')"
proof (induction "is" arbitrary: srv h)
  case (Cons i "is")
  obtain s1 h1 where "push_nalu k memfd st chan pts n i srv h = Some (s1, h1)"
    using push_nalu_ok [OF Cons.prems(1)] Cons.prems(2) by fastforce
  moreover obtain s2 h2 where "push_nalus k memfd st chan pts n is s1 h1 = Some (s2, h2)"
    using Cons.IH [OF Cons.prems(1)] Cons.prems(2) by fastforce
  ultimately show ?case by simp
qed simp

text \<open>The request for a stream, and the descriptor of the stream that comes back.\<close>

definition get_request :: "int \<Rightarrow> syscall" where
  "get_request mfd = Ioctl mfd ISP_IOCTL_VENC_GET_STREAM (Arg_words ((replicate VENC_STREAM_WORDS 0)[0 := VENC_STREAM_H264]))"

definition stream_of_reply :: "reply \<Rightarrow> u32 list" where
  "stream_of_reply r = overlay (rwords r) ((replicate VENC_STREAM_WORDS 0)[0 := VENC_STREAM_H264])"

definition has_stream :: "reply \<Rightarrow> bool" where
  "has_stream r \<longleftrightarrow> rv r = 0 \<and> stream_of_reply r ! 1 = VENC_STREAM_H264"

definition release_request :: "int \<Rightarrow> u32 \<Rightarrow> syscall" where
  "release_request efd chan = Ioctl efd ISP_IOCTL_VENC_RELEASE_STREAM (Arg_words [chan])"

definition stream_pts :: "u32 list \<Rightarrow> u64" where
  "stream_pts st = push_bit 32 (ucast (st ! 11)) OR ucast (st ! 10)"

definition push_stream :: "kernel \<Rightarrow> int \<Rightarrow> u32 list \<Rightarrow> rtsp_server \<Rightarrow> hist \<Rightarrow> (rtsp_server \<times> hist) option" where
  "push_stream k memfd st srv h = push_nalus k memfd st (st ! 3) (stream_pts st) (nalu_count st) [0..<nalu_count st] srv h"

lemma venc_get_stream_eq:
  "venc_get_stream k mfd efd memfd srv h =
     (let r = k h (get_request mfd); h1 = h @ [(get_request mfd, r)]; st = stream_of_reply r
      in if \<not> has_stream r then Some (False, srv, h1)
         else push_stream k memfd st srv h1 \<bind> (\<lambda>(srv, h). Some (True, srv, sys_h k (release_request efd (st ! 3)) h)))"
  by (simp add: venc_get_stream_def ioctl_words_eq get_request_def stream_of_reply_def has_stream_def release_request_def
      push_stream_def stream_pts_def Let_def)

definition frames_ok :: "kernel \<Rightarrow> bool" where
  "frames_ok k \<longleftrightarrow>
     (\<forall>h mfd. has_stream (k h (get_request mfd)) \<longrightarrow>
        (let st = stream_of_reply (k h (get_request mfd)) in \<forall>i < nalu_count st. nalu_fits st i))"

lemma get_request_release [simp]:
  "opens (get_request mfd) r f = 0" "maps (get_request mfd) r a = 0"
  "opens (release_request efd c) r f = 0" "maps (release_request efd c) r a = 0"
  by (simp_all add: get_request_def release_request_def)

lemma venc_get_stream_ok:
  assumes "peer_ok k" and "frames_ok k"
  shows "\<exists>got srv' h'. venc_get_stream k mfd efd memfd srv h = Some (got, srv', h')"
proof (cases "has_stream (k h (get_request mfd))")
  case True
  let ?st = "stream_of_reply (k h (get_request mfd))"
  have "\<forall>i \<in> set [0..<nalu_count ?st]. nalu_fits ?st i" using assms(2) True by (simp add: frames_ok_def Let_def)
  then obtain s1 h1 where "push_stream k memfd ?st srv (h @ [(get_request mfd, k h (get_request mfd))]) = Some (s1, h1)"
    using push_nalus_ok [OF assms(1)] unfolding push_stream_def by blast
  then show ?thesis using True by (simp add: venc_get_stream_eq Let_def) blast
qed (simp add: venc_get_stream_eq Let_def, blast)

text \<open>The calls for one frame: all of them when there is none, and those behind the request when there is.\<close>

definition frame_calls :: "int \<Rightarrow> int \<Rightarrow> u32 list \<Rightarrow> syscall list \<Rightarrow> bool" where
  "frame_calls efd memfd st cs \<longleftrightarrow>
     (\<exists>us. cs = us @ [release_request efd (st ! 3)] \<and> list_all (frame_call memfd) us \<and>
        filter is_mmap us = unit_mmaps memfd st [0..<nalu_count st])"

lemma venc_get_stream_step:
  assumes "venc_get_stream k mfd efd memfd srv h = Some (got, srv', h')" and "wf_server srv"
  shows "server_step srv h srv' h' \<and> mapped h' = mapped h \<and> got = has_stream (k h (get_request mfd)) \<and>
     (\<exists>xs. h' = h @ (get_request mfd, k h (get_request mfd)) # xs \<and>
        (if got then frame_calls efd memfd (stream_of_reply (k h (get_request mfd))) (calls xs) else srv' = srv \<and> xs = []))"
proof -
  define r where "r = k h (get_request mfd)"
  define h1 where "h1 = h @ [(get_request mfd, r)]"
  have h1: "live h1 f = live h f" "mapped h1 = mapped h" for f
    by (simp_all add: h1_def fun_eq_iff)
  note eq = assms(1) [unfolded venc_get_stream_eq Let_def, folded r_def, folded h1_def]
  show ?thesis
  proof (cases "has_stream r")
    case False
    with eq assms(2) h1 show ?thesis by (auto simp: server_step_def h1_def simp flip: r_def)
  next
    case True
    define st where "st = stream_of_reply r"
    from True eq obtain h2 where p: "push_stream k memfd st srv h1 = Some (srv', h2)"
      and h': "h' = sys_h k (release_request efd (st ! 3)) h2" "got = True"
      by (auto simp: bind_eq_Some_conv st_def)
    note stp = push_nalus_step [OF p [unfolded push_stream_def] assms(2)]
    then obtain us where us: "h2 = h1 @ us" "list_all (\<lambda>p. frame_call memfd (fst p)) us" "mmaps us = unit_mmaps memfd st [0..<nalu_count st]"
      by (auto simp: frame_step_def adds_def)
    define xs where "xs = us @ [(release_request efd (st ! 3), k h2 (release_request efd (st ! 3)))]"
    have "h' = h @ (get_request mfd, r) # xs" by (simp add: h' us(1) h1_def sys_h_def sys_def xs_def)
    moreover have "frame_calls efd memfd st (calls xs)"
      using us unfolding frame_calls_def xs_def by (auto simp: mmaps_def calls_def list_all_iff)
    moreover have "server_step srv h srv' h'" "mapped h' = mapped h"
      using stp h1 by (auto simp: frame_step_def server_step_def h' sys_h_def sys_def fun_eq_iff)
    ultimately show ?thesis using True h'(2) by (simp flip: r_def st_def)
  qed
qed

section \<open>The loop\<close>

text \<open>Looks at the signals so far; from the \<open>n\<close>-th on, one is found.\<close>

definition looks :: "hist \<Rightarrow> nat" where
  "looks h = length (filter (\<lambda>c. c = Pending_signal) (calls h))"

definition stops :: "kernel \<Rightarrow> nat \<Rightarrow> bool" where
  "stops k n \<longleftrightarrow> (\<forall>h. n \<le> looks h \<longrightarrow> rv (k h Pending_signal) \<noteq> 0)"

lemma looks_append [simp]: "looks (h @ h') = looks h + looks h'"
  by (simp add: looks_def)

text \<open>
  The loop as a trace. The calls that mark its rounds are the look at the signals, the server's accepting and
  the request for a frame; all others are between them. A round looks, finds no signal, polls the server once
  and asks the encoder once; the trace ends with the first look that finds a signal. The numbers count the
  rounds and the frames that were handed out.
\<close>

definition calm :: "syscall \<times> reply \<Rightarrow> bool" where
  "calm p \<longleftrightarrow> (case fst p of Pending_signal \<Rightarrow> False | Accept fd \<Rightarrow> False | Ioctl fd req a \<Rightarrow> req \<noteq> ISP_IOCTL_VENC_GET_STREAM | _ \<Rightarrow> True)"

inductive loop_run :: "int \<Rightarrow> int \<Rightarrow> nat \<Rightarrow> nat \<Rightarrow> hist \<Rightarrow> bool" for mfd lfd where
  signalled: "rv r \<noteq> 0 \<Longrightarrow> loop_run mfd lfd 0 0 [(Pending_signal, r)]"
| round: "rv r = 0 \<Longrightarrow> list_all calm us \<Longrightarrow> list_all calm vs \<Longrightarrow> loop_run mfd lfd m n rest \<Longrightarrow>
     loop_run mfd lfd (Suc m) (if has_stream rg then Suc n else n)
       ((Pending_signal, r) # (Accept lfd, ra) # us @ (get_request mfd, rg) # vs @ rest)"

lemma calm_simps [simp]:
  "calm (Usleep n, r)" "calm (Print s, r)" "\<not> calm (Pending_signal, r)" "calm (release_request efd c, r)"
  by (simp_all add: calm_def release_request_def ISP_IOCTL_VENC_RELEASE_STREAM_def ISP_IOCTL_VENC_GET_STREAM_def)

lemma client_call_calm: "client_call c \<Longrightarrow> calm (c, r)"
  by (cases c) (simp_all add: calm_def client_call_def server_call_def ISP_IOCTL_VENC_REQUEST_IDR_def ISP_IOCTL_VENC_GET_STREAM_def)

lemma frame_call_calm: "frame_call m c \<Longrightarrow> calm (c, r)"
  using client_call_calm [of c r] by (cases c) (auto simp: frame_call_def calm_def)

lemma foot_calm: "foot h h' \<Longrightarrow> \<exists>us. h' = h @ us \<and> list_all calm us"
  using client_call_calm by (fastforce simp: adds_def list_all_iff)

lemma frame_calls_calm: "frame_calls efd memfd st (calls xs) \<Longrightarrow> list_all calm xs"
proof -
  assume "frame_calls efd memfd st (calls xs)"
  then obtain us where "calls xs = us @ [release_request efd (st ! 3)]" "list_all (frame_call memfd) us"
    by (auto simp: frame_calls_def)
  then have "list_all (\<lambda>c. \<forall>r. calm (c, r)) (calls xs)" using frame_call_calm by (fastforce simp: list_all_iff)
  then show ?thesis by (auto simp: calls_def list_all_iff)
qed

text \<open>One round of the loop.\<close>

lemma main_loop_round:
  assumes k: "kernel_ok k" "frames_ok k" and wf: "wf_server srv" and go: "rv (k h Pending_signal) = 0"
  obtains srv' us vs ra rg where
    "main_loop k crypt mfd efd memfd True srv frames h =
       main_loop k crypt mfd efd memfd True srv' (if has_stream rg then frames + 1 else frames)
         (h @ (Pending_signal, k h Pending_signal) # (Accept (listen_fd srv), ra) # us @ (get_request mfd, rg) # vs)"
    "server_step srv h srv' (h @ (Pending_signal, k h Pending_signal) # (Accept (listen_fd srv), ra) # us @ (get_request mfd, rg) # vs)"
    "mapped (h @ (Pending_signal, k h Pending_signal) # (Accept (listen_fd srv), ra) # us @ (get_request mfd, rg) # vs) = mapped h"
    "list_all calm us" "list_all calm vs"
proof -
  have pk: "peer_ok k" using k(1) by (simp add: kernel_ok_def)
  define r where "r = k h Pending_signal"
  define h1 where "h1 = h @ [(Pending_signal, r)]"
  have h1: "live h1 f = live h f" "mapped h1 = mapped h" for f by (simp_all add: h1_def fun_eq_iff)
  have run: "read_running k True h = (True, h1)"
    using go by (simp add: read_running_def sys_def sig_handler_def h1_def r_def)
  obtain s2 h2 where 2: "rtsp_server_poll k crypt srv h1 = Some (s2, h2)"
    using rtsp_server_poll_ok [OF k(1) wf] by blast
  note st2 = rtsp_server_poll_step [OF 2 wf] and ft2 = rtsp_server_poll_foot [OF 2]
  have wf2: "wf_server s2" using st2 by (simp add: server_step_def)
  define ra where "ra = k h1 (Accept (listen_fd srv))"
  have m2: "mapped h2 = mapped h" using foot_mapped [OF ft2] h1 by (simp add: fun_eq_iff)
  obtain us where us: "h2 = h1 @ (Accept (listen_fd srv), ra) # us" "list_all calm us"
    using foot_calm [OF ft2] by (auto simp: ra_def)
  obtain got s3 h3 where 3: "venc_get_stream k mfd efd memfd s2 h2 = Some (got, s3, h3)"
    using venc_get_stream_ok [OF pk k(2)] by blast
  define rg where "rg = k h2 (get_request mfd)"
  note st3 = venc_get_stream_step [OF 3 wf2, folded rg_def]
  then obtain xs where xs: "h3 = h2 @ (get_request mfd, rg) # xs" "got = has_stream rg"
      "if got then frame_calls efd memfd (stream_of_reply rg) (calls xs) else xs = []" by (auto split: if_splits)
  then have cx: "list_all calm xs" using frame_calls_calm by (auto split: if_splits)
  define fr4 where "fr4 = (if got then frames + 1 else frames)"
  define h4 where "h4 = (if \<not> got then sys_h k (Usleep 2000) h3
    else if fr4 mod 50 = 0 then print_line k (''Frames: '' @ dec (unat fr4)) h3 else h3)"
  have loop: "main_loop k crypt mfd efd memfd True srv frames h = main_loop k crypt mfd efd memfd True s3 fr4 h4"
    by (subst main_loop.simps) (simp add: run 2 3 fr4_def h4_def Let_def)
  have h4: "live h4 f = live h3 f" "mapped h4 = mapped h3" "\<exists>zs. h4 = h3 @ zs \<and> list_all calm zs" for f
    by (simp_all add: h4_def print_line_def sys_h_def sys_def fun_eq_iff)
  then obtain zs where zs: "h4 = h3 @ zs" "list_all calm zs" by blast
  have h4_eq: "h4 = h @ (Pending_signal, k h Pending_signal) # (Accept (listen_fd srv), ra) # us @ (get_request mfd, rg) # (xs @ zs)"
    by (simp add: zs(1) xs(1) us(1) h1_def r_def)
  show thesis
  proof (rule that [of s3 rg ra us "xs @ zs"], unfold h4_eq [symmetric])
    show "main_loop k crypt mfd efd memfd True srv frames h =
        main_loop k crypt mfd efd memfd True s3 (if has_stream rg then frames + 1 else frames) h4"
      using loop by (simp add: fr4_def xs(2))
    show "server_step srv h s3 h4" using st2 st3 h1(1) h4(1) by (simp add: server_step_def)
    show "mapped h4 = mapped h" using st3 m2 h4(2) by simp
  qed (use us(2) cx zs(2) in simp_all)
qed

lemma main_loop_ok:
  assumes k: "kernel_ok k" "frames_ok k" "stops k n" and "wf_server srv"
  shows "\<exists>srv' xs m got. main_loop k crypt mfd efd memfd True srv frames h = Some (srv', frames + word_of_nat got, h @ xs) \<and>
           server_step srv h srv' (h @ xs) \<and> mapped (h @ xs) = mapped h \<and> loop_run mfd (listen_fd srv) m got xs"
  using assms(4)
proof (induction "n - looks h" arbitrary: srv frames h rule: less_induct)
  case less
  define r where "r = k h Pending_signal"
  show ?case
  proof (cases "rv r = 0")
    case False
    then have "main_loop k crypt mfd efd memfd True srv frames h = Some (srv, frames + word_of_nat 0, h @ [(Pending_signal, r)])"
      by (subst main_loop.simps) (simp add: read_running_def sys_def sig_handler_def r_def)
    moreover have "server_step srv h srv (h @ [(Pending_signal, r)])" using less.prems by (simp add: server_step_def)
    moreover have "mapped (h @ [(Pending_signal, r)]) = mapped h" by (simp add: fun_eq_iff)
    ultimately show ?thesis using signalled [OF False, of mfd "listen_fd srv"] by blast
  next
    case True
    then have lt: "looks h < n" using k(3) by (auto simp: stops_def r_def not_le [symmetric])
    obtain s3 us vs ra rg where rd: "main_loop k crypt mfd efd memfd True srv frames h =
         main_loop k crypt mfd efd memfd True s3 (if has_stream rg then frames + 1 else frames)
           (h @ (Pending_signal, r) # (Accept (listen_fd srv), ra) # us @ (get_request mfd, rg) # vs)"
      "server_step srv h s3 (h @ (Pending_signal, r) # (Accept (listen_fd srv), ra) # us @ (get_request mfd, rg) # vs)"
      "mapped (h @ (Pending_signal, r) # (Accept (listen_fd srv), ra) # us @ (get_request mfd, rg) # vs) = mapped h"
      "list_all calm us" "list_all calm vs"
      by (rule main_loop_round [OF k(1,2) less.prems True [unfolded r_def], folded r_def]) 
    define ys where "ys = (Pending_signal, r) # (Accept (listen_fd srv), ra) # us @ (get_request mfd, rg) # vs"
    note rd = rd [folded ys_def]
    have dec: "n - looks (h @ ys) < n - looks h" using lt by (simp add: looks_def ys_def)
    have wf3: "wf_server s3" and lf: "listen_fd s3 = listen_fd srv" using rd(2) by (simp_all add: server_step_def)
    obtain s5 xs m got where 5: "main_loop k crypt mfd efd memfd True s3 (if has_stream rg then frames + 1 else frames) (h @ ys) =
        Some (s5, (if has_stream rg then frames + 1 else frames) + word_of_nat got, (h @ ys) @ xs)"
      and st5: "server_step s3 (h @ ys) s5 ((h @ ys) @ xs)" "mapped ((h @ ys) @ xs) = mapped (h @ ys)"
      and run: "loop_run mfd (listen_fd s3) m got xs"
      using less.hyps [OF dec wf3] by blast
    define got1 where "got1 = (if has_stream rg then Suc got else got)"
    have "loop_run mfd (listen_fd srv) (Suc m) got1 (ys @ xs)"
      using loop_run.round [OF True rd(4,5) run, of rg ra] by (simp add: ys_def lf got1_def)
    moreover have "main_loop k crypt mfd efd memfd True srv frames h = Some (s5, frames + word_of_nat got1, h @ ys @ xs)"
      using 5 unfolding rd(1) by (simp add: got1_def)
    moreover have "server_step srv h s5 (h @ ys @ xs)" using server_step_trans [OF rd(2) st5(1)] by simp
    moreover have "mapped (h @ ys @ xs) = mapped h" using st5(2) rd(3) by simp
    ultimately show ?thesis by blast
  qed
qed

section \<open>The whole program\<close>

lemma rtsp_server_close_facts:
  assumes "rtsp_server_close k srv h = (srv', h')"
  shows "live h' f = live h f - held_clients (clients srv) f - held_fd (listen_fd srv) f"
proof -
  obtain cs h1 where 1: "clients_reset k (clients srv) h = (cs, h1)" by force
  with assms clients_reset_facts [OF 1, of f] show ?thesis by (auto simp: rtsp_server_close_def)
qed

lemma held_clients_init: "held_clients (replicate n client_init) f = 0"
  by (simp add: held_clients_def sum_list_replicate)

lemma shut_down_facts:
  assumes "0 \<le> s_mp_fd s" "0 \<le> s_isp_fd s" "0 \<le> s_enc_fd s" "0 \<le> s_vmm_fd s" "listen_fd srv = listen_fd (s_rtsp s)"
  shows "live (shut_down k s srv frames h) f = live h f - held_clients (clients srv) f - held_streamer s f"
proof -
  obtain srv1 h1 where 1: "rtsp_server_close k srv h = (srv1, h1)" by force
  define h2 where "h2 = sys_h k (Print ([LF] @ ''Stopping... ('' @ dec (unat frames) @ '' frames captured)'' @ [LF])) h1"
  obtain cv h3 where 3: "cv2003_deinit k (s_sensor s) h2 = (cv, h3)" by force
  obtain ctx h4 where 4: "isp_cleanup k (s_ctx s) h3 = (ctx, h4)" by force
  have l2: "live h2 f = live h1 f" by (simp add: h2_def)
  have l3: "live h3 f = live h2 f - held_fd (g_i2c_fd (s_sensor s)) f"
    using device_close_step [of k "s_sensor s" h2 cv h3] 3 unfolding cv2003_deinit_def cv_step_def by force
  have l4: "live h4 f = live h3 f - held_fd (mem_fd (s_ctx s)) f"
    using 4 by (auto simp: isp_cleanup_def Let_def held_fd_def split: if_splits)
  have "shut_down k s srv frames h =
      sys_h k (Close (s_mp_fd s)) (sys_h k (Close (s_isp_fd s)) (sys_h k (Close (s_vmm_fd s)) (sys_h k (Close (s_enc_fd s)) h4)))"
    unfolding shut_down_def Let_def 1 prod.case h2_def [symmetric] 3 4 ..
  then show ?thesis
    using assms l2 l3 l4 rtsp_server_close_facts [OF 1, of f] by (simp add: held_streamer_def held_fd_def)
qed

lemma shut_down_grows: "\<exists>xs. shut_down k s srv frames h = h @ xs"
proof -
  let ?T = "adds (\<lambda>_. True)"
  obtain srv1 h1 where 1: "rtsp_server_close k srv h = (srv1, h1)" by force
  define h2 where "h2 = sys_h k (Print ([LF] @ ''Stopping... ('' @ dec (unat frames) @ '' frames captured)'' @ [LF])) h1"
  obtain cv h3 where 3: "cv2003_deinit k (s_sensor s) h2 = (cv, h3)" by force
  obtain ctx h4 where 4: "isp_cleanup k (s_ctx s) h3 = (ctx, h4)" by force
  have "?T h h1" by (rule adds_mono [OF rtsp_server_close_foot [OF 1]]) simp
  then have "?T h h2" by (simp add: h2_def)
  moreover have "?T h2 h3" using 3 by (auto simp: cv2003_deinit_def sensor_device_close_def split: if_splits)
  moreover have "?T h3 h4" using 4 by (auto simp: isp_cleanup_def Let_def split: if_splits)
  ultimately have "?T h h4" by (blast intro: adds_trans)
  moreover have "shut_down k s srv frames h =
      sys_h k (Close (s_mp_fd s)) (sys_h k (Close (s_isp_fd s)) (sys_h k (Close (s_vmm_fd s)) (sys_h k (Close (s_enc_fd s)) h4)))"
    unfolding shut_down_def Let_def 1 prod.case h2_def [symmetric] 3 4 ..
  ultimately have "?T h (shut_down k s srv frames h)" by simp
  then show ?thesis by (auto simp: adds_def)
qed

section \<open>A camera that works\<close>

text \<open>
  The devices open and answer, the register block can be mapped and carries the chip's identification, the
  sockets can be set up, and physical memory is granted at \<open>base\<close>. What the sensor answers is left open.
\<close>

definition camera_works :: "kernel \<Rightarrow> u32 \<Rightarrow> bool" where
  "camera_works k base \<longleftrightarrow>
     (\<forall>h p m. 0 \<le> rv (k h (Open p m))) \<and> (\<forall>h fd req a. rv (k h (Ioctl fd req a)) = 0) \<and>
     (\<forall>h fd bs. take 4 (rbytes (k h (Ioctl fd VMM_IOCTL_ALLOC (Arg_bytes bs)))) = le32 base) \<and>
     unat base < 0xF0000000 \<and>
     (\<forall>h fd n off. rv (k h (Mmap fd n off)) \<noteq> MAP_FAILED) \<and> (\<forall>h b. rwords (k h (Peek b 0)) = [0x5A542093]) \<and>
     (\<forall>h. 0 \<le> rv (k h Socket_stream)) \<and> (\<forall>h fd a. 0 \<le> rv (k h (Bind fd a))) \<and> (\<forall>h fd. 0 \<le> rv (k h (Listen fd)))"

lemma works_simps:
  assumes "camera_works k base"
  shows "\<not> rv (k h (Open p m)) < 0" "rv (k h (Ioctl fd req a)) = 0" "rv (k h (Mmap fd n off)) \<noteq> MAP_FAILED"
    "rwords (k h (Peek b 0)) = [0x5A542093]" "\<not> rv (k h Socket_stream) < 0" "\<not> rv (k h (Bind fd ad)) < 0" "\<not> rv (k h (Listen fd)) < 0"
  using assms by (simp_all add: camera_works_def not_less)

lemma works_ioctl_r:
  "camera_works k base \<Longrightarrow> (\<And>h1. R (g 0 h1)) \<Longrightarrow> R (case ioctl_r k fd req a h of (r, h1) \<Rightarrow> g r h1)"
  by (simp add: ioctl_r_def sys_def works_simps)

lemma works_ioctl_words:
  "camera_works k base \<Longrightarrow> (\<And>q h1. R (g 0 q h1)) \<Longrightarrow> R (case ioctl_words k fd req ws h of (r, q, h1) \<Rightarrow> g r q h1)"
  by (simp add: ioctl_words_def sys_def works_simps)

lemma works_vmm_alloc:
  "camera_works k base \<Longrightarrow> (\<And>ph h1. R (g 0 ph h1)) \<Longrightarrow> R (case vmm_alloc k fd sz name h of (r, ph, h1) \<Rightarrow> g r ph h1)"
  by (simp add: vmm_alloc_def ioctl_bytes_def sys_def Let_def works_simps)

lemma works_call: "fst p = 0 \<Longrightarrow> (\<And>h1. R (g 0 h1)) \<Longrightarrow> R (case p of (r, h1) \<Rightarrow> g r h1)"
  by (cases p) simp

lemma works_call3: "fst p = 0 \<Longrightarrow> (\<And>s h1. R (g 0 s h1)) \<Longrightarrow> R (case p of (r, s, h1) \<Rightarrow> g r s h1)"
  by (cases p) simp

lemma works_if: "\<not> b \<Longrightarrow> R y \<Longrightarrow> R (if b then x else y)"
  by simp

lemmas works_walk = works_ioctl_r works_ioctl_words works_vmm_alloc
lemmas works_walk0 = works_walk [where R = "\<lambda>x. fst x = 0"]
lemmas works_if0 = works_if [where R = "\<lambda>x. fst x = 0"]
lemmas works_call0 = works_call [where R = "\<lambda>x. fst x = 0"] works_call3 [where R = "\<lambda>x. fst x = 0"]

lemma ioctl_each_works: "camera_works k base \<Longrightarrow> fst (ioctl_each k fd req wss h) = 0"
proof (induction wss arbitrary: h)
  case (Cons ws wss)
  then show ?case unfolding ioctl_each.simps Let_def by (intro works_walk0 [OF Cons.prems] works_if0) simp_all
qed simp

lemma vpss_chn_buffers_works: "camera_works k base \<Longrightarrow> fst (vpss_chn_buffers k ifd vfd ds h) = 0"
proof (induction ds arbitrary: h)
  case (Cons d ds)
  then show ?case unfolding vpss_chn_buffers.simps Let_def by (intro works_walk0 [OF Cons.prems] works_if0) simp_all
qed simp

lemma vpss_setup_works:
  assumes "camera_works k base"
  shows "fst (vpss_setup k ifd vfd h) = 0"
  unfolding vpss_setup_def Let_def
  by (intro works_walk0 [OF assms] works_if0 works_call0(1) [OF vpss_chn_buffers_works [OF assms]]
      works_call0(1) [OF ioctl_each_works [OF assms]] ioctl_each_works [OF assms]) simp_all

lemma venc_works:
  assumes "camera_works k base"
  shows "fst (venc_sys_init k efd vfd h) = 0" "fst (venc_bind_and_start k mfd efd chan h) = 0"
    "fst (venc_chn_setup k efd vfd chan w hh br outs h) = 0"
proof -
  show "fst (venc_sys_init k efd vfd h) = 0"
    unfolding venc_sys_init_def Let_def by (intro works_walk0 [OF assms] works_if0) simp_all
  show "fst (venc_bind_and_start k mfd efd chan h) = 0"
    unfolding venc_bind_and_start_def Let_def by (intro works_walk0 [OF assms] works_if0) simp_all
  show "fst (venc_chn_setup k efd vfd chan w hh br outs h) = 0"
    unfolding venc_chn_setup_def venc_set_rc_attr_def Let_def by (intro works_walk0 [OF assms] works_if0) simp_all
qed

lemma start_encoders_works: "camera_works k base \<Longrightarrow> fst (start_encoders k bitrate mfd efd vfd ds h) = 0"
proof (induction ds arbitrary: h)
  case (Cons d ds)
  show ?case unfolding start_encoders.simps Let_def
    by (intro works_if0 works_call0(1) [OF venc_works(2) [OF Cons.prems]] works_call0(2) [OF venc_works(3) [OF Cons.prems]])
      (simp_all add: Cons)
qed simp

lemma rtsp_server_init_works: "camera_works k base \<Longrightarrow> fst (rtsp_server_init k port h) = 0"
  by (simp add: rtsp_server_init_def sys_def works_simps case_prod_beta Let_def)

lemma cv2003_works:
  assumes "camera_works k base"
  shows "fst (cv2003_init k st h) = 0" "fst (cv2003_set_format k st h) = 0"
proof -
  have i: "fst (sensor_device_init k a st h) = 0" for a st h
    using assms by (simp add: sensor_device_init_def sys_def ioctl_eq works_simps Let_def)
  have m: "fst (mipi_init k h) = 0" for h
    using assms by (simp add: mipi_init_def sys_def ioctl_eq works_simps Let_def)
  show "fst (cv2003_init k st h) = 0" using i by (simp add: cv2003_init_def case_prod_beta)
  show "fst (cv2003_set_format k st h) = 0"
    using i m by (simp add: cv2003_set_format_def case_prod_beta Let_def)
qed

lemma isp_setup_works:
  assumes w: "camera_works k base"
  shows "\<exists>core' ctx' h'. isp_setup k core ctx ifd vfd 1920 1080 h = Some (0, core', ctx', h')"
proof -
  have drv: "isp_driver_ok k ifd vfd base" using w by (simp add: isp_driver_ok_def camera_works_def)
  have sz: "4 \<le> unat (1920 :: u32)" "unat (1920 :: u32) \<le> 8192" "4 \<le> unat (1080 :: u32)" "unat (1080 :: u32) \<le> 8192" by simp_all
  have "unat base < 0xF0000000" using w by (simp add: camera_works_def)
  then have fit: "unat base + 2 * unat (buf_sizes 1920 1080 ! 0x15) + 128 < 2 ^ 32"
    by (subst pool_words(3)) (simp_all add: frame_bytes_def up128_def)
  have al: "\<exists>core' h'. isp_core_alloc_buf_addr k 1920 1080 (isp_core_set_fds ifd vfd core) h = (0, core', h')" for h
  proof -
    have "isp_driver_ok k (isp_fd (isp_core_set_fds ifd vfd core)) (vmm_fd (isp_core_set_fds ifd vfd core)) base"
      using drv by (simp add: isp_core_set_fds_def)
    from alloc_buf_addr_layout [OF sz this fit, of h] show ?thesis by blast
  qed
  have hw: "\<exists>ctx' h'. isp_hw_init k ctx 1920 1080 h = Some (0, ctx', h')" for h
  proof -
    obtain r ctx' h' where i: "isp_hw_init k ctx 1920 1080 h = Some (r, ctx', h')"
      using isp_hw_init_returns [of 1920 1080 k ctx h] by auto
    obtain c0 h0 where m: "isp_mmap k ctx 1920 1080 h = (0, c0, h0)"
      using w by (simp add: isp_mmap_def sys_def works_simps Let_def)
    obtain h1 where p: "peek k (ctx_regs c0) 0 h0 = (0x5A542093, h1)"
      using w by (simp add: peek_def sys_def works_simps overlay_def)
    from i have "r = 0" by (auto simp: isp_hw_init_def m p split: option.splits)
    with i show ?thesis by blast
  qed
  define R where "R x \<longleftrightarrow> (\<exists>core' ctx' h'. x = Some (0, core', ctx', h'))" for x :: "(int \<times> isp_core \<times> isp_ctx \<times> hist) option"
  have rest: "R (isp_setup_rest s1 s2 s3 k core ctx ifd vfd 1920 1080 h1)" for s1 s2 s3 h1
  proof -
    obtain c1 h2 where 1: "isp_core_alloc_buf_addr k 1920 1080 (isp_core_set_fds ifd vfd core) h1 = (0, c1, h2)" using al by blast
    obtain x2 h3 where 2: "isp_hw_init k ctx 1920 1080 (sys_h k (Print s2) h2) = Some (0, x2, h3)" using hw by blast
    show ?thesis by (simp add: isp_setup_rest_def 1 2 R_def)
  qed
  have "R (isp_setup k core ctx ifd vfd 1920 1080 h)"
    unfolding isp_setup_def isp_setup_rest_def [symmetric]
    unfolding Let_def
    by (intro works_walk [where R = R, OF w] works_if [where R = R] rest) simp_all
  then show ?thesis by (simp add: R_def)
qed

lemma bring_up_works:
  assumes w: "camera_works k base"
  shows "\<exists>s h'. bring_up k bitrate h = Some (Inr s, h')"
proof -
  define R where "R x \<longleftrightarrow> (\<exists>s h'. x = Some (Inr s, h'))" for x :: "((int + streamer) \<times> hist) option"
  have op: "(\<And>r h1. \<not> rv r < 0 \<Longrightarrow> R (g r h1)) \<Longrightarrow> R (case sys k (Open p m) h of (r, h1) \<Rightarrow> g r h1)" for g p m h
    by (simp add: sys_def works_simps [OF w])
  have isp: "(\<And>core' ctx' h'. R (g 0 core' ctx' h')) \<Longrightarrow>
      R (isp_setup k core ctx ifd vfd 1920 1080 h \<bind> (\<lambda>(r, core, ctx, h). g r core ctx h))" for g core ctx ifd vfd h
    using isp_setup_works [OF w, of core ctx ifd vfd h] by auto
  have cf: "(\<And>s h1. R (g s h1)) \<Longrightarrow> R (case configure_server k efd srv h of (s, h1) \<Rightarrow> g s h1)" for g efd srv h
    by (cases "configure_server k efd srv h") simp
  have ok: "R (Some (Inr s, h1))" for s h1 by (simp add: R_def)
  have "R (bring_up k bitrate h)"
    unfolding bring_up_def Let_def
    by (intro op works_call3 [where R = R, OF cv2003_works(1) [OF w]] works_call3 [where R = R, OF cv2003_works(2) [OF w]]
        works_call [where R = R, OF vpss_setup_works [OF w]] isp works_call [where R = R, OF venc_works(1) [OF w]]
        works_call [where R = R, OF start_encoders_works [OF w]] works_call3 [where R = R, OF rtsp_server_init_works [OF w]]
        cf ok works_if [where R = R]) simp_all
  then show ?thesis by (simp add: R_def)
qed

section \<open>The program stops\<close>

text \<open>C2: The program runs until a signal arrives, and leaves nothing open. If from some look at the signals on one is
  pending, clients and files behave as documented, and the streams the encoder hands out do not wrap around the
  address space, then \<open>main\<close> returns, whatever the drivers, the sensor and the clients do in between; on a camera
  that works it returns 0. When it returns 0, it brought the pipeline up and went through its loop: each round
  looks for a signal, finds none, polls the server once and asks the encoder for a frame once, whether there is
  one or not, and the first look that finds a signal ends the loop, and only that; the clean-up behind it reports
  the number of frames handed out (as a 32-bit number). Then every descriptor opened by any of the libraries has
  been closed exactly once, but for \<open>/dev/jpeg\<close>, which is opened and forgotten.\<close>
theorem streamer_stops_clean:
  assumes "kernel_ok k" and "frames_ok k" and "stops k n"
  shows "\<exists>code h'. streamer_main k crypt bitrate [] = Some (code, h') \<and> (camera_works k base \<longrightarrow> code = 0) \<and>
     (code = 0 \<longrightarrow>
        (\<exists>s h1 rounds got xs srv. bring_up k bitrate [] = Some (Inr s, h1) \<and>
           loop_run (s_mp_fd s) (listen_fd (s_rtsp s)) rounds got xs \<and> h' = shut_down k s srv (word_of_nat got) (h1 @ xs)) \<and>
        (\<exists>r. (Open ''/dev/jpeg'' O_RDWR, r) \<in> set h' \<and> (\<forall>f. live h' f = held_fd (rv r) f)))"
proof -
  obtain u h1 where 1: "bring_up k bitrate [] = Some (u, h1)" and bad: "\<And>c. u = Inl c \<Longrightarrow> c = 1"
    and up: "\<And>s. u = Inr s \<Longrightarrow> wf_server (s_rtsp s) \<and> clients (s_rtsp s) = replicate RTSP_MAX_CLIENTS client_init \<and>
          0 \<le> s_mp_fd s \<and> 0 \<le> s_isp_fd s \<and> 0 \<le> s_enc_fd s \<and> 0 \<le> s_vmm_fd s \<and>
          (\<exists>r. (Open ''/dev/jpeg'' O_RDWR, r) \<in> set h1 \<and> (\<forall>f. live h1 f = held_streamer s f + held_fd (rv r) f))"
    using bring_up_result [of "[]" k bitrate] unfolding up_result_def by auto
  show ?thesis
  proof (cases u)
    case (Inl code)
    with bad have "code = 1" by blast
    moreover have "\<not> camera_works k base" using bring_up_works [of k base bitrate "[]"] 1 Inl by auto
    ultimately show ?thesis by (simp add: streamer_main_def 1 Inl)
  next
    case (Inr s)
    note s = up [OF Inr]
    then obtain r where r: "(Open ''/dev/jpeg'' O_RDWR, r) \<in> set h1" "live h1 f = held_streamer s f + held_fd (rv r) f" for f by blast
    obtain srv xs rounds got where 2: "main_loop k crypt (s_mp_fd s) (s_enc_fd s) (mem_fd (s_ctx s)) True (s_rtsp s) 0 h1 =
        Some (srv, 0 + word_of_nat got, h1 @ xs)"
      and st: "server_step (s_rtsp s) h1 srv (h1 @ xs)" and run: "loop_run (s_mp_fd s) (listen_fd (s_rtsp s)) rounds got xs"
      using main_loop_ok [OF assms conjunct1 [OF s]] by blast
    define h3 where "h3 = shut_down k s srv (word_of_nat got) (h1 @ xs)"
    have "live h3 f = live (h1 @ xs) f - held_clients (clients srv) f - held_streamer s f" for f
      unfolding h3_def by (rule shut_down_facts) (use s st in \<open>simp_all add: server_step_def\<close>)
    moreover have "live (h1 @ xs) f - held_clients (clients srv) f = live h1 f" for f
      using st s held_clients_init by (simp add: server_step_def)
    ultimately have "live h3 f = held_fd (rv r) f" for f using r(2) [of f] by simp
    moreover have "(Open ''/dev/jpeg'' O_RDWR, r) \<in> set h3"
      using r(1) shut_down_grows [of k s srv "word_of_nat got" "h1 @ xs"] by (auto simp: h3_def)
    moreover have "streamer_main k crypt bitrate [] = Some (0, h3)" using 2 by (simp add: streamer_main_def 1 Inr h3_def)
    moreover have "\<exists>s h1 rounds got xs srv. bring_up k bitrate [] = Some (Inr s, h1) \<and>
        loop_run (s_mp_fd s) (listen_fd (s_rtsp s)) rounds got xs \<and> h3 = shut_down k s srv (word_of_nat got) (h1 @ xs)"
      using 1 Inr run h3_def by blast
    ultimately show ?thesis by blast
  qed
qed

text \<open>
  A camera on which all of this holds: memory is granted at \<open>0xA0000000\<close>, nobody connects, the encoder has
  one unit of 100 bytes in every stream, and \<open>SIGINT\<close> arrives with the third look at the signals.
\<close>

definition k_camera :: kernel where
  "k_camera h c =
     (case c of
        Open p m \<Rightarrow> ok_reply 9
      | Socket_stream \<Rightarrow> ok_reply 10
      | Accept fd \<Rightarrow> (ok_reply (- 1))\<lparr>err := EAGAIN\<rparr>
      | Mmap fd n off \<Rightarrow> ok_reply 0x70000000
      | Peek b off \<Rightarrow> words_reply [0x5A542093]
      | Pending_signal \<Rightarrow> ok_reply (if 2 \<le> looks h then 2 else 0)
      | Ioctl fd req a \<Rightarrow>
          if req = VMM_IOCTL_ALLOC then (ok_reply 0)\<lparr>rbytes := le32 0xA0000000\<rparr>
          else if req = ISP_IOCTL_VENC_GET_STREAM
          then words_reply [4, 4, 0, 0, 1, 0, 0, 0, 0, 0, 40, 0, 0, 0xA0001010, 0, 100]
          else ok_reply 0
      | _ \<Rightarrow> ok_reply 0)"

lemma k_camera_ok:
  "kernel_ok k_camera" "frames_ok k_camera" "stops k_camera 2" "camera_works k_camera 0xA0000000"
proof -
  have "retry k c 0 h = h" for k c h by simp
  then show "kernel_ok k_camera"
    by (auto simp: kernel_ok_def peer_ok_def recv_ok_def time_ok_def send_bounded_def send_responsive_def k_camera_def eintr_def
        intro!: exI [of _ 0])
  show "stops k_camera 2" by (simp add: stops_def k_camera_def)
  have ne: "ISP_IOCTL_VENC_GET_STREAM \<noteq> VMM_IOCTL_ALLOC" by (simp add: request_codes)
  show "camera_works k_camera 0xA0000000"
    by (auto simp: camera_works_def k_camera_def MAP_FAILED_def)
  show "frames_ok k_camera"
    unfolding frames_ok_def stream_of_reply_def get_request_def k_camera_def
    by (simp add: ne Let_def nalu_count_def nalu_fits_def nalu_off_def nalu_phys_def nalu_len_def overlay_def
        VENC_STREAM_WORDS_def VENC_STREAM_NALU_WORD_def VENC_STREAM_NALU_MAX_def VENC_STREAM_H264_def)
qed

lemma streamer_stops_clean_witness:
  "\<exists>s h1 rounds got xs srv h' (r :: reply).
     bring_up k_camera (\<lambda>_ _ _. 1024) [] = Some (Inr s, h1) \<and> loop_run (s_mp_fd s) (listen_fd (s_rtsp s)) rounds got xs \<and>
     h' = shut_down k_camera s srv (word_of_nat got) (h1 @ xs) \<and>
     streamer_main k_camera (\<lambda>_ _. None) (\<lambda>_ _ _. 1024) [] = Some (0, h') \<and> (\<forall>f. live h' f = held_fd (rv r) f)"
proof -
  from streamer_stops_clean [OF k_camera_ok(1-3), of "\<lambda>_ _. None" "\<lambda>_ _ _. 1024" "0xA0000000"] obtain code h' where
    res: "streamer_main k_camera (\<lambda>_ _. None) (\<lambda>_ _ _. 1024) [] = Some (code, h')" "code = 0"
    "code = 0 \<longrightarrow> (\<exists>s h1 rounds got xs srv. bring_up k_camera (\<lambda>_ _ _. 1024) [] = Some (Inr s, h1) \<and>
        loop_run (s_mp_fd s) (listen_fd (s_rtsp s)) rounds got xs \<and> h' = shut_down k_camera s srv (word_of_nat got) (h1 @ xs)) \<and>
      (\<exists>r. (Open ''/dev/jpeg'' O_RDWR, r) \<in> set h' \<and> (\<forall>f. live h' f = held_fd (rv r) f))"
    using k_camera_ok(4) by blast
  note both = mp [OF res(3) res(2)]
  obtain r where r: "(Open ''/dev/jpeg'' O_RDWR, r) \<in> set h' \<and> (\<forall>f. live h' f = held_fd (rv r) f)"
    by (rule exE [OF conjunct2 [OF both]])
  have "streamer_main k_camera (\<lambda>_ _. None) (\<lambda>_ _ _. 1024) [] = Some (0, h')" using res(1) unfolding res(2) .
  with conjunct1 [OF both] conjunct2 [OF r] show ?thesis by blast
qed

text \<open>C5: One frame of the encoder. The result says whether the driver handed out an H.264 stream. When it did not, the
  request is the only call made and the server is untouched; when it did, that stream is released exactly once,
  as the last call and with the channel it came with. In between the program maps every unit that is not empty,
  in order and nothing else, reads the mappings, writes standard output and serves the clients it has; every
  mapping it made is undone, the server's invariant holds and no descriptor is gained or lost.\<close>
theorem venc_get_stream_releases:
  assumes "venc_get_stream k mfd efd memfd srv h = Some (got, srv', h')" and "wf_server srv"
  defines "st \<equiv> stream_of_reply (k h (get_request mfd))"
  shows "(got \<longleftrightarrow> has_stream (k h (get_request mfd))) \<and>
     (\<not> got \<longrightarrow> calls h' = calls h @ [get_request mfd] \<and> srv' = srv) \<and>
     (got \<longrightarrow> (\<exists>cs. calls h' = calls h @ [get_request mfd] @ cs @ [release_request efd (st ! 3)] \<and>
        list_all (frame_call memfd) cs \<and> release_request efd (st ! 3) \<notin> set cs \<and>
        filter is_mmap cs = unit_mmaps memfd st [0..<nalu_count st])) \<and>
     mapped h' = mapped h \<and> server_step srv h srv' h'"
proof -
  note step = venc_get_stream_step [OF assms(1,2), folded st_def]
  have nf: "\<not> frame_call memfd (release_request efd c)" for c
    by (simp add: frame_call_def client_call_def server_call_def release_request_def ISP_IOCTL_VENC_RELEASE_STREAM_def
        ISP_IOCTL_VENC_REQUEST_IDR_def)
  have "\<exists>cs. calls h' = calls h @ [get_request mfd] @ cs @ [release_request efd (st ! 3)] \<and>
        list_all (frame_call memfd) cs \<and> release_request efd (st ! 3) \<notin> set cs \<and>
        filter is_mmap cs = unit_mmaps memfd st [0..<nalu_count st]" if got
  proof -
    from step that obtain xs us where x: "h' = h @ (get_request mfd, k h (get_request mfd)) # xs"
      "calls xs = us @ [release_request efd (st ! 3)]" "list_all (frame_call memfd) us"
      "filter is_mmap us = unit_mmaps memfd st [0..<nalu_count st]"
      by (auto simp: frame_calls_def)
    moreover have "release_request efd (st ! 3) \<notin> set us" using x(3) nf by (auto simp: list_all_iff)
    ultimately show ?thesis by (intro exI [of _ us]) simp
  qed
  with step show ?thesis by auto
qed

lemma venc_get_stream_releases_witness:
  "\<exists>srv' h' cs. venc_get_stream k_camera 3 4 5 (server0\<lparr>video_ts_base := [0, 0]\<rparr>) [] = Some (True, srv', h') \<and>
     calls h' = [get_request 3] @ cs @ [release_request 4 0] \<and> filter is_mmap cs = [Mmap 5 116 0xA0001000] \<and> mapped h' = mapped []"
proof -
  let ?srv = "server0\<lparr>video_ts_base := [0, 0]\<rparr>"
  have wf: "wf_server ?srv"
    by (auto simp: wf_server_def wf_config_def server0_def RTSP_STREAM_COUNT_def)
  have "peer_ok k_camera" using k_camera_ok(1) by (simp add: kernel_ok_def)
  then obtain got srv' h' where g: "venc_get_stream k_camera 3 4 5 ?srv [] = Some (got, srv', h')"
    using venc_get_stream_ok [OF _ k_camera_ok(2)] by blast
  have ne: "ISP_IOCTL_VENC_GET_STREAM \<noteq> VMM_IOCTL_ALLOC" by (simp add: request_codes)
  define st where "st = stream_of_reply (k_camera [] (get_request 3))"
  have st: "has_stream (k_camera [] (get_request 3))" "st ! 3 = 0"
      "unit_mmaps 5 st [0..<nalu_count st] = [Mmap 5 116 0xA0001000]"
    unfolding has_stream_def stream_of_reply_def get_request_def k_camera_def st_def
    by (simp_all add: ne overlay_def VENC_STREAM_WORDS_def VENC_STREAM_H264_def nalu_count_def nalu_len_def nalu_size_def
        nalu_off_def nalu_page_def nalu_phys_def VENC_STREAM_NALU_WORD_def VENC_STREAM_NALU_MAX_def)
  note res = venc_get_stream_releases [OF g wf, folded st_def]
  with st(1) have got: "got" by blast
  with res obtain cs where "calls h' = calls [] @ [get_request 3] @ cs @ [release_request 4 (st ! 3)]"
    "filter is_mmap cs = unit_mmaps 5 st [0..<nalu_count st]" "mapped h' = mapped []" by blast
  with g got show ?thesis unfolding st(2,3) by (intro exI [of _ srv'] exI [of _ h'] exI [of _ cs]) simp
qed

text \<open>C37: The arguments of the drivers: in everything \<open>main\<close> does before its loop, whatever the kernel answers,
  every \<open>ioctl\<close> passes at least as many bytes as its request code announces, and exactly four less in the
  rate control request.\<close>
theorem streamer_arguments_fit:
  assumes "bring_up k bitrate [] = Some (u, h')"
  shows "list_all fits (calls h')"
  using bring_up_result [of "[]" k bitrate] assms adds_calls [of fits "[]" h'] by (auto simp: up_result_def)

lemma streamer_arguments_fit_witness:
  "\<exists>s h'. bring_up k_camera (\<lambda>_ _ _. 1024) [] = Some (Inr s, h') \<and> list_all fits (calls h')"
proof -
  obtain s h' where "bring_up k_camera (\<lambda>_ _ _. 1024) [] = Some (Inr s, h')" using bring_up_works [OF k_camera_ok(4)] by blast
  with streamer_arguments_fit [OF this] show ?thesis by blast
qed

text \<open>Start codes: a unit that begins with one loses exactly it, a unit without one is unchanged, and nothing but
  leading zeros and a one is ever removed.\<close>
lemma strip_start_code_correct:
  "strip_start_code ([0, 0, 0, 1] @ nal) = nal \<and> strip_start_code ([0, 0, 1] @ nal) = nal \<and>
   (take 3 buf \<noteq> [0, 0, 1] \<longrightarrow> take 4 buf \<noteq> [0, 0, 0, 1] \<longrightarrow> strip_start_code buf = buf) \<and>
   (\<exists>code \<in> {[], [0, 0, 1], [0, 0, 0, 1]}. buf = code @ strip_start_code buf)"
proof (intro conjI impI)
  show "strip_start_code ([0, 0, 0, 1] @ nal) = nal" "strip_start_code ([0, 0, 1] @ nal) = nal"
    by (simp_all add: strip_start_code_def)
  have four: "4 \<le> length buf \<and> buf ! 0 = 0 \<and> buf ! 1 = 0 \<and> buf ! 2 = 0 \<and> buf ! 3 = 1 \<longleftrightarrow> take 4 buf = [0, 0, 0, 1]"
  proof (cases "4 \<le> length buf")
    case True
    then obtain a b c d rest where "buf = a # b # c # d # rest" by (auto simp: numeral_eq_Suc Suc_le_length_iff)
    then show ?thesis by (simp add: numeral_eq_Suc)
  qed auto
  have three: "3 \<le> length buf \<and> buf ! 0 = 0 \<and> buf ! 1 = 0 \<and> buf ! 2 = 1 \<longleftrightarrow> take 3 buf = [0, 0, 1]"
  proof (cases "3 \<le> length buf")
    case True
    then obtain a b c rest where "buf = a # b # c # rest" by (auto simp: numeral_eq_Suc Suc_le_length_iff)
    then show ?thesis by (simp add: numeral_eq_Suc)
  qed auto
  have eq: "strip_start_code buf =
      (if take 4 buf = [0, 0, 0, 1] then drop 4 buf else if take 3 buf = [0, 0, 1] then drop 3 buf else buf)"
    unfolding strip_start_code_def Let_def four three by simp
  show "strip_start_code buf = buf" if "take 3 buf \<noteq> [0, 0, 1]" "take 4 buf \<noteq> [0, 0, 0, 1]" using that by (simp add: eq)
  show "\<exists>code \<in> {[], [0, 0, 1], [0, 0, 0, 1]}. buf = code @ strip_start_code buf"
  proof -
    have "take 4 buf = [0, 0, 0, 1] \<Longrightarrow> buf = [0, 0, 0, 1] @ drop 4 buf" "take 3 buf = [0, 0, 1] \<Longrightarrow> buf = [0, 0, 1] @ drop 3 buf"
      using append_take_drop_id [of 4 buf] append_take_drop_id [of 3 buf] by simp_all
    then show ?thesis unfolding eq by (simp split: if_splits)
  qed
qed

lemma strip_start_code_correct_witness:
  "strip_start_code [0, 0, 0, 1, 0x67] = [0x67] \<and> strip_start_code [0, 0, 2, 1] = [0, 0, 2, 1]"
  using strip_start_code_correct [of "[0x67]" "[0, 0, 2, 1]"] by simp

section \<open>Memory handed to the hardware\<close>

text \<open>A range the memory manager granted, and the range a request hands to a driver.\<close>

definition granted :: "hist \<Rightarrow> u32 \<times> u32 \<Rightarrow> bool" where
  "granted h p \<longleftrightarrow>
     (\<exists>fd req r. (Ioctl fd VMM_IOCTL_ALLOC (Arg_bytes req), r) \<in> set h \<and> 0 \<le> rv r \<and>
        p = (get_le32 (overlay (rbytes r) req) 0, get_le32 req 12))"

definition handed :: "syscall \<Rightarrow> (u32 \<times> u32) option" where
  "handed c =
     (case c of
        Ioctl fd req (Arg_words ws) \<Rightarrow>
          if req = ISP_IOCTL_VPSS_SET_SYS_ADDR \<or> req = ISP_IOCTL_VENC_SYS_SET_ADDR then Some (ws ! 0, ws ! 2)
          else if req = ISP_IOCTL_VPSS_SET_CHN_ADDR \<or> req = ISP_IOCTL_VENC_CREATE_CHN then Some (ws ! 1, ws ! 3)
          else None
      | _ \<Rightarrow> None)"

text \<open>Every range handed over was granted before.\<close>

definition dma_ok :: "hist \<Rightarrow> bool" where
  "dma_ok h \<longleftrightarrow> (\<forall>i < length h. \<forall>p. handed (fst (h ! i)) = Some p \<longrightarrow> granted (take i h) p)"

lemma dma_ok_Nil [simp]: "dma_ok []"
  by (simp add: dma_ok_def)

lemma dma_ok_snoc: "dma_ok (h @ [(c, r)]) \<longleftrightarrow> dma_ok h \<and> (\<forall>p. handed c = Some p \<longrightarrow> granted h p)"
  by (auto simp: dma_ok_def nth_append less_Suc_eq)

lemma dma_ok_sys_h [simp]: "dma_ok (sys_h k c h) \<longleftrightarrow> dma_ok h \<and> (\<forall>p. handed c = Some p \<longrightarrow> granted h p)"
  by (simp add: sys_h_def sys_def dma_ok_snoc)

lemma handed_simps [simp]:
  "handed (Ioctl fd ISP_IOCTL_VPSS_SET_SYS_ADDR (Arg_words ws)) = Some (ws ! 0, ws ! 2)"
  "handed (Ioctl fd ISP_IOCTL_VENC_SYS_SET_ADDR (Arg_words ws)) = Some (ws ! 0, ws ! 2)"
  "handed (Ioctl fd ISP_IOCTL_VPSS_SET_CHN_ADDR (Arg_words ws)) = Some (ws ! 1, ws ! 3)"
  "handed (Ioctl fd ISP_IOCTL_VENC_CREATE_CHN (Arg_words ws)) = Some (ws ! 1, ws ! 3)"
  "handed (Ioctl fd ISP_IOCTL_VPSS_GET_SYS_SIZE a) = None" "handed (Ioctl fd ISP_IOCTL_VPSS_GET_CHN_SIZE a) = None"
  "handed (Ioctl fd ISP_IOCTL_VPSS_SET_VI_ATTR a) = None" "handed (Ioctl fd ISP_IOCTL_VPSS_ENABLE a) = None"
  "handed (Ioctl fd ISP_IOCTL_VPSS_SET_CHN_ATTR a) = None" "handed (Ioctl fd ISP_IOCTL_VPSS_OPEN_CHN a) = None"
  "handed (Ioctl fd ISP_IOCTL_VPSS_SET_VO_MODE a) = None" "handed (Ioctl fd ISP_IOCTL_VENC_SYS_GET_SIZE a) = None"
  "handed (Ioctl fd ISP_IOCTL_VENC_QUERY_CHN_MEM a) = None" "handed (Ioctl fd ISP_IOCTL_VENC_SET_CHN_CONFIG a) = None"
  "handed (Ioctl fd ISP_IOCTL_VENC_SET_RC_ATTR a) = None" "handed (Ioctl fd MEDIA_IOCTL_BIND a) = None"
  "handed (Ioctl fd ISP_IOCTL_VENC_START_RECV_PIC a) = None" "handed (Perror s) = None" "handed (Print s) = None"
  "handed (Ioctl fd req (Arg_bytes bs)) = None"
  by (auto simp: handed_def request_codes split: ioarg.splits)

lemma dma_ioctl_r:
  "dma_ok h \<Longrightarrow> (\<And>p. handed (Ioctl fd req a) = Some p \<Longrightarrow> granted h p) \<Longrightarrow> (\<And>r h1. dma_ok h1 \<Longrightarrow> R (g r h1)) \<Longrightarrow>
     R (case ioctl_r k fd req a h of (r, h1) \<Rightarrow> g r h1)"
  by (simp add: ioctl_r_def sys_def dma_ok_snoc)

lemma dma_ioctl_words:
  "dma_ok h \<Longrightarrow> handed (Ioctl fd req (Arg_words ws)) = None \<Longrightarrow> (\<And>r q h1. dma_ok h1 \<Longrightarrow> R (g r q h1)) \<Longrightarrow>
     R (case ioctl_words k fd req ws h of (r, q, h1) \<Rightarrow> g r q h1)"
  by (simp add: ioctl_words_def sys_def dma_ok_snoc)

lemma vmm_request_size: "get_le32 (vmm_request sz al name) 12 = sz"
  by (simp add: vmm_request_def buf_simps)

lemma dma_vmm_alloc:
  assumes "dma_ok h" and "\<And>r ph h1. dma_ok h1 \<Longrightarrow> (0 \<le> r \<Longrightarrow> granted h1 (ph, sz)) \<Longrightarrow> R (g r ph h1)"
  shows "R (case vmm_alloc k fd sz name h of (r, ph, h1) \<Rightarrow> g r ph h1)"
proof -
  let ?c = "Ioctl fd VMM_IOCTL_ALLOC (Arg_bytes (vmm_request sz 0x1000 name))"
  have "granted (h @ [(?c, k h ?c)]) (get_le32 (overlay (rbytes (k h ?c)) (vmm_request sz 0x1000 name)) 0, sz)" if "0 \<le> rv (k h ?c)"
    unfolding granted_def
    by (rule exI [of _ fd], rule exI [of _ "vmm_request sz 0x1000 name"], rule exI [of _ "k h ?c"]) (use that in \<open>simp add: vmm_request_size\<close>)
  then show ?thesis
    using assms(1)
    by (simp add: vmm_alloc_def ioctl_bytes_def sys_def) (intro conjI impI assms(2); simp add: dma_ok_snoc)
qed

lemmas dma_walk = dma_ioctl_r dma_ioctl_words dma_vmm_alloc ad.walk_if
lemmas dma_walk2 = dma_walk [where R = "\<lambda>x. dma_ok (snd x)"]
lemmas dma_walk3 = dma_walk [where R = "\<lambda>x. dma_ok (snd (snd x))"]

lemma dma_call: "dma_ok (snd p) \<Longrightarrow> (\<And>r h1. dma_ok h1 \<Longrightarrow> R (g r h1)) \<Longrightarrow> R (case p of (r, h1) \<Rightarrow> g r h1)"
  by (cases p) simp

lemma dma_call3: "dma_ok (snd (snd p)) \<Longrightarrow> (\<And>r s h1. dma_ok h1 \<Longrightarrow> R (g r s h1)) \<Longrightarrow> R (case p of (r, s, h1) \<Rightarrow> g r s h1)"
  by (cases p) simp

lemmas dma_call2 = dma_call [where R = "\<lambda>x. dma_ok (snd x)"] dma_call3 [where R = "\<lambda>x. dma_ok (snd x)"]

lemma granted_snoc: "granted h p \<Longrightarrow> granted (h @ xs) p"
  by (auto simp: granted_def)

lemma ioctl_each_dma:
  "dma_ok h \<Longrightarrow> \<forall>ws \<in> set wss. handed (Ioctl fd req (Arg_words ws)) = None \<Longrightarrow> dma_ok (snd (ioctl_each k fd req wss h))"
proof (induction wss arbitrary: h)
  case (Cons ws wss)
  from Cons.prems Cons.IH show ?case
    unfolding ioctl_each.simps Let_def by (intro dma_walk2) simp_all
qed simp

lemma vpss_chn_buffers_dma: "dma_ok h \<Longrightarrow> dma_ok (snd (vpss_chn_buffers k ifd vfd ds h))"
proof (induction ds arbitrary: h)
  case (Cons d ds)
  from Cons.prems Cons.IH show ?case
    unfolding vpss_chn_buffers.simps Let_def by (intro dma_walk2) simp_all
qed simp

lemma vpss_setup_dma: "dma_ok h \<Longrightarrow> dma_ok (snd (vpss_setup k ifd vfd h))"
  unfolding vpss_setup_def Let_def
  by (intro dma_walk2 dma_call2(1) vpss_chn_buffers_dma ioctl_each_dma) simp_all

lemma venc_sys_init_dma: "dma_ok h \<Longrightarrow> dma_ok (snd (venc_sys_init k efd vfd h))"
  unfolding venc_sys_init_def Let_def by (intro dma_walk2) simp_all

lemma venc_bind_and_start_dma: "dma_ok h \<Longrightarrow> dma_ok (snd (venc_bind_and_start k mfd efd chan h))"
  unfolding venc_bind_and_start_def Let_def by (intro dma_walk2) simp_all

lemma venc_chn_setup_dma: "dma_ok h \<Longrightarrow> dma_ok (snd (snd (venc_chn_setup k efd vfd chan w hh br outs h)))"
  unfolding venc_chn_setup_def venc_set_rc_attr_def Let_def
  by (intro dma_walk3) (simp_all add: create_chn_words_def)

lemma start_encoders_dma: "dma_ok h \<Longrightarrow> dma_ok (snd (start_encoders k bitrate mfd efd vfd ds h))"
proof (induction ds arbitrary: h)
  case (Cons d ds)
  from Cons.prems Cons.IH show ?case
    unfolding start_encoders.simps Let_def
    by (intro dma_walk2 dma_call2(2) [OF venc_chn_setup_dma] dma_call2(1) [OF venc_bind_and_start_dma]) simp_all
qed simp

text \<open>C4: No driver is handed memory it was not granted: in the set-up of the video processor, of the encoder and of
  its channels, every physical range passed to a driver is the address and the size of an earlier successful
  allocation, whatever addresses and sizes the kernel answers and wherever a call fails.\<close>
theorem hardware_memory_granted:
  assumes "dma_ok h"
  shows "dma_ok (snd (vpss_setup k ifd vfd h)) \<and> dma_ok (snd (venc_sys_init k efd vfd h)) \<and>
     dma_ok (snd (start_encoders k bitrate mfd efd vfd ds h))"
  using assms by (intro conjI vpss_setup_dma venc_sys_init_dma start_encoders_dma)

lemma hardware_memory_granted_witness:
  "dma_ok (snd (vpss_setup k_camera 4 9 [])) \<and> dma_ok (snd (start_encoders k_camera (\<lambda>_ _ _. 1024) 3 5 9 VPSS_CHANNELS []))"
  using hardware_memory_granted [of "[]" k_camera 4 9 5 "\<lambda>_ _ _. 1024" 3 VPSS_CHANNELS] by simp

end
