(* ===== verification/Fh_Mpi.thy ===== *)
theory Fh_Mpi
  imports Sensor_Bus
begin

text \<open>
  \<open>sdk/lib/fh_mpi.c\<close>: the small library that wraps the media drivers, the sensor's bus, the watchdog and the
  GPIO pins. Its four global descriptors are the record \<open>fh_mpi\<close>. A pointer the caller may leave null is an
  option; an outer \<open>None\<close> is an access outside an array, or reading a variable nothing was stored in.
\<close>

section \<open>Request codes and state\<close>

definition VPSS_SET_VI_ATTR :: u32 where "VPSS_SET_VI_ATTR = 0xC0F4696A"
definition VPSS_ENABLE :: u32 where "VPSS_ENABLE = 0xC0046971"
definition VPSS_SET_CHN_ATTR :: u32 where "VPSS_SET_CHN_ATTR = 0xC00C696C"
definition VPSS_OPEN_CHN :: u32 where "VPSS_OPEN_CHN = 0xC0046973"
definition VPSS_SET_VO_MODE :: u32 where "VPSS_SET_VO_MODE = 0xC00869A4"
definition VPSS_SET_FRAMECTRL :: u32 where "VPSS_SET_FRAMECTRL = 0xC0086978"
definition VPSS_GET_CHN_FRAME :: u32 where "VPSS_GET_CHN_FRAME = 0xC0686970"
definition VENC_GET_STREAM :: u32 where "VENC_GET_STREAM = 0xC1A04D05"
definition VENC_CREATE_CHN :: u32 where "VENC_CREATE_CHN = 0xC01C5403"
definition I2C_SET_ADDR_MODE :: u32 where "I2C_SET_ADDR_MODE = 0x0704"
definition I2C_SET_SLAVE :: u32 where "I2C_SET_SLAVE = 0x0706"
definition WDIOC_SETTIMEOUT :: u32 where "WDIOC_SETTIMEOUT = 0xC0045706"
definition WDIOC_SETOPTIONS :: u32 where "WDIOC_SETOPTIONS = 0x80045704"
definition WDIOC_KEEPALIVE :: u32 where "WDIOC_KEEPALIVE = 0x80045705"

record fh_mpi =
  g_media_fd :: int
  g_audio_fd :: int
  mpi_i2c_fd :: int
  g_wdt_fd :: int

definition fh_mpi_0 :: fh_mpi where
  "fh_mpi_0 = \<lparr>g_media_fd = - 1, g_audio_fd = - 1, mpi_i2c_fd = - 1, g_wdt_fd = - 1\<rparr>"

section \<open>System\<close>

definition fh_sys_init :: "kernel \<Rightarrow> fh_mpi \<Rightarrow> hist \<Rightarrow> int \<times> fh_mpi \<times> hist" where
  "fh_sys_init k st h =
     (if 0 \<le> g_media_fd st then (0, st, h)
      else
        let (f, h) = sys k (Open ''/dev/media_process'' O_RDWR) h;
            st = st\<lparr>g_media_fd := rv f\<rparr>
        in if rv f < 0 then (- 1, st, sys_h k (Perror ''fh_sys_init: open /dev/media_process'') h)
           else (0, st, h))"

definition fh_sys_exit :: "kernel \<Rightarrow> fh_mpi \<Rightarrow> hist \<Rightarrow> fh_mpi \<times> hist" where
  "fh_sys_exit k st h =
     (if 0 \<le> g_media_fd st then (st\<lparr>g_media_fd := - 1\<rparr>, sys_h k (Close (g_media_fd st)) h) else (st, h))"

section \<open>Video processor\<close>

definition fh_vpss_set_vi_attr :: "kernel \<Rightarrow> fh_mpi \<Rightarrow> u32 \<Rightarrow> u32 \<Rightarrow> hist \<Rightarrow> int \<times> hist" where
  "fh_vpss_set_vi_attr k st width height h =
     ioctl_r k (g_media_fd st) VPSS_SET_VI_ATTR (Arg_words [width, height]) h"

definition fh_vpss_enable :: "kernel \<Rightarrow> fh_mpi \<Rightarrow> u32 \<Rightarrow> hist \<Rightarrow> int \<times> hist" where
  "fh_vpss_enable k st grp h = ioctl_r k (g_media_fd st) VPSS_ENABLE (Arg_words [grp]) h"

definition fh_vpss_set_chn_attr :: "kernel \<Rightarrow> fh_mpi \<Rightarrow> u32 \<Rightarrow> u32 \<Rightarrow> u32 \<Rightarrow> hist \<Rightarrow> int \<times> hist" where
  "fh_vpss_set_chn_attr k st chn width height h =
     ioctl_r k (g_media_fd st) VPSS_SET_CHN_ATTR (Arg_words [chn, width, height]) h"

definition fh_vpss_open_chn :: "kernel \<Rightarrow> fh_mpi \<Rightarrow> u32 \<Rightarrow> hist \<Rightarrow> int \<times> hist" where
  "fh_vpss_open_chn k st chn h = ioctl_r k (g_media_fd st) VPSS_OPEN_CHN (Arg_words [chn]) h"

definition fh_vpss_set_vo_mode :: "kernel \<Rightarrow> fh_mpi \<Rightarrow> u32 \<Rightarrow> u32 \<Rightarrow> hist \<Rightarrow> int \<times> hist" where
  "fh_vpss_set_vo_mode k st chn mode h = ioctl_r k (g_media_fd st) VPSS_SET_VO_MODE (Arg_words [chn, mode]) h"

definition fh_vpss_set_framectrl :: "kernel \<Rightarrow> fh_mpi \<Rightarrow> u32 \<Rightarrow> u16 \<Rightarrow> u16 \<Rightarrow> hist \<Rightarrow> int \<times> hist" where
  "fh_vpss_set_framectrl k st chn src_rate dst_rate h =
     ioctl_r k (g_media_fd st) VPSS_SET_FRAMECTRL
       (Arg_words [chn, push_bit 16 (ucast dst_rate) OR ucast src_rate]) h"

text \<open>The words of the driver's answer, in the order the caller receives them.\<close>

definition frame_words :: "nat list" where
  "frame_words = [2, 3, 1, 4, 5, 6, 7, 8, 9, 10, 16, 17]"

definition fh_vpss_get_frame ::
  "kernel \<Rightarrow> fh_mpi \<Rightarrow> u32 \<Rightarrow> u32 list option \<Rightarrow> u32 \<Rightarrow> hist \<Rightarrow> (int \<times> u32 list option \<times> hist) option" where
  "fh_vpss_get_frame k st chn frame_out timeout_ms h =
     (let param = (replicate 26 0)[0 := chn, 24 := timeout_ms];
          (ret, param, h) = ioctl_words k (g_media_fd st) VPSS_GET_CHN_FRAME param h
      in case frame_out of
           None \<Rightarrow> Some (ret, None, h)
         | Some out \<Rightarrow>
             if ret \<noteq> 0 then Some (ret, Some out, h)
             else if length out < 12 then None
             else Some (ret, Some (overlay (map (\<lambda>i. param ! i) frame_words) out), h))"

section \<open>Encoder\<close>

definition fh_venc_get_stream ::
  "kernel \<Rightarrow> fh_mpi \<Rightarrow> u32 \<Rightarrow> u32 list option \<Rightarrow> hist \<Rightarrow> (int \<times> u32 list option \<times> hist) option" where
  "fh_venc_get_stream k st chn stream_out h =
     (let buf = (replicate 105 0)[0 := chn];
          (ret, buf, h) = ioctl_words k (g_media_fd st) VENC_GET_STREAM buf h
      in case stream_out of
           None \<Rightarrow> Some (ret, None, h)
         | Some out \<Rightarrow>
             if ret \<noteq> 0 then Some (ret, Some out, h)
             else if length out < 105 then None
             else Some (ret, Some (overlay buf out), h))"

definition fh_venc_create_chn :: "kernel \<Rightarrow> fh_mpi \<Rightarrow> u32 \<Rightarrow> u32 \<Rightarrow> u32 \<Rightarrow> u32 \<Rightarrow> hist \<Rightarrow> int \<times> hist" where
  "fh_venc_create_chn k st chn width height codec_type h =
     ioctl_r k (g_media_fd st) VENC_CREATE_CHN (Arg_words [chn, width, height, codec_type, 0, 0, 0]) h"

section \<open>Sensor\<close>

definition fh_sensor_init :: "kernel \<Rightarrow> fh_mpi \<Rightarrow> u8 \<Rightarrow> int \<Rightarrow> hist \<Rightarrow> int \<times> fh_mpi \<times> hist" where
  "fh_sensor_init k st slave_addr_7bit addr_mode h =
     (let (f, h) = sys k (Open ''/dev/i2c-0'' O_RDWR_NONBLOCK) h;
          st = st\<lparr>mpi_i2c_fd := rv f\<rparr>
      in if rv f < 0 then (- 1, st, sys_h k (Perror ''fh_sensor_init: open /dev/i2c-0'') h)
         else
           let (r, h) = ioctl_r k (rv f) I2C_SET_ADDR_MODE (Arg_val 0) h
           in if r < 0 then (- 1, st, sys_h k (Perror ''fh_sensor_init: set addr mode'') h)
              else
                let (r, h) = ioctl_r k (rv f) I2C_SET_SLAVE (Arg_val (ucast slave_addr_7bit)) h
                in if r < 0 then (- 1, st, sys_h k (Perror ''fh_sensor_init: set slave address'') h)
                   else (0, st, h))"

definition fh_msg :: "u16 \<Rightarrow> u8 \<Rightarrow> u16 \<Rightarrow> fh_i2c_msg" where
  "fh_msg reg val len =
     \<lparr>slave_addr = 0x35, msg_pad1 = 0, addr_len = 2, msg_pad2 = 0,
      msg_buf = [ucast (drop_bit 8 reg AND 0xFF), ucast (reg AND 0xFF), val, 0], msg_pad3 = 0, data_len = len,
      msg_pad4 = 0\<rparr>"

definition fh_sensor_write :: "kernel \<Rightarrow> fh_mpi \<Rightarrow> u16 \<Rightarrow> u8 \<Rightarrow> hist \<Rightarrow> int \<times> hist" where
  "fh_sensor_write k st reg val h = ioctl_r k (mpi_i2c_fd st) I2C_RDWR (Arg_fh_i2c [fh_msg reg val 3] 1) h"

text \<open>The transfer claims two messages; one is there.\<close>

definition fh_sensor_read :: "kernel \<Rightarrow> fh_mpi \<Rightarrow> u16 \<Rightarrow> u8 option \<Rightarrow> hist \<Rightarrow> int \<times> u8 option \<times> hist" where
  "fh_sensor_read k st reg val h =
     (let m = fh_msg reg 0 1;
          (r, h) = sys k (Ioctl (mpi_i2c_fd st) I2C_RDWR (Arg_fh_i2c [m] 2)) h;
          buf = overlay (rbytes r) (msg_buf m)
      in (rv r, case val of None \<Rightarrow> None | Some v \<Rightarrow> Some (if 0 \<le> rv r then buf ! 2 else v), h))"

definition fh_sensor_close :: "kernel \<Rightarrow> fh_mpi \<Rightarrow> hist \<Rightarrow> fh_mpi \<times> hist" where
  "fh_sensor_close k st h =
     (if 0 \<le> mpi_i2c_fd st then (st\<lparr>mpi_i2c_fd := - 1\<rparr>, sys_h k (Close (mpi_i2c_fd st)) h) else (st, h))"

section \<open>Watchdog\<close>

definition fh_wdt_open :: "kernel \<Rightarrow> fh_mpi \<Rightarrow> hist \<Rightarrow> int \<times> fh_mpi \<times> hist" where
  "fh_wdt_open k st h =
     (let (f, h) = sys k (Open ''/dev/watchdog'' O_RDWR) h;
          st = st\<lparr>g_wdt_fd := rv f\<rparr>
      in if rv f < 0 then (- 1, st, h)
         else
           let h = sys_h k (Ioctl (rv f) WDIOC_SETTIMEOUT (Arg_words [30])) h
           in (0, st, sys_h k (Ioctl (rv f) WDIOC_SETOPTIONS (Arg_words [2])) h))"

definition fh_wdt_feed :: "kernel \<Rightarrow> fh_mpi \<Rightarrow> hist \<Rightarrow> int \<times> hist" where
  "fh_wdt_feed k st h =
     (if g_wdt_fd st < 0 then (- 1, h) else ioctl_r k (g_wdt_fd st) WDIOC_KEEPALIVE (Arg_val 0) h)"

definition fh_wdt_close :: "kernel \<Rightarrow> fh_mpi \<Rightarrow> hist \<Rightarrow> fh_mpi \<times> hist" where
  "fh_wdt_close k st h =
     (if 0 \<le> g_wdt_fd st then (st\<lparr>g_wdt_fd := - 1\<rparr>, sys_h k (Close (g_wdt_fd st)) h) else (st, h))"

section \<open>Pins\<close>

text \<open>
  Pin numbers and levels are C \<open>int\<close>s. What \<open>snprintf\<close> stores in a buffer of sixteen bytes is written with
  the length it returned, so a longer text would be read past the buffer.
\<close>

definition fh_gpio_export :: "kernel \<Rightarrow> u32 \<Rightarrow> hist \<Rightarrow> (int \<times> hist) option" where
  "fh_gpio_export k gpio h =
     (let (f, h) = sys k (Open ''/sys/class/gpio/export'' O_WRONLY) h
      in if rv f < 0 then Some (- 1, h)
         else do {
           b \<leftarrow> fmt_buf 16 (dec_int (sint gpio));
           Some (0, sys_h k (Close (rv f)) (sys_h k (Write (rv f) (bytes_of b)) h))
         })"

definition gpio_path :: "u32 \<Rightarrow> string \<Rightarrow> string" where
  "gpio_path gpio name = trunc 64 (''/sys/class/gpio/GPIO'' @ dec_int (sint gpio) @ ''/'' @ name)"

definition gpio_store :: "kernel \<Rightarrow> string \<Rightarrow> string \<Rightarrow> hist \<Rightarrow> int \<times> hist" where
  "gpio_store k path s h =
     (let (f, h) = sys k (Open path O_WRONLY) h
      in if rv f < 0 then (- 1, h)
         else (0, sys_h k (Close (rv f)) (sys_h k (Write (rv f) (bytes_of s)) h)))"

definition fh_gpio_set_direction :: "kernel \<Rightarrow> u32 \<Rightarrow> u32 \<Rightarrow> hist \<Rightarrow> int \<times> hist" where
  "fh_gpio_set_direction k gpio output h =
     gpio_store k (gpio_path gpio ''direction'') (if output \<noteq> 0 then ''out'' else ''in'') h"

definition fh_gpio_write :: "kernel \<Rightarrow> u32 \<Rightarrow> u32 \<Rightarrow> hist \<Rightarrow> int \<times> hist" where
  "fh_gpio_write k gpio val h = gpio_store k (gpio_path gpio ''value'') (if val \<noteq> 0 then ''1'' else ''0'') h"

text \<open>A \<open>char\<close> is unsigned on this target. When nothing was read the byte is indeterminate.\<close>

definition fh_gpio_read :: "kernel \<Rightarrow> u32 \<Rightarrow> hist \<Rightarrow> (int \<times> hist) option" where
  "fh_gpio_read k gpio h =
     (let (f, h) = sys k (Open (gpio_path gpio ''value'') O_RDONLY) h
      in if rv f < 0 then Some (- 1, h)
         else
           let (r, h) = sys k (Read (rv f) 1) h;
               h = sys_h k (Close (rv f)) h
           in case rbytes r of [] \<Rightarrow> None | b # _ \<Rightarrow> Some (uint b - 48, h))"

definition fh_sensor_reset :: "kernel \<Rightarrow> hist \<Rightarrow> (int \<times> hist) option" where
  "fh_sensor_reset k h =
     do {
       (_, h) \<leftarrow> fh_gpio_export k 13 h;
       let h = snd (fh_gpio_set_direction k 13 1 h);
       let h = snd (fh_gpio_write k 13 1 h);
       let h = sys_h k (Usleep 100000) h;
       let h = snd (fh_gpio_write k 13 0 h);
       let h = sys_h k (Usleep 100000) h;
       let h = snd (fh_gpio_write k 13 1 h);
       Some (0, h)
     }"

end
