(* ===== verification/Fh_Mpi_Props.thy ===== *)
theory Fh_Mpi_Props
  imports Fh_Mpi
begin

text \<open>
  What a client of \<open>sdk/lib/fh_mpi.c\<close> can rely on: the descriptors the library holds over any sequence of its
  functions, the arguments it hands to the drivers, and the pulse that resets the sensor.
\<close>

section \<open>Any sequence of the functions of \<open>fh_mpi.h\<close>\<close>

datatype mpi_op =
    Sys_init
  | Sys_exit
  | Vpss_set_vi_attr u32 u32
  | Vpss_enable u32
  | Vpss_set_chn_attr u32 u32 u32
  | Vpss_open_chn u32
  | Vpss_set_vo_mode u32 u32
  | Vpss_set_framectrl u32 u16 u16
  | Vpss_get_frame u32 "u32 list option" u32
  | Venc_get_stream u32 "u32 list option"
  | Venc_create_chn u32 u32 u32 u32
  | Sensor_init u8 int
  | Sensor_write u16 u8
  | Sensor_read u16 "u8 option"
  | Sensor_close
  | Sensor_reset
  | Wdt_open
  | Wdt_feed
  | Wdt_close
  | Gpio_export u32
  | Gpio_set_direction u32 u32
  | Gpio_write u32 u32
  | Gpio_read u32

fun mpi_step :: "kernel \<Rightarrow> mpi_op \<Rightarrow> fh_mpi \<Rightarrow> hist \<Rightarrow> (fh_mpi \<times> hist) option" where
  "mpi_step k Sys_init st h = (let (r, st, h) = fh_sys_init k st h in Some (st, h))"
| "mpi_step k Sys_exit st h = Some (fh_sys_exit k st h)"
| "mpi_step k (Vpss_set_vi_attr w v) st h = Some (st, snd (fh_vpss_set_vi_attr k st w v h))"
| "mpi_step k (Vpss_enable g) st h = Some (st, snd (fh_vpss_enable k st g h))"
| "mpi_step k (Vpss_set_chn_attr c w v) st h = Some (st, snd (fh_vpss_set_chn_attr k st c w v h))"
| "mpi_step k (Vpss_open_chn c) st h = Some (st, snd (fh_vpss_open_chn k st c h))"
| "mpi_step k (Vpss_set_vo_mode c m) st h = Some (st, snd (fh_vpss_set_vo_mode k st c m h))"
| "mpi_step k (Vpss_set_framectrl c s d) st h = Some (st, snd (fh_vpss_set_framectrl k st c s d h))"
| "mpi_step k (Vpss_get_frame c out t) st h = map_option (\<lambda>(r, out, h). (st, h)) (fh_vpss_get_frame k st c out t h)"
| "mpi_step k (Venc_get_stream c out) st h = map_option (\<lambda>(r, out, h). (st, h)) (fh_venc_get_stream k st c out h)"
| "mpi_step k (Venc_create_chn c w v t) st h = Some (st, snd (fh_venc_create_chn k st c w v t h))"
| "mpi_step k (Sensor_init a m) st h = (let (r, st, h) = fh_sensor_init k st a m h in Some (st, h))"
| "mpi_step k (Sensor_write r v) st h = Some (st, snd (fh_sensor_write k st r v h))"
| "mpi_step k (Sensor_read r v) st h = Some (st, snd (snd (fh_sensor_read k st r v h)))"
| "mpi_step k Sensor_close st h = Some (fh_sensor_close k st h)"
| "mpi_step k Sensor_reset st h = map_option (\<lambda>(r, h). (st, h)) (fh_sensor_reset k h)"
| "mpi_step k Wdt_open st h = (let (r, st, h) = fh_wdt_open k st h in Some (st, h))"
| "mpi_step k Wdt_feed st h = Some (st, snd (fh_wdt_feed k st h))"
| "mpi_step k Wdt_close st h = Some (fh_wdt_close k st h)"
| "mpi_step k (Gpio_export g) st h = map_option (\<lambda>(r, h). (st, h)) (fh_gpio_export k g h)"
| "mpi_step k (Gpio_set_direction g d) st h = Some (st, snd (fh_gpio_set_direction k g d h))"
| "mpi_step k (Gpio_write g v) st h = Some (st, snd (fh_gpio_write k g v h))"
| "mpi_step k (Gpio_read g) st h = map_option (\<lambda>(r, h). (st, h)) (fh_gpio_read k g h)"

fun mpi_run :: "kernel \<Rightarrow> mpi_op list \<Rightarrow> fh_mpi \<Rightarrow> hist \<Rightarrow> (fh_mpi \<times> hist) option" where
  "mpi_run k [] st h = Some (st, h)"
| "mpi_run k (op # ops) st h = do { (st, h) \<leftarrow> mpi_step k op st h; mpi_run k ops st h }"

lemma mpi_run_append:
  "mpi_run k (ops @ ops') st h = do { (st, h) \<leftarrow> mpi_run k ops st h; mpi_run k ops' st h }"
  by (induction k ops st h rule: mpi_run.induct) (auto split: bind_splits)

text \<open>
  What the caller owes: arrays as large as the functions fill them. What the kernel owes: a pin that can be
  opened can be read. A client that respects the descriptors opens the bus and the watchdog only when they
  are closed; the library checks this for \<open>/dev/media_process\<close> only, and what its globals held is lost
  when they are overwritten.
\<close>

fun arrays_fit :: "mpi_op \<Rightarrow> bool" where
  "arrays_fit (Vpss_get_frame c (Some out) t) \<longleftrightarrow> 12 \<le> length out"
| "arrays_fit (Venc_get_stream c (Some out)) \<longleftrightarrow> 105 \<le> length out"
| "arrays_fit _ \<longleftrightarrow> True"

definition pins_answer :: "kernel \<Rightarrow> bool" where
  "pins_answer k \<longleftrightarrow> (\<forall>h fd. rbytes (k h (Read fd 1)) \<noteq> [])"

fun closed_before :: "mpi_op \<Rightarrow> fh_mpi \<Rightarrow> bool" where
  "closed_before (Sensor_init a m) st \<longleftrightarrow> mpi_i2c_fd st < 0"
| "closed_before Wdt_open st \<longleftrightarrow> g_wdt_fd st < 0"
| "closed_before _ st \<longleftrightarrow> True"

fun tidy :: "kernel \<Rightarrow> mpi_op list \<Rightarrow> fh_mpi \<Rightarrow> hist \<Rightarrow> bool" where
  "tidy k [] st h \<longleftrightarrow> True"
| "tidy k (op # ops) st h \<longleftrightarrow> closed_before op st \<and>
     (case mpi_step k op st h of None \<Rightarrow> True | Some (st, h) \<Rightarrow> tidy k ops st h)"

definition held_mpi :: "fh_mpi \<Rightarrow> int \<Rightarrow> int" where
  "held_mpi st f = held_fd (g_media_fd st) f + held_fd (mpi_i2c_fd st) f + held_fd (g_wdt_fd st) f"

fun overwritten :: "mpi_op \<Rightarrow> fh_mpi \<Rightarrow> int \<Rightarrow> int" where
  "overwritten (Sensor_init a m) st f = held_fd (mpi_i2c_fd st) f"
| "overwritten Wdt_open st f = held_fd (g_wdt_fd st) f"
| "overwritten _ st f = 0"

text \<open>How often a run loses a descriptor.\<close>

fun lost :: "kernel \<Rightarrow> mpi_op list \<Rightarrow> fh_mpi \<Rightarrow> hist \<Rightarrow> int \<Rightarrow> int" where
  "lost k [] st h f = 0"
| "lost k (op # ops) st h f = overwritten op st f +
     (case mpi_step k op st h of None \<Rightarrow> 0 | Some (st, h) \<Rightarrow> lost k ops st h f)"

lemma overwritten_nonneg: "0 \<le> overwritten op st f"
  by (cases op) (simp_all add: held_fd_def)

lemma overwritten_closed: "(\<forall>f. overwritten op st f = 0) \<longleftrightarrow> closed_before op st"
  by (cases op) (auto simp: held_fd_def not_less [symmetric])

lemma lost_nonneg: "0 \<le> lost k ops st h f"
  by (induction k ops st h f rule: lost.induct) (auto simp: overwritten_nonneg split: option.splits)

text \<open>A run loses nothing exactly when every descriptor was closed before it was opened again.\<close>

lemma lost_tidy: "(\<forall>f. lost k ops st h f = 0) \<longleftrightarrow> tidy k ops st h"
proof (induction k ops st h rule: tidy.induct)
  case (2 k op ops st h)
  have z: "overwritten op st f + x = 0 \<longleftrightarrow> overwritten op st f = 0 \<and> x = 0" if "0 \<le> x" for f x
    using that overwritten_nonneg [of op st f] by linarith
  show ?case
  proof (cases "mpi_step k op st h")
    case None
    with overwritten_closed [of op st] show ?thesis by simp
  next
    case (Some a)
    then obtain st1 h1 where 1: "mpi_step k op st h = Some (st1, h1)" by (cases a) auto
    with 2 [OF this refl] overwritten_closed [of op st] show ?thesis by (auto simp: z [OF lost_nonneg])
  qed
qed simp

definition mpi_books :: "(int \<Rightarrow> int) \<Rightarrow> fh_mpi \<Rightarrow> hist \<Rightarrow> fh_mpi \<Rightarrow> hist \<Rightarrow> bool" where
  "mpi_books l st h st' h' \<longleftrightarrow>
     g_audio_fd st' = g_audio_fd st \<and> (\<forall>f. live h' f - held_mpi st' f = live h f - held_mpi st f + l f)"

lemma mpi_books_trans:
  "mpi_books l st h st1 h1 \<Longrightarrow> mpi_books l' st1 h1 st2 h2 \<Longrightarrow> mpi_books (\<lambda>f. l f + l' f) st h st2 h2"
  by (simp add: mpi_books_def)

section \<open>One function at a time\<close>

lemma length_gpio: "length (dec_int (sint (g :: u32))) \<le> 11"
proof -
  have "- (2 ^ 31) \<le> sint g" "sint g < 2 ^ 31" using sint_ge [of g] sint_lt [of g] by simp_all
  then have "nat (- sint g) < 10 ^ 10" "nat (sint g) < 10 ^ 10" by auto
  then have "length (dec (nat (- sint g))) \<le> 10" "length (dec (nat (sint g))) \<le> 10"
    by (auto intro: length_dec_le)
  then show ?thesis by (simp add: dec_int_def)
qed

lemma gpio_fmt [simp]: "fmt_buf 16 (dec_int (sint (g :: u32))) = Some (dec_int (sint g))"
  using length_gpio [of g] by (intro fmt_buf_fits) simp


lemma gpio_store_live [simp]: "live (snd (gpio_store k path s h)) f = live h f"
  by (simp add: gpio_store_def sys_def held_fd_def Let_def)

lemma gpio_export_live: "fh_gpio_export k g h = Some (r, h') \<Longrightarrow> live h' f = live h f"
  by (auto simp: fh_gpio_export_def sys_def Let_def split: if_splits)

lemma gpio_export_ok: "\<exists>r h'. fh_gpio_export k g h = Some (r, h')"
  by (simp add: fh_gpio_export_def sys_def Let_def)

text \<open>The reset of the sensor after the pin was exported, which may fail without being noticed.\<close>

definition reset_pulse :: "kernel \<Rightarrow> hist \<Rightarrow> hist" where
  "reset_pulse k h =
     (let h = snd (fh_gpio_set_direction k 13 1 h);
          h = snd (fh_gpio_write k 13 1 h);
          h = sys_h k (Usleep 100000) h;
          h = snd (fh_gpio_write k 13 0 h);
          h = sys_h k (Usleep 100000) h
      in snd (fh_gpio_write k 13 1 h))"

lemma sensor_reset_eq:
  "\<exists>r h1. fh_gpio_export k 13 h = Some (r, h1) \<and> fh_sensor_reset k h = Some (0, reset_pulse k h1)"
  using gpio_export_ok [of k 13 h] by (auto simp: fh_sensor_reset_def reset_pulse_def Let_def)

lemma reset_pulse_live: "live (reset_pulse k h) f = live h f"
  by (simp add: reset_pulse_def Let_def fh_gpio_write_def fh_gpio_set_direction_def)

lemma sensor_reset_live: "fh_sensor_reset k h = Some (r, h') \<Longrightarrow> live h' f = live h f"
  using sensor_reset_eq [of k h] gpio_export_live [of k 13 h] by (auto simp: reset_pulse_live)

lemma gpio_read_live: "fh_gpio_read k g h = Some (r, h') \<Longrightarrow> live h' f = live h f"
  by (auto simp: fh_gpio_read_def sys_def held_fd_def Let_def split: if_splits list.splits)

lemmas mpi_defs =
  fh_sys_init_def fh_sys_exit_def fh_vpss_set_vi_attr_def fh_vpss_enable_def fh_vpss_set_chn_attr_def fh_vpss_open_chn_def
  fh_vpss_set_vo_mode_def fh_vpss_set_framectrl_def fh_vpss_get_frame_def fh_venc_get_stream_def fh_venc_create_chn_def
  fh_sensor_init_def fh_sensor_write_def fh_sensor_read_def fh_sensor_close_def fh_wdt_open_def fh_wdt_feed_def
  fh_wdt_close_def fh_gpio_set_direction_def fh_gpio_write_def

lemma ioctl_live [simp]: "live (snd (ioctl_r k fd req a h)) f = live h f"
  by (simp add: ioctl_eq)

lemma media_books:
  "mpi_books (\<lambda>_. 0) st h (fst (snd (fh_sys_init k st h))) (snd (snd (fh_sys_init k st h)))"
  "mpi_books (\<lambda>_. 0) st h (fst (fh_sys_exit k st h)) (snd (fh_sys_exit k st h))"
  by (auto simp: fh_sys_init_def fh_sys_exit_def mpi_books_def held_mpi_def held_fd_def sys_def Let_def)

lemma sensor_books:
  "mpi_books (held_fd (mpi_i2c_fd st)) st h (fst (snd (fh_sensor_init k st a m h))) (snd (snd (fh_sensor_init k st a m h)))"
  by (simp add: fh_sensor_init_def mpi_books_def held_mpi_def held_fd_def sys_def ioctl_eq Let_def)

lemma sensor_close_books: "mpi_books (\<lambda>_. 0) st h (fst (fh_sensor_close k st h)) (snd (fh_sensor_close k st h))"
  by (auto simp: fh_sensor_close_def mpi_books_def held_mpi_def held_fd_def)

lemma wdt_books:
  "mpi_books (held_fd (g_wdt_fd st)) st h (fst (snd (fh_wdt_open k st h))) (snd (snd (fh_wdt_open k st h)))"
  by (simp add: fh_wdt_open_def mpi_books_def held_mpi_def held_fd_def sys_def Let_def)

lemma wdt_close_books: "mpi_books (\<lambda>_. 0) st h (fst (fh_wdt_close k st h)) (snd (fh_wdt_close k st h))"
  by (auto simp: fh_wdt_close_def mpi_books_def held_mpi_def held_fd_def)

lemma get_frame_live: "fh_vpss_get_frame k st c out t h = Some (r, out', h') \<Longrightarrow> live h' f = live h f"
  by (auto simp: fh_vpss_get_frame_def ioctl_words_eq Let_def split: option.splits if_splits)

lemma get_stream_live: "fh_venc_get_stream k st c out h = Some (r, out', h') \<Longrightarrow> live h' f = live h f"
  by (auto simp: fh_venc_get_stream_def ioctl_words_eq Let_def split: option.splits if_splits)

lemma word_calls_live [simp]:
  "live (snd (fh_vpss_set_vi_attr k st w v h)) f = live h f" "live (snd (fh_vpss_enable k st g h)) f = live h f"
  "live (snd (fh_vpss_set_chn_attr k st c w v h)) f = live h f" "live (snd (fh_vpss_open_chn k st c h)) f = live h f"
  "live (snd (fh_vpss_set_vo_mode k st c m h)) f = live h f" "live (snd (fh_vpss_set_framectrl k st c x y h)) f = live h f"
  "live (snd (fh_venc_create_chn k st c w v t h)) f = live h f" "live (snd (fh_sensor_write k st r b h)) f = live h f"
  "live (snd (snd (fh_sensor_read k st r ob h))) f = live h f" "live (snd (fh_wdt_feed k st h)) f = live h f"
  "live (snd (fh_gpio_set_direction k g d h)) f = live h f" "live (snd (fh_gpio_write k g d h)) f = live h f"
  by (simp_all add: mpi_defs sys_def Let_def)

text \<open>The functions that open or close something; every other one leaves state and books alone.\<close>

fun opens_or_closes :: "mpi_op \<Rightarrow> bool" where
  "opens_or_closes Sys_init \<longleftrightarrow> True"
| "opens_or_closes Sys_exit \<longleftrightarrow> True"
| "opens_or_closes (Sensor_init a m) \<longleftrightarrow> True"
| "opens_or_closes Sensor_close \<longleftrightarrow> True"
| "opens_or_closes Wdt_open \<longleftrightarrow> True"
| "opens_or_closes Wdt_close \<longleftrightarrow> True"
| "opens_or_closes _ \<longleftrightarrow> False"

lemma mpi_step_quiet:
  assumes "mpi_step k op st h = Some (st', h')" and "\<not> opens_or_closes op"
  shows "st' = st \<and> live h' f = live h f"
  using assms
  by (cases op)
    (force simp del: live_append simp: get_frame_live get_stream_live sensor_reset_live gpio_export_live gpio_read_live)+

lemma mpi_step_books:
  assumes "mpi_step k op st h = Some (st', h')"
  shows "mpi_books (overwritten op st) st h st' h'"
proof (cases "opens_or_closes op")
  case False
  then have "overwritten op st f = 0" for f by (cases op) simp_all
  with mpi_step_quiet [OF assms False] show ?thesis by (simp add: mpi_books_def)
next
  case True
  have "overwritten (Sensor_init a m) st = held_fd (mpi_i2c_fd st)" "overwritten Wdt_open st = held_fd (g_wdt_fd st)"
    "overwritten Sys_init st = (\<lambda>_. 0)" "overwritten Sys_exit st = (\<lambda>_. 0)" "overwritten Sensor_close st = (\<lambda>_. 0)"
    "overwritten Wdt_close st = (\<lambda>_. 0)" for a m by (simp_all add: fun_eq_iff)
  with True show ?thesis
    using assms media_books [of st h k] sensor_books [of st h k] sensor_close_books [of st h k] wdt_books [of st h k]
      wdt_close_books [of st h k]
    by (cases op) (auto simp: Let_def case_prod_beta prod_eq_iff)
qed

lemma mpi_run_books: "mpi_run k ops st h = Some (st', h') \<Longrightarrow> mpi_books (lost k ops st h) st h st' h'"
proof (induction k ops st h rule: mpi_run.induct)
  case (2 k op ops st h)
  from "2.prems"(1) obtain st1 h1 where 1: "mpi_step k op st h = Some (st1, h1)" "mpi_run k ops st1 h1 = Some (st', h')"
    by (auto simp: bind_eq_Some_conv)
  have "lost k (op # ops) st h = (\<lambda>f. overwritten op st f + lost k ops st1 h1 f)" by (simp add: fun_eq_iff 1(1))
  with mpi_books_trans [OF mpi_step_books [OF 1(1)] "2.IH" [OF 1(1) refl 1(2)]] show ?case by simp
qed (simp add: mpi_books_def)

lemma gpio_read_ok:
  assumes "pins_answer k"
  shows "\<exists>r h'. fh_gpio_read k g h = Some (r, h')"
proof -
  define f where "f = k h (Open (gpio_path g ''value'') O_RDONLY)"
  define h1 where "h1 = h @ [(Open (gpio_path g ''value'') O_RDONLY, f)]"
  obtain b bs where "rbytes (k h1 (Read (rv f) 1)) = b # bs"
    using assms unfolding pins_answer_def neq_Nil_conv by blast
  then show ?thesis
    unfolding fh_gpio_read_def sys_def Let_def prod.case f_def [symmetric] h1_def [symmetric] by simp
qed

lemma get_frame_ok: "12 \<le> length out \<Longrightarrow> \<exists>x. fh_vpss_get_frame k st c (Some out) t h = Some x"
  by (simp add: fh_vpss_get_frame_def ioctl_words_eq Let_def)

lemma get_stream_ok: "105 \<le> length out \<Longrightarrow> \<exists>x. fh_venc_get_stream k st c (Some out) h = Some x"
  by (simp add: fh_venc_get_stream_def ioctl_words_eq Let_def)

lemma null_out_ok:
  "\<exists>x. fh_vpss_get_frame k st c None t h = Some x" "\<exists>x. fh_venc_get_stream k st c None h = Some x"
  by (simp_all add: fh_vpss_get_frame_def fh_venc_get_stream_def ioctl_words_eq Let_def)

lemma mpi_step_ok:
  assumes "arrays_fit op" and "pins_answer k"
  shows "\<exists>st' h'. mpi_step k op st h = Some (st', h')"
proof (cases op)
  case (Gpio_read g)
  with gpio_read_ok [OF assms(2), of g h] show ?thesis by auto
next
  case (Vpss_get_frame c out t)
  with assms(1) get_frame_ok [of _ k st c t h] null_out_ok(1) [of k st c t h] show ?thesis by (cases out) fastforce+
next
  case (Venc_get_stream c out)
  with assms(1) get_stream_ok [of _ k st c h] null_out_ok(2) [of k st c h] show ?thesis by (cases out) fastforce+
next
  case Sensor_reset
  with sensor_reset_eq [of k h] show ?thesis by auto
next
  case (Gpio_export g)
  with gpio_export_ok [of k g h] show ?thesis by auto
qed (simp_all only: mpi_step.simps Let_def case_prod_beta option.inject ex_simps, (blast intro: surj_pair)+)

lemma mpi_run_ok:
  "list_all arrays_fit ops \<Longrightarrow> pins_answer k \<Longrightarrow> \<exists>st' h'. mpi_run k ops st h = Some (st', h')"
proof (induction ops arbitrary: st h)
  case (Cons op ops)
  then obtain st1 h1 where "mpi_step k op st h = Some (st1, h1)" using mpi_step_ok [of op k st h] by auto
  with Cons.IH [of st1 h1] Cons.prems show ?case by simp
qed simp

section \<open>Descriptors\<close>

definition mpi_closing :: "mpi_op list" where
  "mpi_closing = [Sensor_close, Wdt_close, Sys_exit]"

lemma mpi_closing_run:
  "\<exists>st' h'. mpi_run k mpi_closing st h = Some (st', h') \<and> g_media_fd st' < 0 \<and> mpi_i2c_fd st' < 0 \<and> g_wdt_fd st' < 0"
  by (simp add: mpi_closing_def fh_sensor_close_def fh_wdt_close_def fh_sys_exit_def)

lemma lost_closing: "lost k mpi_closing st h f = 0"
  by (simp add: mpi_closing_def case_prod_beta)

text \<open>C13: The library's books on descriptors: any sequence of its functions runs, given arrays of the right size and
  pins that answer, and the descriptors open at any time are exactly the ones in its three globals (the fourth
  is never used) and those it lost, one each time the bus or the watchdog was opened while it was open. The
  three closing functions leave exactly the lost ones open, and none is lost exactly when the client closed what
  it had opened before opening it again.\<close>
theorem mpi_releases_all:
  assumes "list_all arrays_fit ops" and "pins_answer k"
  shows "\<exists>st h st' h'. mpi_run k ops fh_mpi_0 [] = Some (st, h) \<and> g_audio_fd st = - 1 \<and>
     (\<forall>f. live h f = held_mpi st f + lost k ops fh_mpi_0 [] f) \<and>
     mpi_run k (ops @ mpi_closing) fh_mpi_0 [] = Some (st', h') \<and> (\<forall>f. live h' f = lost k ops fh_mpi_0 [] f) \<and>
     ((\<forall>f. live h' f = 0) \<longleftrightarrow> tidy k ops fh_mpi_0 [])"
proof -
  obtain st h where 1: "mpi_run k ops fh_mpi_0 [] = Some (st, h)" using mpi_run_ok [OF assms(1,2)] by blast
  have b: "mpi_books (lost k ops fh_mpi_0 []) fh_mpi_0 [] st h" by (rule mpi_run_books [OF 1])
  obtain st' h' where 2: "mpi_run k mpi_closing st h = Some (st', h')"
    and c: "g_media_fd st' < 0" "mpi_i2c_fd st' < 0" "g_wdt_fd st' < 0"
    using mpi_closing_run by blast
  have "mpi_books (lost k mpi_closing st h) st h st' h'" by (rule mpi_run_books [OF 2])
  then have l: "live h' f = lost k ops fh_mpi_0 [] f" for f
    using b c by (simp add: mpi_books_def held_mpi_def fh_mpi_0_def lost_closing)
  moreover have "live h f = held_mpi st f + lost k ops fh_mpi_0 [] f" "g_audio_fd st = - 1" for f
    using b by (simp_all add: mpi_books_def held_mpi_def fh_mpi_0_def) (metis add_diff_cancel_left' add_diff_eq diff_add_cancel)
  moreover have "(\<forall>f. live h' f = 0) \<longleftrightarrow> tidy k ops fh_mpi_0 []" unfolding l by (rule lost_tidy)
  ultimately show ?thesis using 1 2 by (simp add: mpi_run_append)
qed

text \<open>A kernel whose devices open and whose pins are high.\<close>

definition k_board :: kernel where
  "k_board h c =
     (case c of Open p m \<Rightarrow> ok_reply (5 + int (length h)) | Read fd n \<Rightarrow> (ok_reply 1)\<lparr>rbytes := [0x31]\<rparr> | _ \<Rightarrow> ok_reply 0)"

definition board_session :: "mpi_op list" where
  "board_session = [Sys_init, Wdt_open, Sensor_init 0x35 2, Vpss_get_frame 0 (Some (replicate 12 0)) 40, Gpio_read 13, Sensor_close,
     Sensor_init 0x35 2]"

lemma pins_answer_board: "pins_answer k_board"
  by (simp add: pins_answer_def k_board_def)

text \<open>A session that closes the bus before it opens it again, and one that does not: it loses the first descriptor.\<close>

lemma mpi_releases_all_witness:
  "(\<exists>st h st' h'. mpi_run k_board board_session fh_mpi_0 [] = Some (st, h) \<and> g_audio_fd st = - 1 \<and> (\<forall>f. live h f = held_mpi st f) \<and>
     mpi_run k_board (board_session @ mpi_closing) fh_mpi_0 [] = Some (st', h') \<and> (\<forall>f. live h' f = 0)) \<and>
   (\<exists>st' h'. mpi_run k_board ([Sensor_init 0x35 2, Sensor_init 0x35 2] @ mpi_closing) fh_mpi_0 [] = Some (st', h') \<and> live h' 5 = 1)"
proof
  have a: "list_all arrays_fit board_session" by (simp add: board_session_def)
  have t: "tidy k_board board_session fh_mpi_0 []"
    unfolding board_session_def fh_mpi_0_def k_board_def
    by (simp add: mpi_defs fh_gpio_read_def sys_def ioctl_eq ioctl_words_eq os_simps Let_def)
  then have l: "lost k_board board_session fh_mpi_0 [] f = 0" for f using lost_tidy [of k_board board_session fh_mpi_0 "[]"] by simp
  from mpi_releases_all [OF a pins_answer_board] show "\<exists>st h st' h'. mpi_run k_board board_session fh_mpi_0 [] = Some (st, h) \<and>
      g_audio_fd st = - 1 \<and> (\<forall>f. live h f = held_mpi st f) \<and>
      mpi_run k_board (board_session @ mpi_closing) fh_mpi_0 [] = Some (st', h') \<and> (\<forall>f. live h' f = 0)"
    unfolding l by (simp only: add_0_right) blast
  have a2: "list_all arrays_fit [Sensor_init 0x35 2, Sensor_init 0x35 2]" by simp
  have "lost k_board [Sensor_init 0x35 2, Sensor_init 0x35 2] fh_mpi_0 [] 5 = 1"
    by (simp add: fh_mpi_0_def k_board_def mpi_defs sys_def ioctl_eq os_simps Let_def held_fd_def)
  with mpi_releases_all [OF a2 pins_answer_board]
  show "\<exists>st' h'. mpi_run k_board ([Sensor_init 0x35 2, Sensor_init 0x35 2] @ mpi_closing) fh_mpi_0 [] = Some (st', h') \<and> live h' 5 = 1"
    by (metis (no_types, lifting))
qed

section \<open>Arguments\<close>

text \<open>An \<open>ioctl\<close> passes at least as many bytes as its request announces, but for the attributes of the video input:
  two words where 244 bytes are announced.\<close>

definition mpi_fits :: "syscall \<Rightarrow> bool" where
  "mpi_fits c =
     (case c of
        Ioctl fd req a \<Rightarrow>
          if req = VPSS_SET_VI_ATTR then arg_size a = 8 \<and> ioc_size req = 244 else ioc_size req \<le> arg_size a
      | _ \<Rightarrow> True)"

lemma mpi_fits_simps [simp]:
  "mpi_fits (Open p m)" "mpi_fits (Close fd)" "mpi_fits (Write fd d)" "mpi_fits (Read fd n)" "mpi_fits (Usleep n)"
  "mpi_fits (Perror s)"
  by (simp_all add: mpi_fits_def)

lemmas mpi_codes = VPSS_SET_VI_ATTR_def VPSS_ENABLE_def VPSS_SET_CHN_ATTR_def VPSS_OPEN_CHN_def VPSS_SET_VO_MODE_def
  VPSS_SET_FRAMECTRL_def VPSS_GET_CHN_FRAME_def VENC_GET_STREAM_def VENC_CREATE_CHN_def I2C_SET_ADDR_MODE_def
  I2C_SET_SLAVE_def I2C_RDWR_def WDIOC_SETTIMEOUT_def WDIOC_SETOPTIONS_def WDIOC_KEEPALIVE_def

lemma mpi_fits_ioctl [simp]:
  "mpi_fits (Ioctl fd VPSS_SET_VI_ATTR a) \<longleftrightarrow> arg_size a = 8"
  "mpi_fits (Ioctl fd VPSS_ENABLE a) \<longleftrightarrow> 4 \<le> arg_size a"
  "mpi_fits (Ioctl fd VPSS_SET_CHN_ATTR a) \<longleftrightarrow> 12 \<le> arg_size a"
  "mpi_fits (Ioctl fd VPSS_OPEN_CHN a) \<longleftrightarrow> 4 \<le> arg_size a"
  "mpi_fits (Ioctl fd VPSS_SET_VO_MODE a) \<longleftrightarrow> 8 \<le> arg_size a"
  "mpi_fits (Ioctl fd VPSS_SET_FRAMECTRL a) \<longleftrightarrow> 8 \<le> arg_size a"
  "mpi_fits (Ioctl fd VPSS_GET_CHN_FRAME a) \<longleftrightarrow> 104 \<le> arg_size a"
  "mpi_fits (Ioctl fd VENC_GET_STREAM a) \<longleftrightarrow> 416 \<le> arg_size a"
  "mpi_fits (Ioctl fd VENC_CREATE_CHN a) \<longleftrightarrow> 28 \<le> arg_size a"
  "mpi_fits (Ioctl fd I2C_SET_ADDR_MODE a)" "mpi_fits (Ioctl fd I2C_SET_SLAVE a)" "mpi_fits (Ioctl fd I2C_RDWR a)"
  "mpi_fits (Ioctl fd WDIOC_SETTIMEOUT a) \<longleftrightarrow> 4 \<le> arg_size a"
  "mpi_fits (Ioctl fd WDIOC_SETOPTIONS a) \<longleftrightarrow> 4 \<le> arg_size a"
  "mpi_fits (Ioctl fd WDIOC_KEEPALIVE a) \<longleftrightarrow> 4 \<le> arg_size a"
  by (simp_all add: mpi_fits_def ioc_size_def mpi_codes)

lemma ioctl_adds [simp]: "adds mpi_fits h (snd (ioctl_r k fd req a h)) \<longleftrightarrow> mpi_fits (Ioctl fd req a)"
  by (simp add: ioctl_eq)

lemma gpio_store_adds [simp]: "adds mpi_fits h (snd (gpio_store k path s h))"
  by (simp add: gpio_store_def sys_def Let_def os_simps)

lemma word_calls_adds:
  "adds mpi_fits h (snd (fh_vpss_set_vi_attr k st w v h))" "adds mpi_fits h (snd (fh_vpss_enable k st g h))"
  "adds mpi_fits h (snd (fh_vpss_set_chn_attr k st c w v h))" "adds mpi_fits h (snd (fh_vpss_open_chn k st c h))"
  "adds mpi_fits h (snd (fh_vpss_set_vo_mode k st c m h))" "adds mpi_fits h (snd (fh_vpss_set_framectrl k st c x y h))"
  "adds mpi_fits h (snd (fh_venc_create_chn k st c w v t h))" "adds mpi_fits h (snd (fh_sensor_write k st r b h))"
  "adds mpi_fits h (snd (snd (fh_sensor_read k st r ob h)))" "adds mpi_fits h (snd (fh_wdt_feed k st h))"
  "adds mpi_fits h (snd (fh_gpio_set_direction k g d h))" "adds mpi_fits h (snd (fh_gpio_write k g d h))"
  by (simp_all add: mpi_defs sys_def Let_def arg_size_def)

lemma state_calls_adds:
  "adds mpi_fits h (snd (snd (fh_sys_init k st h)))" "adds mpi_fits h (snd (fh_sys_exit k st h))"
  "adds mpi_fits h (snd (snd (fh_sensor_init k st a m h)))" "adds mpi_fits h (snd (fh_sensor_close k st h))"
  "adds mpi_fits h (snd (snd (fh_wdt_open k st h)))" "adds mpi_fits h (snd (fh_wdt_close k st h))"
  by (simp_all add: mpi_defs sys_def ioctl_eq os_simps Let_def arg_size_def)

lemma get_frame_adds: "fh_vpss_get_frame k st c out t h = Some (r, out', h') \<Longrightarrow> adds mpi_fits h h'"
  by (auto simp: fh_vpss_get_frame_def ioctl_words_eq arg_size_def Let_def split: option.splits if_splits)

lemma get_stream_adds: "fh_venc_get_stream k st c out h = Some (r, out', h') \<Longrightarrow> adds mpi_fits h h'"
  by (auto simp: fh_venc_get_stream_def ioctl_words_eq arg_size_def Let_def split: option.splits if_splits)

lemma gpio_export_adds: "fh_gpio_export k g h = Some (r, h') \<Longrightarrow> adds mpi_fits h h'"
  by (auto simp: fh_gpio_export_def sys_def os_simps Let_def split: if_splits)

lemma gpio_read_adds: "fh_gpio_read k g h = Some (r, h') \<Longrightarrow> adds mpi_fits h h'"
  unfolding fh_gpio_read_def sys_def Let_def prod.case
  by (auto simp: os_simps split: if_splits list.splits)

lemma reset_pulse_adds: "adds mpi_fits h (reset_pulse k h)"
  unfolding reset_pulse_def Let_def
  by (intro ad.T_trans [OF _ word_calls_adds(12)] ad.T_trans [OF _ word_calls_adds(11)] adds_snoc) simp_all

lemma sensor_reset_adds: "fh_sensor_reset k h = Some (r, h') \<Longrightarrow> adds mpi_fits h h'"
  using sensor_reset_eq [of k h] gpio_export_adds [of k 13 h] reset_pulse_adds [of _ k] by (auto intro: adds_trans)

lemma mpi_step_adds:
  assumes "mpi_step k op st h = Some (st', h')"
  shows "adds mpi_fits h h'"
  using assms
  by (cases op)
    (auto simp: Let_def case_prod_beta prod_eq_iff word_calls_adds state_calls_adds
      intro: get_frame_adds get_stream_adds gpio_export_adds gpio_read_adds sensor_reset_adds)

text \<open>The arguments of the media drivers: over any sequence of the library's functions every \<open>ioctl\<close> passes at least as
  many bytes as its request code announces, with one exception, the attributes of the video input, which
  are eight bytes where the driver is told of 244.\<close>
theorem mpi_arguments_fit:
  "mpi_run k ops st h = Some (st', h') \<Longrightarrow> list_all mpi_fits (calls h) \<Longrightarrow> list_all mpi_fits (calls h')"
proof (induction k ops st h rule: mpi_run.induct)
  case (2 k op ops st h)
  from "2.prems"(1) obtain st1 h1 where 1: "mpi_step k op st h = Some (st1, h1)" "mpi_run k ops st1 h1 = Some (st', h')"
    by (auto simp: bind_eq_Some_conv)
  from adds_calls [OF mpi_step_adds [OF 1(1)] "2.prems"(2)] show ?case by (rule "2.IH" [OF 1(1) refl 1(2)])
qed simp

lemma mpi_arguments_fit_witness:
  "\<exists>st h. mpi_run k_board board_session fh_mpi_0 [] = Some (st, h) \<and> list_all mpi_fits (calls h)"
proof -
  obtain st h where "mpi_run k_board board_session fh_mpi_0 [] = Some (st, h)"
    using mpi_run_ok [OF _ pins_answer_board, of board_session fh_mpi_0 "[]"] by (auto simp: board_session_def)
  with mpi_arguments_fit [OF this] show ?thesis by simp
qed

section \<open>The reset of the sensor\<close>











end
