(* ===== verification/Oracle.thy ===== *)
theory Oracle
  imports Rtsp_Server
begin

text \<open>
  \<open>tools/majestic-oracle\<close>: the two programs that feed the same recording to the original streamer and to the
  server of this repository, so that their answers can be compared. \<open>fake_mpi.c\<close> stands in for the vendor's
  encoder library, \<open>replay.c\<close> pushes into \<open>rtsp_server.c\<close>. Both cut an H.264 byte stream at its start codes
  and group the units into pictures. \<open>None\<close> is an access outside an array: a recording without a start code,
  with an empty last unit, with too many units, or without a picture.
\<close>

section \<open>Shared vocabulary\<close>

text \<open>A NAL unit is a range of the recording: \<open>nal_p\<close> is the offset in the buffer.\<close>

record nal =
  nal_p :: nat
  nal_len :: nat

definition nal_bytes :: "u8 list \<Rightarrow> nal \<Rightarrow> u8 list" where
  "nal_bytes b n = take (nal_len n) (drop (nal_p n) b)"

definition NAL_CAP :: nat where "NAL_CAP = 8192"
definition AU_CAP :: nat where "AU_CAP = 4096"

text \<open>The end of the last unit so far, set when the next one is found and at the end of the recording.\<close>

definition set_last_len :: "nal list \<Rightarrow> nat \<Rightarrow> nal list" where
  "set_last_len ns e = (if ns = [] then [] else butlast ns @ [(last ns)\<lparr>nal_len := e - nal_p (last ns)\<rparr>])"

definition FRAME_INTERVAL_US :: u64 where "FRAME_INTERVAL_US = 40000"
definition ODD_FRAME_JITTER_US :: u64 where "ODD_FRAME_JITTER_US = 1037"

text \<open>\<open>strtoull(s, NULL, 10)\<close>.\<close>

definition sat_u64 :: "nat \<Rightarrow> u64" where
  "sat_u64 n = (if n < 2 ^ 64 then word_of_nat n else - 1)"

definition strtoull :: "string \<Rightarrow> u64" where
  "strtoull s =
     (case dropWhile isspace s of
        [] \<Rightarrow> 0
      | c # cs \<Rightarrow>
          if c = CHR ''-'' then (if read_digits cs < 2 ^ 64 then - sat_u64 (read_digits cs) else - 1)
          else if c = CHR ''+'' then sat_u64 (read_digits cs)
          else sat_u64 (read_digits (c # cs)))"

section \<open>The replay program\<close>

definition replay_code :: "u8 list \<Rightarrow> nat \<Rightarrow> nat" where
  "replay_code b i =
     (if b ! i = 0 \<and> b ! (i + 1) = 0 \<and> b ! (i + 2) = 1 then 3
      else if b ! i = 0 \<and> b ! (i + 1) = 0 \<and> b ! (i + 2) = 0 \<and> b ! (i + 3) = 1 then 4 else 0)"

function replay_scan :: "u8 list \<Rightarrow> nat \<Rightarrow> nal list \<Rightarrow> nal list option" where
  "replay_scan b i ns =
     (if i + 3 < length b then
        let sc = replay_code b i in
        if sc = 0 then replay_scan b (i + 1) ns
        else if length ns \<ge> NAL_CAP then None
        else replay_scan b (i + sc) (set_last_len ns i @ [\<lparr>nal_p = i + sc, nal_len = 0\<rparr>])
      else Some ns)"
  by auto
termination by (relation "measure (\<lambda>(b, i, ns). length b - i)") auto

declare replay_scan.simps [simp del]

definition replay_split :: "u8 list \<Rightarrow> nal list option" where
  "replay_split b =
     do {
       ns \<leftarrow> replay_scan b 0 [];
       if ns = [] then None else Some (set_last_len ns (length b))
     }"

definition replay_type :: "u8 list \<Rightarrow> nal \<Rightarrow> u8 option" where
  "replay_type b n = (if nal_p n < length b then Some (b ! nal_p n AND 0x1f) else None)"

fun replay_aus :: "u8 list \<Rightarrow> nal list \<Rightarrow> nat \<Rightarrow> nat \<Rightarrow> (nat \<times> nat) list \<Rightarrow> (nat \<times> nat) list option" where
  "replay_aus b [] k start aus = Some aus"
| "replay_aus b (n # ns) k start aus =
     do {
       t \<leftarrow> replay_type b n;
       if t < 1 \<or> 5 < t then replay_aus b ns (k + 1) start aus
       else if length aus \<ge> AU_CAP then None
       else replay_aus b ns (k + 1) (k + 1) (aus @ [(start, k - start + 1)])
     }"

text \<open>The program's arrays once the recording is loaded; \<open>Inl\<close> is the exit code when it cannot be opened.\<close>

record replay =
  r_buf :: "u8 list"
  r_nals :: "nal list"
  r_aus :: "(nat \<times> nat) list"

definition replay_load :: "kernel \<Rightarrow> string \<Rightarrow> hist \<Rightarrow> ((int + replay) \<times> hist) option" where
  "replay_load k path h =
     (let (r, h) = sys k (Slurp path) h in
      case rtext r of
        None \<Rightarrow> Some (Inl 1, sys_h k (Perror path) h)
      | Some txt \<Rightarrow>
          let b = bytes_of txt in
          do {
            ns \<leftarrow> replay_split b;
            aus \<leftarrow> replay_aus b ns 0 0 [];
            Some (Inr \<lparr>r_buf = b, r_nals = ns, r_aus = aus\<rparr>, h)
          })"

definition replay_pts :: "u64 \<Rightarrow> u32 \<Rightarrow> u64" where
  "replay_pts pts0 seq =
     pts0 + ucast seq * FRAME_INTERVAL_US + (if seq AND 1 \<noteq> 0 then ODD_FRAME_JITTER_US else 0)"

text \<open>What one round pushes: for each of the two streams the units of a picture, the last one marked.\<close>

definition au_units :: "replay \<Rightarrow> nat \<times> nat \<Rightarrow> u64 \<Rightarrow> (u8 list \<times> u64 \<times> bool) list" where
  "au_units st au pts =
     map (\<lambda>j. (nal_bytes (r_buf st) (r_nals st ! (fst au + j)), pts, j = snd au - 1)) [0..<snd au]"

definition round_units :: "replay \<Rightarrow> u64 \<Rightarrow> u32 \<Rightarrow> (u8 list \<times> u64 \<times> bool) list" where
  "round_units st pts0 seq = au_units st (r_aus st ! (unat seq mod length (r_aus st))) (replay_pts pts0 seq)"

fun push_units :: "kernel \<Rightarrow> int \<Rightarrow> (u8 list \<times> u64 \<times> bool) list \<Rightarrow> rtsp_server \<Rightarrow> hist \<Rightarrow> (rtsp_server \<times> hist) option" where
  "push_units k s [] srv h = Some (srv, h)"
| "push_units k s ((bs, pts, marked) # us) srv h =
     do {
       (srv, h) \<leftarrow> rtsp_server_push_nal k srv s bs pts marked h;
       push_units k s us srv h
     }"

partial_function (option) replay_wait ::
  "kernel \<Rightarrow> (string \<Rightarrow> string \<Rightarrow> string option) \<Rightarrow> u64 \<Rightarrow> rtsp_server \<Rightarrow> hist \<Rightarrow> (rtsp_server \<times> hist) option" where
  "replay_wait k crypt next srv h =
     (let (t, h) = now_us k h in
      if t < next then do {
        (srv, h) \<leftarrow> rtsp_server_poll k crypt srv h;
        replay_wait k crypt next srv (sys_h k (Usleep 1000) h)
      }
      else Some (srv, h))"

definition replay_round ::
  "kernel \<Rightarrow> (string \<Rightarrow> string \<Rightarrow> string option) \<Rightarrow> replay \<Rightarrow> u64 \<Rightarrow> u32 \<Rightarrow> u64 \<Rightarrow> rtsp_server \<Rightarrow> hist
     \<Rightarrow> (u64 \<times> rtsp_server \<times> hist) option" where
  "replay_round k crypt st pts0 seq next srv h =
     do {
       (srv, h) \<leftarrow> replay_wait k crypt next srv h;
       if r_aus st = [] then None
       else
         let next = next + FRAME_INTERVAL_US;
             us = round_units st pts0 seq
         in do {
           (srv, h) \<leftarrow> push_units k 0 us srv h;
           (srv, h) \<leftarrow> push_units k 1 us srv h;
           Some (next, srv, h)
         }
     }"

text \<open>The loop has no end; \<open>replay_rounds\<close> is its first \<open>n\<close> rounds.\<close>

fun replay_rounds ::
  "kernel \<Rightarrow> (string \<Rightarrow> string \<Rightarrow> string option) \<Rightarrow> replay \<Rightarrow> u64 \<Rightarrow> u32 \<Rightarrow> u64 \<Rightarrow> nat \<Rightarrow> rtsp_server \<Rightarrow> hist
     \<Rightarrow> (rtsp_server \<times> hist) option" where
  "replay_rounds k crypt st pts0 seq next 0 srv h = Some (srv, h)"
| "replay_rounds k crypt st pts0 seq next (Suc n) srv h =
     do {
       (next, srv, h) \<leftarrow> replay_round k crypt st pts0 seq next srv h;
       replay_rounds k crypt st pts0 (seq + 1) next n srv h
     }"

text \<open>The program up to its first \<open>n\<close> rounds: an exit code, or the server it is serving with.\<close>

definition replay_main ::
  "kernel \<Rightarrow> (string \<Rightarrow> string \<Rightarrow> string option) \<Rightarrow> string list \<Rightarrow> nat \<Rightarrow> hist \<Rightarrow> ((int + rtsp_server) \<times> hist) option" where
  "replay_main k crypt argv n h =
     do {
       (l, h) \<leftarrow> replay_load k (if length argv > 1 then argv ! 1 else ''input.h264'') h;
       (case l of
          Inl code \<Rightarrow> Some (Inl code, h)
        | Inr st \<Rightarrow>
            let pts0 = (if length argv > 2 then strtoull (argv ! 2) else 1000000000);
                (r, srv, h) = rtsp_server_init k 554 h
            in if r < 0 then Some (Inl 1, sys_h k (Perror ''rtsp_server_init'') h)
               else
                 let srv = rtsp_server_use_shadow srv (if length argv > 3 then argv ! 3 else ''shadow'');
                     srv = rtsp_server_enable_stream srv 0 25;
                     srv = rtsp_server_enable_stream srv 1 25;
                     h = sys_h k (Print (''replay: '' @ dec (length (r_nals st)) @ '' NALs, ''
                           @ dec (length (r_aus st)) @ '' access units, RTSP on :554'' @ [LF])) h;
                     (next, h) = now_us k h
                 in map_option (apfst Inr) (replay_rounds k crypt st pts0 0 next n srv h))
     }"

end
