(* ===== verification/Fake_Mpi.thy ===== *)
theory Fake_Mpi
  imports Oracle
begin

text \<open>
  \<open>tools/majestic-oracle/fake_mpi.c\<close>: the encoder library preloaded under the original streamer. It plays a
  recording on two channels, a picture per release of the one before. Its static variables are the record
  \<open>fake_mpi\<close>. The address \<open>malloc\<close> gave the recording is \<open>o_base\<close>, a parameter.
\<close>

section \<open>State\<close>

definition PACK_SIZE :: nat where "PACK_SIZE = 0x88"
definition CHANNELS :: nat where "CHANNELS = 2"

record access_unit =
  au_first :: nat
  au_count :: nat
  au_idr :: bool

record fake_mpi =
  o_ready :: bool
  o_buf :: "u8 list"
  o_base :: u32
  o_nals :: "nal list"
  o_aus :: "access_unit list"
  o_au :: "nat list"
  o_seq :: "u32 list"
  o_pts0 :: u64
  o_pipe :: "(int \<times> int) list"

text \<open>The static variables before any call: every array is zero.\<close>

definition fake_mpi0 :: fake_mpi where
  "fake_mpi0 = \<lparr>o_ready = False, o_buf = [], o_base = 0, o_nals = [], o_aus = [], o_au = replicate CHANNELS 0,
              o_seq = replicate CHANNELS 0, o_pts0 = 0, o_pipe = replicate CHANNELS (0, 0)\<rparr>"

definition au_at :: "fake_mpi \<Rightarrow> nat \<Rightarrow> access_unit" where
  "au_at st i = (if i < length (o_aus st) then o_aus st ! i else \<lparr>au_first = 0, au_count = 0, au_idr = False\<rparr>)"

section \<open>Loading the recording\<close>

definition oracle_type :: "u8 list \<Rightarrow> nal \<Rightarrow> u8 option" where
  "oracle_type b n =
     (let i = nal_p n + (if b ! (nal_p n + 2) = 1 then 3 else 4)
      in if i < length b then Some (b ! i AND 0x1f) else None)"

function oracle_scan :: "u8 list \<Rightarrow> nat \<Rightarrow> nal list \<Rightarrow> nal list option" where
  "oracle_scan b i ns =
     (if i + 3 < length b then
        let sc3 = (b ! i = 0 \<and> b ! (i + 1) = 0 \<and> b ! (i + 2) = 1);
            sc4 = (b ! i = 0 \<and> b ! (i + 1) = 0 \<and> b ! (i + 2) = 0 \<and> b ! (i + 3) = 1)
        in if \<not> sc3 \<and> \<not> sc4 then oracle_scan b (i + 1) ns
           else if length ns \<ge> NAL_CAP then None
           else oracle_scan b (i + (if sc4 then 4 else 3)) (set_last_len ns i @ [\<lparr>nal_p = i, nal_len = 0\<rparr>])
      else Some ns)"
  by auto
termination by (relation "measure (\<lambda>(b, i, ns). length b - i)") auto

declare oracle_scan.simps [simp del]

definition oracle_split :: "u8 list \<Rightarrow> nal list option" where
  "oracle_split b =
     do {
       ns \<leftarrow> oracle_scan b 0 [];
       if ns = [] then None else Some (set_last_len ns (length b))
     }"

fun oracle_aus :: "u8 list \<Rightarrow> nal list \<Rightarrow> nat \<Rightarrow> nat \<Rightarrow> access_unit list \<Rightarrow> access_unit list option" where
  "oracle_aus b [] k start aus = Some aus"
| "oracle_aus b (n # ns) k start aus =
     do {
       t \<leftarrow> oracle_type b n;
       if t < 1 \<or> 5 < t then oracle_aus b ns (k + 1) start aus
       else if length aus \<ge> AU_CAP then None
       else oracle_aus b ns (k + 1) (k + 1)
              (aus @ [\<lparr>au_first = start, au_count = k - start + 1, au_idr = (t = 5)\<rparr>])
     }"

definition load_stream :: "kernel \<Rightarrow> u32 \<Rightarrow> fake_mpi \<Rightarrow> hist \<Rightarrow> ((int + fake_mpi) \<times> hist) option" where
  "load_stream k base st h =
     (let (p, h) = sys k (Getenv ''ORACLE_H264'') h;
          (r, h) = sys k (Slurp (case rtext p of Some path \<Rightarrow> path | None \<Rightarrow> ''/oracle/input.h264'')) h in
      case rtext r of
        None \<Rightarrow> Some (Inl 1, sys_h k (Perror ''oracle: open h264'') h)
      | Some txt \<Rightarrow>
          let b = bytes_of txt in
          do {
            ns \<leftarrow> oracle_split b;
            aus \<leftarrow> oracle_aus b ns 0 0 [];
            let (e, h) = sys k (Getenv ''ORACLE_PTS0'') h;
            let (pts0, h) = (case rtext e of Some s \<Rightarrow> (strtoull s, h) | None \<Rightarrow> now_us k h);
            let h = sys_h k (Print (''oracle: '' @ dec (length ns) @ '' NALs, '' @ dec (length aus)
                      @ '' access units'' @ [LF])) h;
            Some (Inr (st\<lparr>o_buf := b, o_base := base, o_nals := ns, o_aus := aus, o_pts0 := pts0\<rparr>), h)
          })"

text \<open>The clock: a thread of its own, whose loop does this and has no end.\<close>

definition frame_tick :: "kernel \<Rightarrow> fake_mpi \<Rightarrow> hist \<Rightarrow> hist" where
  "frame_tick k st h =
     fold (\<lambda>(r, w) h. sys_h k (Write w [1]) h) (o_pipe st) (sys_h k (Usleep (unat FRAME_INTERVAL_US)) h)"

fun open_pipes :: "kernel \<Rightarrow> (int \<times> int) list \<Rightarrow> hist \<Rightarrow> (int \<times> int) list \<times> hist" where
  "open_pipes k [] h = ([], h)"
| "open_pipes k (p # ps) h =
     (let (r, h) = sys k Pipe h;
          q = (if rv r < 0 then p else (sint (overlay (rwords r) [0, 0] ! 0), sint (overlay (rwords r) [0, 0] ! 1)));
          (ps, h) = open_pipes k ps h
      in (q # ps, h))"

definition init_once :: "kernel \<Rightarrow> u32 \<Rightarrow> fake_mpi \<Rightarrow> hist \<Rightarrow> ((int + fake_mpi) \<times> hist) option" where
  "init_once k base st h =
     do {
       (l, h) \<leftarrow> load_stream k base st h;
       (case l of
          Inl code \<Rightarrow> Some (Inl code, h)
        | Inr st \<Rightarrow>
            let (ps, h) = open_pipes k (o_pipe st) h
            in Some (Inr (st\<lparr>o_pipe := ps\<rparr>), sys_h k (Start_thread ''frame_clock'') h))
     }"

section \<open>The encoder's functions\<close>

definition valid_chn :: "int \<Rightarrow> bool" where
  "valid_chn chn \<longleftrightarrow> 0 \<le> chn \<and> chn < int CHANNELS"

definition HI_MPI_VENC_GetFd ::
  "kernel \<Rightarrow> u32 \<Rightarrow> int \<Rightarrow> fake_mpi \<Rightarrow> hist \<Rightarrow> ((int + int \<times> fake_mpi) \<times> hist) option" where
  "HI_MPI_VENC_GetFd k base chn st h =
     do {
       (l, h) \<leftarrow> (if o_ready st then Some (Inr st, h) else init_once k base (st\<lparr>o_ready := True\<rparr>) h);
       (case l of
          Inl code \<Rightarrow> Some (Inl code, h)
        | Inr st \<Rightarrow> Some (Inr (if valid_chn chn then fst (o_pipe st ! nat chn) else - 1, st), h))
     }"

definition HI_MPI_VENC_QueryStatus :: "fake_mpi \<Rightarrow> int \<Rightarrow> u32 list" where
  "HI_MPI_VENC_QueryStatus st chn =
     (if valid_chn chn
      then (replicate 16 0)[2 := 1, 3 := word_of_nat (au_count (au_at st (o_au st ! nat chn)))]
      else replicate 16 0)"

text \<open>
  A pack, in words of four bytes: address and length of the unit, the time stamp in two halves, whether it ends the
  picture, and its type.
\<close>

definition pack_words :: "fake_mpi \<Rightarrow> u64 \<Rightarrow> bool \<Rightarrow> nal \<Rightarrow> u8 \<Rightarrow> u32 list" where
  "pack_words st pts at_end n t =
     (replicate (PACK_SIZE div 4) 0)
       [2 := o_base st + word_of_nat (nal_p n), 3 := word_of_nat (nal_len n), 4 := ucast pts,
        5 := ucast (drop_bit 32 pts), 6 := (if at_end then 1 else 0), 7 := ucast t]"

fun fill_packs :: "fake_mpi \<Rightarrow> u64 \<Rightarrow> access_unit \<Rightarrow> nat list \<Rightarrow> u32 list list option" where
  "fill_packs st pts au [] = Some []"
| "fill_packs st pts au (j # js) =
     do {
       let n = o_nals st ! (au_first au + j);
       t \<leftarrow> oracle_type (o_buf st) n;
       ps \<leftarrow> fill_packs st pts au js;
       Some (pack_words st pts (j = au_count au - 1) n t # ps)
     }"

definition oracle_pts :: "fake_mpi \<Rightarrow> u32 \<Rightarrow> u64" where
  "oracle_pts st seq =
     o_pts0 st + ucast seq * FRAME_INTERVAL_US + (if seq AND 1 \<noteq> 0 then ODD_FRAME_JITTER_US else 0)"

text \<open>The packs go to the memory whose address is the first word of the caller's structure.\<close>

definition HI_MPI_VENC_GetStream ::
  "kernel \<Rightarrow> int \<Rightarrow> u32 list \<Rightarrow> int \<Rightarrow> fake_mpi \<Rightarrow> hist \<Rightarrow> (int \<times> u32 list list \<times> u32 list \<times> fake_mpi \<times> hist) option" where
  "HI_MPI_VENC_GetStream k chn stream timeout st h =
     (if \<not> valid_chn chn then Some (- 1, [], stream, st, h)
      else
        let c = nat chn;
            h = sys_h k (Read (fst (o_pipe st ! c)) 1) h;
            au = au_at st (o_au st ! c);
            seq = o_seq st ! c;
            pts = oracle_pts st seq
        in do {
          packs \<leftarrow> fill_packs st pts au [0..<au_count au];
          let h = (if au_idr au then sys_h k (Print (''oracle: chn='' @ dec_int chn @ '' idr seq='' @ dec (unat seq)
                     @ '' pts='' @ dec (unat pts) @ [LF])) h else h);
          Some (0, packs,
            stream[1 := word_of_nat (au_count au), 2 := seq, 9 := (if au_idr au then 0 else 2)],
            st\<lparr>o_seq := (o_seq st)[c := seq + 1]\<rparr>, h)
        })"

definition HI_MPI_VENC_ReleaseStream :: "int \<Rightarrow> fake_mpi \<Rightarrow> fake_mpi option" where
  "HI_MPI_VENC_ReleaseStream chn st =
     (if \<not> valid_chn chn then Some st
      else if o_aus st = [] then None
      else Some (st\<lparr>o_au := (o_au st)[nat chn := (o_au st ! nat chn + 1) mod length (o_aus st)]\<rparr>))"

definition HI_MPI_VENC_RequestIDR :: "kernel \<Rightarrow> int \<Rightarrow> int \<Rightarrow> hist \<Rightarrow> int \<times> hist" where
  "HI_MPI_VENC_RequestIDR k chn instant h =
     (0, sys_h k (Print (''oracle: RequestIDR chn='' @ dec_int chn @ '' instant='' @ dec_int instant @ [LF])) h)"

definition HI_MPI_SYS_GetVersion :: "int \<times> u8 list" where
  "HI_MPI_SYS_GetVersion = (0, overlay (bytes_of ''Gk7205V200_MPP_V1.0.1.0.B020 Release'') (replicate 64 0))"

text \<open>The memory handed out for a physical address: a fresh block of zeros.\<close>

definition HI_MPI_SYS_Mmap :: "u64 \<Rightarrow> u32 \<Rightarrow> u8 list" where
  "HI_MPI_SYS_Mmap phys n = replicate (unat n) 0"

definition HI_MPI_SYS_MmapCache :: "u64 \<Rightarrow> u32 \<Rightarrow> u8 list" where
  "HI_MPI_SYS_MmapCache phys n = replicate (unat n) 0"

definition HI_MPI_SYS_Munmap :: "u8 list \<Rightarrow> u32 \<Rightarrow> int" where
  "HI_MPI_SYS_Munmap p n = 0"

text \<open>The \<open>ioctl\<close> that takes the place of the C library's: a request to \<open>/dev/null\<close> succeeds.\<close>

definition oracle_ioctl :: "kernel \<Rightarrow> int \<Rightarrow> u32 \<Rightarrow> ioarg \<Rightarrow> hist \<Rightarrow> int \<times> hist" where
  "oracle_ioctl k fd req a h =
     (let (r, h) = sys k (Readlink (trunc 32 (''/proc/self/fd/'' @ dec_int fd))) h
      in if 0 < rv r \<and> map_option (trunc 64) (rtext r) = Some ''/dev/null'' then (0, h) else ioctl_r k fd req a h)"

end
