(* ===== verification/Oracle_Props.thy ===== *)
theory Oracle_Props
  imports Fake_Mpi Mini_Streamer
begin

text \<open>
  The two players of \<open>tools/majestic-oracle\<close> play the same thing: cutting a recording into NAL units, grouping
  the units into pictures, and handing them out with their time stamps.
\<close>

section \<open>Two scanners\<close>

lemma replay_code_cases: "replay_code b i = 0 \<or> replay_code b i = 3 \<or> replay_code b i = 4"
  by (simp add: replay_code_def)

lemma oracle_scan_eq:
  "oracle_scan b i ns =
     (if i + 3 < length b then
        if replay_code b i = 0 then oracle_scan b (i + 1) ns
        else if length ns \<ge> NAL_CAP then None
        else oracle_scan b (i + replay_code b i) (set_last_len ns i @ [\<lparr>nal_p = i, nal_len = 0\<rparr>])
      else Some ns)"
  by (subst oracle_scan.simps) (auto simp: replay_code_def Let_def)

text \<open>
  A unit of \<open>fake_mpi.c\<close> has its start code in front, a unit of \<open>replay.c\<close> has not. The last unit of a list
  under construction has no length yet. No code starts right before one that was found.
\<close>

definition no_code_before :: "u8 list \<Rightarrow> nat \<Rightarrow> bool" where
  "no_code_before b i \<longleftrightarrow> i = 0 \<or> replay_code b (i - 1) = 0"

definition same_start :: "u8 list \<Rightarrow> nal \<Rightarrow> nal \<Rightarrow> bool" where
  "same_start b x y \<longleftrightarrow> nal_p x + 3 < length b \<and> replay_code b (nal_p x) \<noteq> 0 \<and> nal_p y = nal_p x + replay_code b (nal_p x) \<and>
     no_code_before b (nal_p x)"

definition same_unit :: "u8 list \<Rightarrow> nal \<Rightarrow> nal \<Rightarrow> bool" where
  "same_unit b x y \<longleftrightarrow> same_start b x y \<and> nal_len x = nal_len y + replay_code b (nal_p x) \<and> nal_p x + nal_len x \<le> length b"

definition same_scan :: "u8 list \<Rightarrow> nat \<Rightarrow> nal list \<Rightarrow> nal list \<Rightarrow> bool" where
  "same_scan b i xs ys \<longleftrightarrow> length xs = length ys \<and> list_all2 (same_unit b) (butlast xs) (butlast ys) \<and>
     (xs \<noteq> [] \<longrightarrow> same_start b (last xs) (last ys) \<and> nal_p (last ys) \<le> i)"

lemma length_set_last_len [simp]: "length (set_last_len ns e) = length ns"
  by (cases ns rule: rev_cases) (simp_all add: set_last_len_def)

lemma set_last_len_Nil [simp]: "set_last_len [] e = []" "set_last_len ns e = [] \<longleftrightarrow> ns = []"
  by (simp_all add: set_last_len_def)

lemma set_last_len_snoc [simp]: "set_last_len (ns @ [n]) e = ns @ [n\<lparr>nal_len := e - nal_p n\<rparr>]"
  by (simp add: set_last_len_def)

lemma same_scan_closed:
  assumes "same_scan b i xs ys" and "i \<le> e" and "e \<le> length b"
  shows "list_all2 (same_unit b) (set_last_len xs e) (set_last_len ys e)"
proof (cases xs rule: rev_cases)
  case Nil
  with assms(1) show ?thesis by (simp add: same_scan_def)
next
  case (snoc zs x)
  with assms(1) obtain ws y where ys: "ys = ws @ [y]" by (cases ys rule: rev_cases) (auto simp: same_scan_def)
  from assms(1) have "same_start b x y" "nal_p y \<le> i" "list_all2 (same_unit b) zs ws"
    by (simp_all add: same_scan_def snoc ys)
  moreover from this assms(2,3) have "same_unit b (x\<lparr>nal_len := e - nal_p x\<rparr>) (y\<lparr>nal_len := e - nal_p y\<rparr>)"
    by (simp add: same_unit_def same_start_def)
  ultimately show ?thesis by (simp add: snoc ys list_all2_appendI)
qed

lemma no_code_after: "replay_code b i \<noteq> 0 \<Longrightarrow> no_code_before b (i + replay_code b i)"
  by (auto simp: no_code_before_def replay_code_def numeral_3_eq_3 split: if_splits)

lemma scans_agree:
  "same_scan b i xs ys \<Longrightarrow> no_code_before b i \<Longrightarrow> i \<le> length b \<Longrightarrow>
     rel_option (\<lambda>xs' ys'. \<exists>j \<le> length b. same_scan b j xs' ys') (oracle_scan b i xs) (replay_scan b i ys)"
proof (induction b i ys arbitrary: xs rule: replay_scan.induct)
  case (1 b i ys)
  note scan = oracle_scan_eq [of b i xs] replay_scan.simps [of b i ys]
  show ?case
  proof (cases "i + 3 < length b")
    case False
    with 1(3,5) show ?thesis by (auto simp: scan)
  next
    case True
    note in_buf = True
    show ?thesis
    proof (cases "replay_code b i = 0")
      case True
      have "same_scan b (i + 1) xs ys" using 1(3) by (auto simp: same_scan_def)
      moreover have "no_code_before b (i + 1)" using True by (simp add: no_code_before_def)
      ultimately show ?thesis using in_buf True 1(1) [OF in_buf refl] by (simp add: scan)
    next
      case False
      have len: "length xs = length ys" using 1(3) by (simp add: same_scan_def)
      show ?thesis
      proof (cases "length ys \<ge> NAL_CAP")
        case True
        with in_buf False len show ?thesis by (simp add: scan Let_def)
      next
        case small: False
        have "list_all2 (same_unit b) (set_last_len xs i) (set_last_len ys i)"
          using same_scan_closed [OF 1(3) order.refl 1(5)] .
        then have "same_scan b (i + replay_code b i) (set_last_len xs i @ [\<lparr>nal_p = i, nal_len = 0\<rparr>])
            (set_last_len ys i @ [\<lparr>nal_p = i + replay_code b i, nal_len = 0\<rparr>])"
          using in_buf False len 1(4) by (simp add: same_scan_def same_start_def)
        moreover have "i + replay_code b i \<le> length b" using replay_code_cases [of b i] in_buf by auto
        ultimately show ?thesis using 1(2) [OF in_buf refl False small] no_code_after [OF False] in_buf False small len
          by (simp add: scan Let_def)
      qed
    qed
  qed
qed

lemma splits_agree: "rel_option (list_all2 (same_unit b)) (oracle_split b) (replay_split b)"
proof -
  have s: "same_scan b 0 [] []" "no_code_before b 0" by (simp_all add: same_scan_def no_code_before_def)
  have nil: "xs = [] \<longleftrightarrow> ys = []" if "same_scan b i xs ys" for i xs ys using that by (auto simp: same_scan_def)
  show ?thesis
  proof (cases "replay_scan b 0 []")
    case None
    with scans_agree [OF s] show ?thesis by (simp add: oracle_split_def replay_split_def)
  next
    case (Some ys)
    with scans_agree [OF s] obtain xs j where "oracle_scan b 0 [] = Some xs" "j \<le> length b" "same_scan b j xs ys"
      by (auto simp: option_rel_Some2)
    with Some nil [OF this(3)] show ?thesis
      by (simp add: oracle_split_def replay_split_def same_scan_closed)
  qed
qed

section \<open>The same units and pictures\<close>

lemma replay_code_at:
  assumes "i + 3 < length b" and "replay_code b i \<noteq> 0"
  shows "take (replay_code b i) (drop i b) = (if replay_code b i = 3 then [0, 0, 1] else [0, 0, 0, 1])"
proof -
  have d: "drop i b = b ! i # b ! (i + 1) # b ! (i + 2) # b ! (i + 3) # drop (i + 4) b"
    using assms(1) by (simp add: Cons_nth_drop_Suc numeral_eq_Suc)
  from assms(2) replay_code_cases [of b i] consider "replay_code b i = 3" | "replay_code b i = 4" by auto
  then show ?thesis
  proof cases
    case 1
    then have "b ! i = 0 \<and> b ! (i + 1) = 0 \<and> b ! (i + 2) = 1" by (simp add: replay_code_def split: if_splits)
    with 1 show ?thesis unfolding d by simp
  next
    case 2
    then have "b ! i = 0 \<and> b ! (i + 1) = 0 \<and> b ! (i + 2) = 0 \<and> b ! (i + 3) = 1"
      by (simp add: replay_code_def split: if_splits)
    with 2 show ?thesis unfolding d by simp
  qed
qed

lemma nal_bytes_same:
  assumes "same_unit b x y"
  shows "nal_bytes b x = (if replay_code b (nal_p x) = 3 then [0, 0, 1] else [0, 0, 0, 1]) @ nal_bytes b y"
proof -
  have n: "nal_len x = replay_code b (nal_p x) + nal_len y" and p: "nal_p y = replay_code b (nal_p x) + nal_p x"
    using assms by (simp_all add: same_unit_def same_start_def)
  have "nal_bytes b x = take (replay_code b (nal_p x)) (drop (nal_p x) b) @ nal_bytes b y"
    by (simp add: nal_bytes_def n p take_add)
  with assms replay_code_at show ?thesis by (simp add: same_unit_def same_start_def)
qed

lemma strip_same: "same_unit b x y \<Longrightarrow> strip_start_code (nal_bytes b x) = nal_bytes b y"
  by (simp add: nal_bytes_same strip_start_code_def)

lemma type_same: "same_unit b x y \<Longrightarrow> oracle_type b x = replay_type b y"
  using replay_code_cases [of b "nal_p x"]
  by (auto simp: oracle_type_def replay_type_def same_unit_def same_start_def replay_code_def Let_def split: if_splits)

definition au_range :: "access_unit \<Rightarrow> nat \<times> nat" where
  "au_range a = (au_first a, au_count a)"

lemma aus_agree:
  "list_all2 (same_unit b) xs ys \<Longrightarrow>
     replay_aus b ys k start (map au_range aus) = map_option (map au_range) (oracle_aus b xs k start aus)"
proof (induction xs ys arbitrary: k start aus rule: list_all2_induct)
  case (Cons x xs y ys)
  let ?a = "\<lambda>t. \<lparr>au_first = start, au_count = k - start + 1, au_idr = (t = 5)\<rparr>"
  show ?case
  proof (cases "replay_type b y")
    case (Some t)
    show ?thesis
      using Cons.IH [of "k + 1" start aus] Cons.IH [of "k + 1" "k + 1" "aus @ [?a t]"] Some type_same [OF Cons.hyps(1)]
      by (simp add: au_range_def)
  qed (simp add: type_same [OF Cons.hyps(1)])
qed simp

section \<open>A round trip: cutting up what was put together\<close>

text \<open>A unit as an encoder writes it: not empty, no start code inside, and no zero at its end.\<close>

definition clean_nal :: "u8 list \<Rightarrow> bool" where
  "clean_nal n \<longleftrightarrow> n \<noteq> [] \<and> last n \<noteq> 0 \<and> (\<forall>i. i + 2 < length n \<longrightarrow> \<not> (n ! i = 0 \<and> n ! (i + 1) = 0 \<and> n ! (i + 2) = 1))"

definition start_code :: "bool \<Rightarrow> u8 list" where
  "start_code long = (if long then [0, 0, 0, 1] else [0, 0, 1])"

definition stream_bytes :: "(bool \<times> u8 list) list \<Rightarrow> u8 list" where
  "stream_bytes us = concat (map (\<lambda>(long, n). start_code long @ n) us)"

text \<open>Where the units lie when the stream starts at an offset.\<close>

fun layout :: "nat \<Rightarrow> (bool \<times> u8 list) list \<Rightarrow> nal list" where
  "layout off [] = []"
| "layout off ((long, n) # us) =
     \<lparr>nal_p = off + length (start_code long), nal_len = length n\<rparr> # layout (off + length (start_code long) + length n) us"

lemma stream_bytes_simps [simp]:
  "stream_bytes [] = []" "stream_bytes ((long, n) # us) = start_code long @ n @ stream_bytes us"
  by (simp_all add: stream_bytes_def)

lemma nal_bytes_at: "nal_bytes (pre @ c @ n @ suf) \<lparr>nal_p = length pre + length c, nal_len = length n\<rparr> = n"
  by (simp add: nal_bytes_def)

lemma layout_bytes: "map (nal_bytes (pre @ stream_bytes us)) (layout (length pre) us) = map snd us"
proof (induction us arbitrary: pre)
  case (Cons u us)
  obtain long n where u: "u = (long, n)" by force
  have "map (nal_bytes ((pre @ start_code long @ n) @ stream_bytes us)) (layout (length (pre @ start_code long @ n)) us) = map snd us"
    by (rule Cons.IH)
  then show ?case by (simp add: u nal_bytes_at add.assoc)
qed simp

lemma replay_code_head:
  assumes "n \<noteq> []"
  shows "replay_code (pre @ start_code long @ n @ suf) (length pre) = length (start_code long)"
proof -
  have at: "(pre @ xs) ! length pre = xs ! 0" "(pre @ xs) ! Suc (length pre) = xs ! 1"
    "(pre @ xs) ! Suc (Suc (length pre)) = xs ! 2" "(pre @ xs) ! (length pre + 3) = xs ! 3" for xs :: "u8 list"
    by (simp_all add: nth_append)
  show ?thesis using assms by (cases n; cases long) (simp_all add: replay_code_def at start_code_def)
qed

lemma replay_code_nonzero:
  "replay_code b i \<noteq> 0 \<Longrightarrow> b ! i = 0 \<and> b ! (i + 1) = 0 \<and> (b ! (i + 2) = 1 \<or> b ! (i + 2) = 0 \<and> b ! (i + 3) = 1)"
  unfolding replay_code_def by metis

lemma clean_no_code:
  assumes "clean_nal n" and "i < length n"
  shows "replay_code (pre @ n @ suf) (length pre + i) = 0"
proof (rule ccontr)
  let ?b = "pre @ n @ suf"
  assume "replay_code ?b (length pre + i) \<noteq> 0"
  note code = replay_code_nonzero [OF this]
  have at: "?b ! (length pre + i + j) = (if i + j < length n then n ! (i + j) else suf ! (i + j - length n))" for j
    by (auto simp: nth_append)
  have z: "n ! i = 0" "?b ! (length pre + i + 1) = 0"
    and c: "?b ! (length pre + i + 2) = 1 \<or> ?b ! (length pre + i + 2) = 0 \<and> ?b ! (length pre + i + 3) = 1"
    using at [of 0] assms(2) code by simp_all
  have lst: "n ! (length n - 1) \<noteq> 0" using assms(1) unfolding clean_nal_def by (metis last_conv_nth)
  have "i + 1 < length n"
  proof (rule ccontr)
    assume "\<not> i + 1 < length n"
    with assms(2) have "i = length n - 1" by simp
    with z(1) lst show False by simp
  qed
  then have z1: "n ! (i + 1) = 0" using z(2) at [of 1] by simp
  have i2: "i + 2 < length n"
  proof (rule ccontr)
    assume "\<not> i + 2 < length n"
    with \<open>i + 1 < length n\<close> have "i + 1 = length n - 1" by simp
    with z1 lst show False by simp
  qed
  then have n2: "n ! (i + 2) = ?b ! (length pre + i + 2)" using at [of 2] by simp
  show False
  proof (cases "n ! (i + 2) = 1")
    case True
    with assms(1) i2 z(1) z1 show False by (simp add: clean_nal_def)
  next
    case False
    with c n2 have z2: "n ! (i + 2) = 0" "?b ! (length pre + i + 3) = 1" by auto
    have i3: "i + 3 < length n"
    proof (rule ccontr)
      assume "\<not> i + 3 < length n"
      with i2 have "i + 2 = length n - 1" by simp
      with z2(1) lst show False by simp
    qed
    then have "n ! (i + 3) = 1" using z2(2) at [of 3] by simp
    moreover have "\<not> (n ! (i + 1) = 0 \<and> n ! (i + 1 + 1) = 0 \<and> n ! (i + 1 + 2) = 1)"
      using assms(1) i3 by (simp add: clean_nal_def)
    ultimately show False using z1 z2(1) by (simp add: numeral_3_eq_3)
  qed
qed

text \<open>The scanner runs over a stretch without start codes.\<close>

lemma replay_scan_skip:
  "(\<And>j. i \<le> j \<Longrightarrow> j < m \<Longrightarrow> replay_code b j = 0) \<Longrightarrow> i \<le> m \<Longrightarrow> replay_scan b i ns = replay_scan b m ns"
proof (induction "m - i" arbitrary: i)
  case (Suc d)
  from Suc have "i < m" by simp
  show ?case
  proof (cases "i + 3 < length b")
    case True
    with Suc \<open>i < m\<close> show ?thesis by (subst replay_scan.simps) simp
  next
    case False
    with \<open>i < m\<close> show ?thesis by (subst (1 2) replay_scan.simps) simp
  qed
qed simp

lemma replay_scan_stream:
  "b = pre @ stream_bytes us \<Longrightarrow> list_all (clean_nal \<circ> snd) us \<Longrightarrow> length ns + length us \<le> NAL_CAP \<Longrightarrow>
     \<exists>r. replay_scan b (length pre) ns = Some r \<and> (r = [] \<longleftrightarrow> ns = [] \<and> us = []) \<and>
       set_last_len r (length b) = set_last_len ns (length pre) @ layout (length pre) us"
proof (induction us arbitrary: pre ns)
  case Nil
  then show ?case by (simp add: replay_scan.simps)
next
  case (Cons u us)
  obtain long n where u: "u = (long, n)" by force
  let ?c = "start_code long" and ?i = "length pre"
  let ?ns = "set_last_len ns ?i @ [\<lparr>nal_p = ?i + length ?c, nal_len = 0\<rparr>]"
  from Cons.prems(1) u have b: "b = pre @ ?c @ n @ stream_bytes us" by simp
  from Cons.prems(2) u have cl: "clean_nal n" by simp
  then have ne: "n \<noteq> []" by (simp add: clean_nal_def)
  have code: "replay_code b ?i = length ?c" unfolding b by (rule replay_code_head [OF ne])
  have sc: "?c \<noteq> []" "3 \<le> length ?c" by (simp_all add: start_code_def)
  have bnd: "?i + 3 < length b" using sc(2) ne by (cases n) (simp_all add: b)
  have small: "\<not> length ns \<ge> NAL_CAP" using Cons.prems(3) by simp
  have skip: "replay_scan b (?i + length ?c) ?ns = replay_scan b (?i + length ?c + length n) ?ns"
  proof (rule replay_scan_skip)
    fix j assume "?i + length ?c \<le> j" "j < ?i + length ?c + length n"
    then have "replay_code ((pre @ ?c) @ n @ stream_bytes us) (length (pre @ ?c) + (j - (?i + length ?c))) = 0"
      by (intro clean_no_code cl) simp
    then show "replay_code b j = 0" using \<open>?i + length ?c \<le> j\<close> by (simp add: b)
  qed simp
  have step: "replay_scan b ?i ns = replay_scan b (?i + length ?c + length n) ?ns"
    unfolding skip [symmetric] by (subst replay_scan.simps) (simp add: bnd code sc(1) small Let_def)
  obtain r where r: "replay_scan b (length (pre @ ?c @ n)) ?ns = Some r" "r = [] \<longleftrightarrow> ?ns = [] \<and> us = []"
      "set_last_len r (length b) = set_last_len ?ns (length (pre @ ?c @ n)) @ layout (length (pre @ ?c @ n)) us"
    using Cons.IH [of "pre @ ?c @ n" ?ns] Cons.prems(2,3) b by auto
  have "replay_scan b ?i ns = Some r" using r(1) by (simp add: step add.assoc)
  moreover have "set_last_len r (length b) = set_last_len ns ?i @ layout ?i (u # us)"
    using r(3) by (simp add: u add.assoc)
  ultimately show ?case using r(2) by simp
qed

lemma replay_split_stream:
  assumes "us \<noteq> []" and "length us \<le> NAL_CAP" and "list_all (clean_nal \<circ> snd) us"
  shows "replay_split (stream_bytes us) = Some (layout 0 us)"
  using replay_scan_stream [of "stream_bytes us" "[]" us "[]"] assms by (auto simp: replay_split_def)

text \<open>The stand-in finds the same start codes.\<close>

lemma start_of_code:
  assumes "same_unit b x \<lparr>nal_p = length pre + length (start_code long), nal_len = l\<rparr>"
    and "b = pre @ start_code long @ n @ suf" and "n \<noteq> []" and "pre = [] \<or> last pre \<noteq> 0"
  shows "replay_code b (nal_p x) = length (start_code long)"
proof -
  let ?c = "replay_code b (nal_p x)"
  have here: "replay_code b (length pre) = length (start_code long)"
    unfolding assms(2) by (rule replay_code_head [OF assms(3)])
  have p: "nal_p x + ?c = length pre + length (start_code long)" and c: "?c = 3 \<or> ?c = 4"
    and nb: "no_code_before b (nal_p x)" using assms(1) replay_code_cases [of b "nal_p x"]
    by (auto simp: same_unit_def same_start_def)
  show ?thesis
  proof (rule ccontr)
    assume ne: "?c \<noteq> length (start_code long)"
    show False
    proof (cases long)
      case True
      with ne p c have "nal_p x = length pre + 1" by (auto simp: start_code_def)
      with nb here show False by (simp add: no_code_before_def start_code_def split: if_splits)
    next
      case False
      with ne p c have q: "?c = 4" "nal_p x + 1 = length pre" by (auto simp: start_code_def)
      obtain zs z where pre: "pre = zs @ [z]" using q(2) by (cases pre rule: rev_cases) auto
      then have "length zs = nal_p x" using q(2) by simp
      then have "b ! nal_p x = last pre" "pre \<noteq> []" by (auto simp: assms(2) pre nth_append)
      moreover have "b ! nal_p x = 0" using replay_code_nonzero [of b "nal_p x"] q(1) by simp
      ultimately show False using assms(4) by simp
    qed
  qed
qed

lemma layout_oracle:
  "list_all2 (same_unit b) xs (layout (length pre) us) \<Longrightarrow> b = pre @ stream_bytes us \<Longrightarrow> list_all (clean_nal \<circ> snd) us \<Longrightarrow>
     pre = [] \<or> last pre \<noteq> 0 \<Longrightarrow> map (nal_bytes b) xs = map (\<lambda>(long, n). start_code long @ n) us"
proof (induction us arbitrary: pre xs)
  case (Cons u us)
  obtain long n where u: "u = (long, n)" by force
  from Cons.prems(1) obtain x xs' where xs: "xs = x # xs'"
    and x: "same_unit b x \<lparr>nal_p = length pre + length (start_code long), nal_len = length n\<rparr>"
    and rest: "list_all2 (same_unit b) xs' (layout (length (pre @ start_code long @ n)) us)"
    by (auto simp: u list_all2_Cons2 add.assoc)
  from Cons.prems(2,3) u have b: "b = pre @ start_code long @ n @ stream_bytes us" and cl: "clean_nal n" "n \<noteq> []" "last n \<noteq> 0"
    by (simp_all add: clean_nal_def)
  have "nal_bytes b x = start_code long @ n"
    using nal_bytes_same [OF x] start_of_code [OF x b cl(2) Cons.prems(4)]
    by (simp add: b nal_bytes_at start_code_def split: if_splits)
  moreover have "map (nal_bytes b) xs' = map (\<lambda>(long, n). start_code long @ n) us"
    using Cons.IH [OF rest] Cons.prems(3) b cl u by simp
  ultimately show ?case by (simp add: xs u)
qed simp

section \<open>Pictures\<close>

text \<open>A unit that carries picture data: a slice.\<close>

definition slice_unit :: "u8 list \<Rightarrow> nal \<Rightarrow> bool" where
  "slice_unit b n \<longleftrightarrow> (\<exists>t. replay_type b n = Some t \<and> 1 \<le> t \<and> t \<le> 5)"

definition au_indices :: "(nat \<times> nat) list \<Rightarrow> nat list" where
  "au_indices aus = concat (map (\<lambda>(s, n). [s..<s + n]) aus)"

definition au_ends :: "(nat \<times> nat) list \<Rightarrow> nat list" where
  "au_ends aus = map (\<lambda>(s, n). s + n - 1) aus"

lemma au_snoc [simp]:
  "au_indices (aus @ [a]) = au_indices aus @ [fst a..<fst a + snd a]" "au_ends (aus @ [a]) = au_ends aus @ [fst a + snd a - 1]"
  by (simp_all add: au_indices_def au_ends_def case_prod_beta)

lemma filter_slice_Cons:
  "filter (\<lambda>i. slice_unit b ((n # ns) ! (i - k))) [k..<k + length (n # ns)] =
     (if slice_unit b n then [k] else []) @ filter (\<lambda>i. slice_unit b (ns ! (i - (k + 1)))) [k + 1..<k + 1 + length ns]"
proof -
  have "filter (\<lambda>i. slice_unit b ((n # ns) ! (i - k))) [k + 1..<k + 1 + length ns] =
      filter (\<lambda>i. slice_unit b (ns ! (i - (k + 1)))) [k + 1..<k + 1 + length ns]"
    by (rule filter_cong) (auto simp: nth_Cons')
  moreover have "[k..<k + length (n # ns)] = k # [k + 1..<k + 1 + length ns]" by (simp add: upt_rec)
  ultimately show ?thesis by (simp del: upt_Suc)
qed

lemma replay_aus_spec:
  assumes "replay_aus b ns k start aus = Some aus'" and "start \<le> k" and "au_indices aus = [0..<start]"
    and "\<forall>a \<in> set aus. 0 < snd a" and "length aus \<le> AU_CAP"
  shows "(\<exists>e \<le> k + length ns. au_indices aus' = [0..<e]) \<and> (\<forall>a \<in> set aus'. 0 < snd a) \<and> length aus' \<le> AU_CAP \<and>
     au_ends aus' = au_ends aus @ filter (\<lambda>i. slice_unit b (ns ! (i - k))) [k..<k + length ns]"
  using assms
proof (induction ns arbitrary: k start aus)
  case Nil
  then show ?case by auto
next
  case (Cons n ns)
  from Cons.prems(1) obtain t where t: "replay_type b n = Some t" by (auto simp: bind_eq_Some_conv)
  note shift = filter_slice_Cons [of b n ns k]
  show ?case
  proof (cases "t < 1 \<or> 5 < t")
    case True
    then have no: "\<not> slice_unit b n" using t by (auto simp: slice_unit_def)
    from Cons.prems(1) True t have "replay_aus b ns (k + 1) start aus = Some aus'" by simp
    from Cons.IH [OF this] Cons.prems(2-5) show ?thesis unfolding shift by (simp add: no)
  next
    case False
    then have "1 \<le> t \<and> t \<le> 5" unfolding not_less [symmetric] by blast
    then have yes: "slice_unit b n" using t by (auto simp: slice_unit_def)
    from Cons.prems(1) False t have cap: "\<not> length aus \<ge> AU_CAP"
      and r: "replay_aus b ns (k + 1) (k + 1) (aus @ [(start, k - start + 1)]) = Some aus'"
      by (auto split: if_splits)
    have "[0..<start] @ [start..<k + 1] = [0..<k + 1]"
      using upt_add_eq_append [of 0 start "k + 1 - start"] Cons.prems(2) by simp
    then have "au_indices (aus @ [(start, k - start + 1)]) = [0..<k + 1]"
      using Cons.prems(2,3) by simp
    from Cons.IH [OF r _ this] Cons.prems(2,4) cap show ?thesis unfolding shift by (simp add: yes)
  qed
qed

text \<open>C38: Pictures are cut where the slices end: they follow one another without a gap from the first unit on, none is
  empty, the last units of the pictures are exactly the recording's slices in their order, and there are at
  most 4096.\<close>
theorem pictures_end_in_slices:
  assumes "replay_load k path h = Some (Inr st, h')"
  shows "(\<exists>e \<le> length (r_nals st). au_indices (r_aus st) = [0..<e]) \<and> (\<forall>a \<in> set (r_aus st). 0 < snd a) \<and>
     length (r_aus st) \<le> AU_CAP \<and>
     au_ends (r_aus st) = filter (\<lambda>i. slice_unit (r_buf st) (r_nals st ! i)) [0..<length (r_nals st)]"
proof -
  from assms have "replay_aus (r_buf st) (r_nals st) 0 0 [] = Some (r_aus st)"
    by (auto simp: replay_load_def Let_def sys_def bind_eq_Some_conv split: option.splits)
  from replay_aus_spec [OF this] show ?thesis by (simp add: au_indices_def au_ends_def)
qed

text \<open>C12: What is put together is cut up again: a stream of at most 8192 units, each with a start code of three or four bytes
  in front, none empty, with a zero at its end or with a start code inside, is split into exactly these
  units by the replay program, and into the same units with their start codes by the stand-in.\<close>
theorem split_stream_bytes:
  assumes "us \<noteq> []" and "length us \<le> NAL_CAP" and "list_all (clean_nal \<circ> snd) us"
  shows "(\<exists>ns. replay_split (stream_bytes us) = Some ns \<and> map (nal_bytes (stream_bytes us)) ns = map snd us) \<and>
     (\<exists>ns. oracle_split (stream_bytes us) = Some ns \<and>
        map (nal_bytes (stream_bytes us)) ns = map (\<lambda>(long, n). start_code long @ n) us)"
proof -
  let ?b = "stream_bytes us"
  have 1: "replay_split ?b = Some (layout 0 us)" by (rule replay_split_stream [OF assms])
  then obtain xs where 2: "oracle_split ?b = Some xs" "list_all2 (same_unit ?b) xs (layout 0 us)"
    using splits_agree [of ?b] by (auto simp: option_rel_Some2)
  have "map (nal_bytes (stream_bytes us)) xs = map (\<lambda>(long, n). start_code long @ n) us"
    using layout_oracle [of ?b xs "[]" us] 2(2) assms(3) by simp
  with 1 2(1) layout_bytes [of "[]" us] show ?thesis by simp
qed

lemma split_stream_bytes_witness:
  "(\<exists>ns. replay_split (stream_bytes [(True, [0x67, 0, 9]), (False, [0x65, 7])]) = Some ns \<and>
      map (nal_bytes (stream_bytes [(True, [0x67, 0, 9]), (False, [0x65, 7])])) ns = [[0x67, 0, 9], [0x65, 7]]) \<and>
   (\<exists>ns. oracle_split (stream_bytes [(True, [0x67, 0, 9]), (False, [0x65, 7])]) = Some ns \<and>
      map (nal_bytes (stream_bytes [(True, [0x67, 0, 9]), (False, [0x65, 7])])) ns = [[0, 0, 0, 1, 0x67, 0, 9], [0, 0, 1, 0x65, 7]])"
proof -
  have clean: "list_all (clean_nal \<circ> snd) [(True, [0x67, 0, 9]), (False, [0x65, 7])]"
    by (auto simp: clean_nal_def less_Suc_eq)
  show ?thesis using split_stream_bytes [OF _ _ clean] by (simp add: NAL_CAP_def start_code_def)
qed

section \<open>Playing\<close>

text \<open>What a client of the stand-in reads out of a pack: the bytes, the time stamp and the end mark.\<close>

definition unit_of_pack :: "fake_mpi \<Rightarrow> u32 list \<Rightarrow> u8 list \<times> u64 \<times> bool" where
  "unit_of_pack st pk =
     (take (unat (pk ! 3)) (drop (unat (pk ! 2 - o_base st)) (o_buf st)),
      push_bit 32 (ucast (pk ! 5)) OR ucast (pk ! 4), pk ! 6 \<noteq> 0)"

text \<open>Taking a picture and releasing it, for a sequence of channels in any order.\<close>

fun play_pictures ::
  "kernel \<Rightarrow> int list \<Rightarrow> u32 list \<Rightarrow> fake_mpi \<Rightarrow> hist \<Rightarrow> ((int \<times> (u8 list \<times> u64 \<times> bool) list) list \<times> fake_mpi \<times> hist) option" where
  "play_pictures k [] stream st h = Some ([], st, h)"
| "play_pictures k (c # cs) stream st h =
     do {
       (r, packs, stream, st, h) \<leftarrow> HI_MPI_VENC_GetStream k c stream (- 1) st h;
       st \<leftarrow> HI_MPI_VENC_ReleaseStream c st;
       let f = (c, map (unit_of_pack st) packs);
       (fs, st, h) \<leftarrow> play_pictures k cs stream st h;
       Some (f # fs, st, h)
     }"

text \<open>The pictures of one channel, their units without start codes.\<close>

definition of_channel :: "int \<Rightarrow> (int \<times> (u8 list \<times> u64 \<times> bool) list) list \<Rightarrow> (u8 list \<times> u64 \<times> bool) list list" where
  "of_channel c fs = map (map (\<lambda>(bs, pts, e). (strip_start_code bs, pts, e)) \<circ> snd) (filter (\<lambda>f. fst f = c) fs)"

lemma halves: "push_bit 32 (ucast (ucast (drop_bit 32 (w :: u64)) :: u32)) OR ucast (ucast w :: u32) = w"
  by (rule bit_word_eqI) (auto simp: bit_simps)

lemma unit_of_pack_words:
  assumes "nal_p n < 2 ^ 32" and "nal_len n < 2 ^ 32"
  shows "unit_of_pack st (pack_words st pts e n t) = (nal_bytes (o_buf st) n, pts, e)"
  using assms by (simp add: unit_of_pack_def pack_words_def PACK_SIZE_def nal_bytes_def halves unsigned_of_nat take_bit_nat_eq_self)

lemma unit_of_pack_update [simp]: "unit_of_pack (st\<lparr>o_seq := q\<rparr>) = unit_of_pack st" "unit_of_pack (st\<lparr>o_au := a\<rparr>) = unit_of_pack st"
  by (simp_all add: unit_of_pack_def fun_eq_iff)

text \<open>The two programs have loaded the same recording.\<close>

definition loaded :: "fake_mpi \<Rightarrow> replay \<Rightarrow> bool" where
  "loaded fk rp \<longleftrightarrow> o_buf fk = r_buf rp \<and> length (r_buf rp) < 2 ^ 32 \<and> list_all2 (same_unit (r_buf rp)) (o_nals fk) (r_nals rp) \<and>
     map au_range (o_aus fk) = r_aus rp \<and> (\<forall>n \<in> set (r_nals rp). replay_type (r_buf rp) n \<noteq> None) \<and>
     (\<forall>a \<in> set (r_aus rp). fst a + snd a \<le> length (r_nals rp))"

lemma fill_packs_ok:
  assumes "loaded fk rp" and "o_nals st = o_nals fk" "o_buf st = o_buf fk" "o_base st = o_base fk"
    and "au_first au + au_count au \<le> length (r_nals rp)"
  shows "list_all (\<lambda>j. j < au_count au) js \<Longrightarrow> \<exists>ps. fill_packs st pts au js = Some ps \<and>
     map (\<lambda>(bs, pts, e). (strip_start_code bs, pts, e)) (map (unit_of_pack st) ps) =
       map (\<lambda>j. (nal_bytes (r_buf rp) (r_nals rp ! (au_first au + j)), pts, j = au_count au - 1)) js"
proof (induction js)
  case (Cons j js)
  let ?x = "o_nals fk ! (au_first au + j)" and ?y = "r_nals rp ! (au_first au + j)"
  from Cons.prems assms(5) have i: "au_first au + j < length (r_nals rp)" by simp
  then have same: "same_unit (r_buf rp) ?x ?y" using assms(1) by (simp add: loaded_def list_all2_conv_all_nth)
  obtain t where "replay_type (r_buf rp) ?y = Some t" using assms(1) nth_mem [OF i] by (auto simp: loaded_def)
  then have t: "oracle_type (o_buf st) ?x = Some t" using assms(1,3) type_same [OF same] by (simp add: loaded_def)
  have "nal_p ?x < 2 ^ 32" "nal_len ?x < 2 ^ 32" using same assms(1) by (auto simp: same_unit_def loaded_def)
  then have u: "unit_of_pack st (pack_words st pts e ?x t) = (nal_bytes (r_buf rp) ?x, pts, e)" for e
    using unit_of_pack_words [of ?x st pts e t] assms(1,3) by (simp add: loaded_def)
  obtain ps where "fill_packs st pts au js = Some ps" and
    "map (\<lambda>(bs, pts, e). (strip_start_code bs, pts, e)) (map (unit_of_pack st) ps) =
       map (\<lambda>j. (nal_bytes (r_buf rp) (r_nals rp ! (au_first au + j)), pts, j = au_count au - 1)) js"
    using Cons by auto
  then show ?case by (simp add: assms(2) t u strip_same [OF same])
qed simp

definition playing :: "fake_mpi \<Rightarrow> (int \<Rightarrow> nat) \<Rightarrow> fake_mpi \<Rightarrow> bool" where
  "playing fk m st \<longleftrightarrow> (\<exists>sq au. st = fk\<lparr>o_seq := sq, o_au := au\<rparr> \<and> length sq = CHANNELS \<and> length au = CHANNELS \<and>
     (\<forall>c. valid_chn c \<longrightarrow> sq ! nat c = word_of_nat (m c) \<and> au ! nat c = m c mod length (o_aus fk)))"

lemma valid_chn_eq: "valid_chn c \<Longrightarrow> valid_chn d \<Longrightarrow> nat c = nat d \<longleftrightarrow> c = d"
  by (auto simp: valid_chn_def)

lemma get_stream_result:
  assumes "valid_chn c" and "o_seq st ! nat c = seq" and "au_at st (o_au st ! nat c) = au"
    and "fill_packs st (oracle_pts st seq) au [0..<au_count au] = Some ps"
  shows "\<exists>stream' h'. HI_MPI_VENC_GetStream k c stream t st h =
     Some (0, ps, stream', st\<lparr>o_seq := (o_seq st)[nat c := seq + 1]\<rparr>, h')"
  unfolding HI_MPI_VENC_GetStream_def Let_def assms(2,3) using assms(1,4) by simp

lemma play_one:
  assumes "loaded fk rp" and "playing fk m st" and "valid_chn c" and "r_aus rp \<noteq> []" and "m c < 2 ^ 32"
  shows "\<exists>packs stream' st1 h1 st2. HI_MPI_VENC_GetStream k c stream t st h = Some (0, packs, stream', st1, h1) \<and>
     HI_MPI_VENC_ReleaseStream c st1 = Some st2 \<and> playing fk (m(c := m c + 1)) st2 \<and>
     map (\<lambda>(bs, pts, e). (strip_start_code bs, pts, e)) (map (unit_of_pack st2) packs) =
       round_units rp (o_pts0 fk) (word_of_nat (m c))"
proof -
  obtain sq au where st: "st = fk\<lparr>o_seq := sq, o_au := au\<rparr>" and len: "length sq = CHANNELS" "length au = CHANNELS"
    and cur: "\<And>c. valid_chn c \<Longrightarrow> sq ! nat c = word_of_nat (m c)" "\<And>c. valid_chn c \<Longrightarrow> au ! nat c = m c mod length (o_aus fk)"
    using assms(2) by (auto simp: playing_def)
  let ?i = "m c mod length (o_aus fk)" and ?seq = "word_of_nat (m c) :: u32"
  have aus: "length (o_aus fk) = length (r_aus rp)" using assms(1) unfolding loaded_def by (metis length_map)
  then have pos: "0 < length (o_aus fk)" using assms(4) by simp
  then have i: "?i < length (o_aus fk)" by simp
  let ?au = "o_aus fk ! ?i"
  have "r_aus rp = map au_range (o_aus fk)" using assms(1) by (simp add: loaded_def)
  then have rng: "r_aus rp ! ?i = (au_first ?au, au_count ?au)" using i by (simp add: au_range_def)
  have "r_aus rp ! ?i \<in> set (r_aus rp)" using i aus by simp
  then have "au_first ?au + au_count ?au \<le> length (r_nals rp)" using assms(1) rng by (fastforce simp: loaded_def)
  then obtain ps where ps: "fill_packs st (oracle_pts st ?seq) ?au [0..<au_count ?au] = Some ps" and
    units: "map (\<lambda>(bs, pts, e). (strip_start_code bs, pts, e)) (map (unit_of_pack st) ps) =
       map (\<lambda>j. (nal_bytes (r_buf rp) (r_nals rp ! (au_first ?au + j)), oracle_pts st ?seq, j = au_count ?au - 1)) [0..<au_count ?au]"
    using fill_packs_ok [OF assms(1), of st ?au "[0..<au_count ?au]" "oracle_pts st ?seq"]
    by (auto simp: st list_all_iff)
  have at: "au_at st (o_au st ! nat c) = ?au" using i cur(2) [OF assms(3)] by (simp add: au_at_def st)
  have sq: "o_seq st ! nat c = ?seq" using cur(1) [OF assms(3)] by (simp add: st)
  have n: "unat ?seq = m c" using assms(5) by (simp add: unsigned_of_nat take_bit_nat_eq_self)
  have "map (\<lambda>(bs, pts, e). (strip_start_code bs, pts, e)) (map (unit_of_pack st) ps) = round_units rp (o_pts0 fk) ?seq"
    unfolding units round_units_def au_units_def n aus [symmetric] rng by (simp add: oracle_pts_def replay_pts_def st)
  moreover have "playing fk (m(c := m c + 1))
      (fk\<lparr>o_seq := sq[nat c := ?seq + 1], o_au := au[nat c := (m c mod length (o_aus fk) + 1) mod length (o_aus fk)]\<rparr>)"
  proof -
    have "nat c < CHANNELS" using assms(3) by (auto simp: valid_chn_def nat_less_iff)
    then show ?thesis unfolding playing_def using len cur assms(3)
      by (intro exI [of _ "sq[nat c := ?seq + 1]"] exI [of _ "au[nat c := (m c mod length (o_aus fk) + 1) mod length (o_aus fk)]"])
        (auto simp: nth_list_update mod_Suc_eq valid_chn_eq [OF assms(3)])
  qed
  moreover obtain stream' h1 where "HI_MPI_VENC_GetStream k c stream t st h =
      Some (0, ps, stream', st\<lparr>o_seq := (o_seq st)[nat c := ?seq + 1]\<rparr>, h1)"
    using get_stream_result [OF assms(3) sq at ps] by blast
  moreover have "HI_MPI_VENC_ReleaseStream c (st\<lparr>o_seq := (o_seq st)[nat c := ?seq + 1]\<rparr>) =
      Some (fk\<lparr>o_seq := sq[nat c := ?seq + 1], o_au := au[nat c := (m c mod length (o_aus fk) + 1) mod length (o_aus fk)]\<rparr>)"
    using pos assms(3) cur(2) [OF assms(3)] by (auto simp: HI_MPI_VENC_ReleaseStream_def st)
  moreover have "unit_of_pack st = unit_of_pack fk" by (simp add: st)
  ultimately show ?thesis by (intro exI conjI) (assumption | simp)+
qed

lemma play_all:
  assumes "loaded fk rp" and "r_aus rp \<noteq> []"
  shows "playing fk m st \<Longrightarrow> list_all valid_chn cs \<Longrightarrow> (\<And>c. m c + count_list cs c \<le> 2 ^ 32) \<Longrightarrow>
     \<exists>fs st' h'. play_pictures k cs stream st h = Some (fs, st', h') \<and>
       (\<forall>c. of_channel c fs = map (\<lambda>i. round_units rp (o_pts0 fk) (word_of_nat i)) [m c..<m c + count_list cs c])"
proof (induction cs arbitrary: m st stream h)
  case Nil
  then show ?case by (simp add: of_channel_def)
next
  case (Cons c cs)
  have "m c < 2 ^ 32" using Cons.prems(3) [of c] by simp
  moreover have "valid_chn c" using Cons.prems(2) by simp
  ultimately obtain packs stream1 st1 h1 st2 where
    1: "HI_MPI_VENC_GetStream k c stream (- 1) st h = Some (0, packs, stream1, st1, h1)" "HI_MPI_VENC_ReleaseStream c st1 = Some st2"
       "playing fk (m(c := m c + 1)) st2"
    and u: "map (\<lambda>(bs, pts, e). (strip_start_code bs, pts, e)) (map (unit_of_pack st2) packs) =
       round_units rp (o_pts0 fk) (word_of_nat (m c))"
    using play_one [OF assms(1) Cons.prems(1) _ assms(2)] by blast
  have bound: "(m(c := m c + 1)) d + count_list cs d \<le> 2 ^ 32" for d using Cons.prems(3) [of d] by (auto split: if_splits)
  have vs: "list_all valid_chn cs" using Cons.prems(2) by simp
  obtain fs st' h' where 2: "play_pictures k cs stream1 st2 h1 = Some (fs, st', h')"
    and fs: "\<And>d. of_channel d fs = map (\<lambda>i. round_units rp (o_pts0 fk) (word_of_nat i))
        [(m(c := m c + 1)) d..<(m(c := m c + 1)) d + count_list cs d]"
    using Cons.IH [OF 1(3) vs bound, of stream1 h1] by blast
  have "of_channel d ((c, map (unit_of_pack st2) packs) # fs) =
      map (\<lambda>i. round_units rp (o_pts0 fk) (word_of_nat i)) [m d..<m d + count_list (c # cs) d]" for d
  proof (cases "d = c")
    case True
    have "[m c..<m c + Suc (count_list cs c)] = m c # [Suc (m c)..<m c + Suc (count_list cs c)]" by (simp add: upt_conv_Cons)
    with True show ?thesis using fs [of c] u by (simp add: of_channel_def o_def case_prod_beta del: upt_Suc)
  next
    case False
    then show ?thesis using fs [of d] by (simp add: of_channel_def)
  qed
  with 1 2 show ?case by simp
qed

lemma replay_aus_typed: "replay_aus b ns k start aus = Some aus' \<Longrightarrow> n \<in> set ns \<Longrightarrow> replay_type b n \<noteq> None"
  by (induction b ns k start aus rule: replay_aus.induct) (auto simp: bind_eq_Some_conv split: if_splits)

lemma au_indices_bound:
  assumes "au_indices aus = [0..<e]" and "a \<in> set aus" and "0 < snd a"
  shows "fst a + snd a \<le> e"
proof -
  have "fst a + snd a - 1 \<in> set (au_indices aus)"
    using assms(2,3) by (auto simp: au_indices_def case_prod_beta intro!: bexI [of _ a])
  with assms(1,3) show ?thesis by auto
qed

lemma loads_agree:
  assumes "replay_load k path h = Some (Inr rp, h1)" and "load_stream k' base fake_mpi0 g = Some (Inr fk, g1)"
    and "o_buf fk = r_buf rp" and "length (r_buf rp) < 2 ^ 32"
  shows "loaded fk rp" and "playing fk (\<lambda>_. 0) fk"
proof -
  let ?b = "r_buf rp"
  from assms(1) have r: "replay_split ?b = Some (r_nals rp)" "replay_aus ?b (r_nals rp) 0 0 [] = Some (r_aus rp)"
    by (auto simp: replay_load_def Let_def sys_def bind_eq_Some_conv split: option.splits)
  from assms(2,3) have o: "oracle_split ?b = Some (o_nals fk)" "oracle_aus ?b (o_nals fk) 0 0 [] = Some (o_aus fk)"
    and z: "fk = fk\<lparr>o_seq := replicate CHANNELS 0, o_au := replicate CHANNELS 0\<rparr>"
    by (auto simp: load_stream_def fake_mpi0_def Let_def case_prod_beta bind_eq_Some_conv split: option.splits)
  have same: "list_all2 (same_unit ?b) (o_nals fk) (r_nals rp)" using splits_agree [of ?b] r(1) o(1) by simp
  from aus_agree [OF same, of 0 0 "[]"] r(2) o(2) have aus: "map au_range (o_aus fk) = r_aus rp" by simp
  obtain e where "e \<le> length (r_nals rp)" "au_indices (r_aus rp) = [0..<e]" "\<forall>a \<in> set (r_aus rp). 0 < snd a"
    using replay_aus_spec [OF r(2)] by (auto simp: au_indices_def)
  then have "\<forall>a \<in> set (r_aus rp). fst a + snd a \<le> length (r_nals rp)" using au_indices_bound by fastforce
  with same aus assms(3,4) replay_aus_typed [OF r(2)] show "loaded fk rp" by (auto simp: loaded_def)
  show "playing fk (\<lambda>_. 0) fk" unfolding playing_def
    by (rule exI, rule exI, intro conjI, rule z) (auto simp: valid_chn_def CHANNELS_def nth_Cons')
qed

text \<open>C10: The comparison is fair: when both programs have loaded the same recording, then whatever channels the original
  streamer takes pictures from and in whatever order, the i-th picture it is handed on a channel consists
  of the units, without their start codes, with the time stamp and with the end mark that the replay program
  pushes for each stream in its round i.\<close>
theorem players_agree:
  assumes "replay_load k path h = Some (Inr rp, h1)" and "load_stream k' base fake_mpi0 g = Some (Inr fk, g1)"
    and "o_buf fk = r_buf rp" and "length (r_buf rp) < 2 ^ 32" and "r_aus rp \<noteq> []"
    and "list_all valid_chn cs" and "length cs \<le> 2 ^ 32"
  shows "\<exists>fs st g2. play_pictures k' cs stream fk g1 = Some (fs, st, g2) \<and>
     (\<forall>c. of_channel c fs = map (\<lambda>i. round_units rp (o_pts0 fk) (word_of_nat i)) [0..<count_list cs c])"
proof -
  have "count_list cs c \<le> 2 ^ 32" for c using assms(7) count_le_length [of cs c] by (rule order.trans [rotated])
  with play_all [OF loads_agree(1) assms(5) loads_agree(2) assms(6), OF assms(1-4) assms(1-4)] show ?thesis by simp
qed

text \<open>A recording of four units, two pictures, on a kernel that has it as a file.\<close>

definition four_units :: "(bool \<times> u8 list) list" where
  "four_units = [(True, [0x67, 9]), (True, [0x68, 3]), (False, [0x65, 7, 0, 5]), (False, [0x41, 8])]"

definition k_file :: kernel where
  "k_file h c =
     (case c of Slurp p \<Rightarrow> (ok_reply 0)\<lparr>rtext := Some (map (char_of \<circ> unat) (stream_bytes four_units))\<rparr>
      | _ \<Rightarrow> ok_reply 1000)"

lemma clean_four_units: "list_all (clean_nal \<circ> snd) four_units"
  by (auto simp: four_units_def clean_nal_def less_Suc_eq)

lemma bytes_of_four_units: "bytes_of (map (char_of \<circ> unat) (stream_bytes four_units)) = stream_bytes four_units"
proof -
  have "(of_char (char_of (unat b)) :: u8) = b" for b :: u8
    using unat_u8_less [of b] by (simp add: word_unat_eq_iff)
  then show ?thesis by (simp add: bytes_of_def o_def)
qed

definition four_units_replay :: replay where
  "four_units_replay = \<lparr>r_buf = stream_bytes four_units, r_nals = layout 0 four_units, r_aus = [(0, 3), (3, 1)]\<rparr>"

lemma four_units_loaded:
  assumes "rtext (k h (Slurp path)) = Some (map (char_of \<circ> unat) (stream_bytes four_units))"
  shows "\<exists>h'. replay_load k path h = Some (Inr four_units_replay, h')"
proof -
  have "replay_aus (stream_bytes four_units) (layout 0 four_units) 0 0 [] = Some [(0, 3), (3, 1)]"
    by (simp add: four_units_def start_code_def replay_type_def AU_CAP_def)
  moreover have "replay_split (stream_bytes four_units) = Some (layout 0 four_units)"
    by (rule replay_split_stream [OF _ _ clean_four_units]) (simp_all add: four_units_def NAL_CAP_def)
  ultimately show ?thesis
    using assms by (simp add: replay_load_def sys_def bytes_of_four_units four_units_replay_def Let_def)
qed

lemma four_units_loads: "\<exists>h'. replay_load k_file path h = Some (Inr four_units_replay, h')"
  by (rule four_units_loaded) (simp add: k_file_def)

lemma pictures_end_in_slices_witness:
  "\<exists>h'. replay_load k_file ''a.h264'' [] = Some (Inr four_units_replay, h') \<and>
     au_ends (r_aus four_units_replay) =
       filter (\<lambda>i. slice_unit (r_buf four_units_replay) (r_nals four_units_replay ! i)) [0..<length (r_nals four_units_replay)]"
proof -
  obtain h' where "replay_load k_file ''a.h264'' [] = Some (Inr four_units_replay, h')" using four_units_loads by blast
  with pictures_end_in_slices [OF this] show ?thesis by blast
qed

lemma four_units_fake:
  "\<exists>fk g'. load_stream k_file 0xA0000000 fake_mpi0 [] = Some (Inr fk, g') \<and> o_buf fk = stream_bytes four_units \<and> o_pts0 fk = 1000"
proof -
  have r: "replay_split (stream_bytes four_units) = Some (layout 0 four_units)"
    by (rule replay_split_stream [OF _ _ clean_four_units]) (simp_all add: four_units_def NAL_CAP_def)
  then obtain xs where x: "oracle_split (stream_bytes four_units) = Some xs" "list_all2 (same_unit (stream_bytes four_units)) xs (layout 0 four_units)"
    using splits_agree [of "stream_bytes four_units"] by (auto simp: option_rel_Some2)
  have "replay_aus (stream_bytes four_units) (layout 0 four_units) 0 0 [] = Some [(0, 3), (3, 1)]"
    by (simp add: four_units_def start_code_def replay_type_def AU_CAP_def)
  with aus_agree [OF x(2), of 0 0 "[]"] obtain aus where "oracle_aus (stream_bytes four_units) xs 0 0 [] = Some aus"
    by (auto simp: map_option_case split: option.splits)
  with x(1) show ?thesis
    by (simp add: load_stream_def sys_def sys_h_def k_file_def ok_reply_def bytes_of_four_units now_us_def Let_def)
qed

lemma players_agree_witness:
  "\<exists>fk g1 fs st g2. load_stream k_file 0xA0000000 fake_mpi0 [] = Some (Inr fk, g1) \<and>
     play_pictures k_file [0, 1, 0] (replicate 10 0) fk g1 = Some (fs, st, g2) \<and>
     of_channel 0 fs = map (\<lambda>i. round_units four_units_replay 1000 (word_of_nat i)) [0..<2]"
proof -
  obtain fk g1 where fk: "load_stream k_file 0xA0000000 fake_mpi0 [] = Some (Inr fk, g1)" "o_buf fk = stream_bytes four_units" "o_pts0 fk = 1000"
    using four_units_fake by blast
  obtain h1 where rp: "replay_load k_file ''a.h264'' [] = Some (Inr four_units_replay, h1)" using four_units_loads by blast
  have len: "length (r_buf four_units_replay) < 2 ^ 32"
    by (simp add: four_units_replay_def four_units_def start_code_def)
  have "o_buf fk = r_buf four_units_replay" "r_aus four_units_replay \<noteq> []" using fk(2) by (simp_all add: four_units_replay_def)
  moreover have "list_all valid_chn [0, 1, 0]" "length [0, 1, 0 :: int] \<le> 2 ^ 32" by (simp_all add: valid_chn_def CHANNELS_def)
  ultimately obtain fs st g2 where "play_pictures k_file [0, 1, 0] (replicate 10 0) fk g1 = Some (fs, st, g2)"
    "\<And>c. of_channel c fs = map (\<lambda>i. round_units four_units_replay (o_pts0 fk) (word_of_nat i)) [0..<count_list [0, 1, 0] c]"
    using players_agree [OF rp fk(1) _ len] by blast
  with fk(1,3) show ?thesis by (simp add: numeral_2_eq_2)
qed

end
