(* ===== verification/Replay_Run.thy ===== *)
theory Replay_Run
  imports Oracle_Props Rtsp_Footprint Rtsp_Run
begin

text \<open>
  \<open>tools/majestic-oracle/replay.c\<close> at work: with a clock that moves on while the program sleeps, every round
  of its endless loop comes to an end, the rounds follow a timetable (polls until the time of the picture has
  come, then its units for either stream), and the server stays well formed.
\<close>

section \<open>The clock\<close>

text \<open>The microseconds a program asked to sleep.\<close>

definition slept :: "hist \<Rightarrow> nat" where
  "slept h = (\<Sum>p \<leftarrow> h. case fst p of Usleep n \<Rightarrow> n | _ \<Rightarrow> 0)"

lemma slept_simps [simp]:
  "slept [] = 0" "slept (h @ h') = slept h + slept h'" "slept (p # h) = (case fst p of Usleep n \<Rightarrow> n | _ \<Rightarrow> 0) + slept h"
  by (simp_all add: slept_def)

definition clock :: "kernel \<Rightarrow> hist \<Rightarrow> nat" where
  "clock k h = unat (fst (now_us k h))"

text \<open>
  \<open>usleep\<close> sleeps at least as long as it is asked to, and a program that has not slept yet starts long
  before the clock's end (\<open>2 ^ 62\<close> microseconds are more than 146000 years).
\<close>

definition clock_ok :: "kernel \<Rightarrow> bool" where
  "clock_ok k \<longleftrightarrow> (\<forall>h. min (2 ^ 63) (slept h) \<le> clock k h) \<and> (\<forall>h. slept h = 0 \<longrightarrow> clock k h \<le> 2 ^ 62)"

text \<open>What a part of the program leaves: a well-formed server, balanced books, and a longer history.\<close>

definition serves :: "rtsp_server \<Rightarrow> hist \<Rightarrow> rtsp_server \<Rightarrow> hist \<Rightarrow> bool" where
  "serves srv h srv' h' \<longleftrightarrow> server_step srv h srv' h' \<and> (\<exists>e. h' = h @ e)"

lemma serves_refl: "wf_server srv \<Longrightarrow> serves srv h srv h"
  by (simp add: serves_def server_step_refl)

lemma serves_trans: "serves s h s1 h1 \<Longrightarrow> serves s1 h1 s2 h2 \<Longrightarrow> serves s h s2 h2"
  by (auto simp: serves_def intro: server_step_trans)

lemma serves_wf: "serves s h s1 h1 \<Longrightarrow> wf_server s1"
  by (simp add: serves_def server_step_def)

lemma serves_slept: "serves s h s1 h1 \<Longrightarrow> slept h \<le> slept h1"
  by (auto simp: serves_def)

lemma serves_quiet: "wf_server s \<Longrightarrow> (\<And>r f. opens c r f = 0) \<Longrightarrow> serves s h s (h @ [(c, r)])"
  by (simp add: serves_def server_step_def)

lemma foot_serves: "server_step s h s1 h1 \<Longrightarrow> foot (h @ e) h1 \<Longrightarrow> serves s h s1 h1"
  by (auto simp: serves_def adds_def)

section \<open>What the program does\<close>

text \<open>
  The steps of the program after its start: it reads the clock, polls the server, sleeps for a millisecond,
  or pushes a unit to a stream of the server. A list of them is carried out one by one; reading the clock
  goes on only when the step names the time that is read.
\<close>

datatype play_step = Tick u64 | Poll | Sleep | Push int "u8 list" u64 bool

fun perform ::
  "kernel \<Rightarrow> (string \<Rightarrow> string \<Rightarrow> string option) \<Rightarrow> play_step list \<Rightarrow> rtsp_server \<Rightarrow> hist \<Rightarrow> (rtsp_server \<times> hist) option" where
  "perform k crypt [] srv h = Some (srv, h)"
| "perform k crypt (Tick t # es) srv h =
     (let (u, h) = now_us k h in if u = t then perform k crypt es srv h else None)"
| "perform k crypt (Poll # es) srv h = do { (srv, h) \<leftarrow> rtsp_server_poll k crypt srv h; perform k crypt es srv h }"
| "perform k crypt (Sleep # es) srv h = perform k crypt es srv (sys_h k (Usleep 1000) h)"
| "perform k crypt (Push s bs pts m # es) srv h =
     do { (srv, h) \<leftarrow> rtsp_server_push_nal k srv s bs pts m h; perform k crypt es srv h }"

lemma perform_append:
  "perform k crypt (es @ fs) srv h = do { (srv, h) \<leftarrow> perform k crypt es srv h; perform k crypt fs srv h }"
proof (induction es arbitrary: srv h)
  case (Cons e es)
  then show ?case by (cases e) (auto simp: Let_def split: bind_split prod.splits)
qed simp

text \<open>
  Waiting until a time: as long as the clock shows less, the server is polled and the program sleeps, and the
  first reading that does not ends it. Nothing is pushed.
\<close>

definition waits :: "nat \<Rightarrow> play_step list \<Rightarrow> bool" where
  "waits due es \<longleftrightarrow>
     (\<exists>ts t. es = concat (map (\<lambda>t. [Tick t, Poll, Sleep]) ts) @ [Tick t] \<and> (\<forall>t \<in> set ts. unat t < due) \<and> due \<le> unat t)"

lemma waits_over: "due \<le> unat t \<Longrightarrow> waits due [Tick t]"
  unfolding waits_def by (rule exI [of _ "[]"]) simp

lemma waits_more: "unat t < due \<Longrightarrow> waits due es \<Longrightarrow> waits due (Tick t # Poll # Sleep # es)"
proof -
  assume t: "unat t < due" and "waits due es"
  then obtain ts u where "es = concat (map (\<lambda>t. [Tick t, Poll, Sleep]) ts) @ [Tick u]" "\<forall>t \<in> set ts. unat t < due" "due \<le> unat u"
    by (auto simp: waits_def)
  with t show ?thesis unfolding waits_def by (intro exI [of _ "t # ts"] exI [of _ u]) simp
qed

text \<open>The units of the picture of a round, for the main stream and then for the other one.\<close>

definition pushes :: "int \<Rightarrow> (u8 list \<times> u64 \<times> bool) list \<Rightarrow> play_step list" where
  "pushes s us = map (\<lambda>(bs, pts, m). Push s bs pts m) us"

definition picture_pushes :: "replay \<Rightarrow> u64 \<Rightarrow> u32 \<Rightarrow> play_step list" where
  "picture_pushes st pts0 seq = pushes 0 (round_units st pts0 seq) @ pushes 1 (round_units st pts0 seq)"

lemma push_units_perform: "push_units k s us srv h = perform k crypt (pushes s us) srv h"
proof (induction us arbitrary: srv h)
  case (Cons u us)
  then show ?case by (cases u) (auto simp: pushes_def split: bind_split)
qed (simp add: pushes_def)

text \<open>The timetable from round \<open>i\<close> on, for the waiting parts of the rounds.\<close>

definition timetable :: "replay \<Rightarrow> u64 \<Rightarrow> nat \<Rightarrow> play_step list list \<Rightarrow> play_step list" where
  "timetable st pts0 i ws = concat (map (\<lambda>(j, w). w @ picture_pushes st pts0 (word_of_nat j)) (enumerate i ws))"

lemma timetable_simps [simp]:
  "timetable st pts0 i [] = []"
  "timetable st pts0 i (w # ws) = w @ picture_pushes st pts0 (word_of_nat i) @ timetable st pts0 (Suc i) ws"
  by (simp_all add: timetable_def)

section \<open>Waiting\<close>

lemma replay_wait_ok:
  assumes k: "kernel_ok k" "clock_ok k" and lim: "unat due \<le> 2 ^ 63" and "wf_server srv"
  shows "\<exists>srv' h'. replay_wait k crypt due srv h = Some (srv', h') \<and> serves srv h srv' h' \<and>
     (\<exists>es. waits (unat due) es \<and> perform k crypt es srv h = Some (srv', h'))"
  using assms(4)
proof (induction "unat due - slept h" arbitrary: srv h rule: less_induct)
  case less
  define t where "t = fst (now_us k h)"
  define h1 where "h1 = h @ [(Clock_us, k h Clock_us)]"
  have n: "now_us k h = (t, h1)" by (simp add: t_def h1_def now_us_def sys_def)
  have s1: "serves srv h srv h1" unfolding h1_def by (rule serves_quiet [OF less.prems]) simp
  show ?case
  proof (cases "t < due")
    case True
    have "min (2 ^ 63) (slept h) \<le> unat t" using k(2) by (simp add: clock_ok_def clock_def t_def)
    moreover have "unat t < unat due" using True by (simp add: word_less_nat_alt)
    ultimately have lt: "slept h < unat due" using lim by linarith
    obtain s2 h2 where 2: "rtsp_server_poll k crypt srv h1 = Some (s2, h2)" using rtsp_server_poll_ok [OF k(1) less.prems] by blast
    have s2: "serves srv h s2 h2"
      using serves_trans [OF s1 foot_serves [OF rtsp_server_poll_step [OF 2 less.prems] rtsp_server_poll_foot [OF 2]]] .
    define h3 where "h3 = sys_h k (Usleep 1000) h2"
    have s3: "serves s2 h2 s2 h3" using serves_quiet [OF serves_wf [OF s2], of "Usleep 1000"] by (simp add: h3_def os_simps)
    have "slept h + 1000 \<le> slept h3" using serves_slept [OF s2] by (simp add: h3_def os_simps)
    with lt have "unat due - slept h3 < unat due - slept h" by linarith
    from less.hyps [OF this serves_wf [OF s3]] obtain s4 h4 where
      4: "replay_wait k crypt due s2 h3 = Some (s4, h4)" "serves s2 h3 s4 h4"
         "\<exists>es. waits (unat due) es \<and> perform k crypt es s2 h3 = Some (s4, h4)" by blast
    then obtain es where es: "waits (unat due) es" "perform k crypt es s2 h3 = Some (s4, h4)" by blast
    have "perform k crypt (Tick t # Poll # Sleep # es) srv h = Some (s4, h4)" by (simp add: n 2 es(2) h3_def [symmetric])
    moreover have "waits (unat due) (Tick t # Poll # Sleep # es)"
      using True es(1) by (simp add: waits_more word_less_nat_alt)
    moreover have "replay_wait k crypt due srv h = Some (s4, h4)"
      using True 4(1) by (subst replay_wait.simps) (simp add: n 2 h3_def)
    ultimately show ?thesis using serves_trans [OF s2 serves_trans [OF s3 4(2)]] by blast
  next
    case False
    then have "replay_wait k crypt due srv h = Some (srv, h1)" by (subst replay_wait.simps) (simp add: n)
    moreover have "waits (unat due) [Tick t]" using False by (simp add: waits_over word_le_nat_alt not_less)
    moreover have "perform k crypt [Tick t] srv h = Some (srv, h1)" by (simp add: n)
    ultimately show ?thesis using s1 by blast
  qed
qed

section \<open>Rounds\<close>

lemma push_units_ok:
  "peer_ok k \<Longrightarrow> wf_server srv \<Longrightarrow> \<exists>srv' h'. push_units k s us srv h = Some (srv', h') \<and> serves srv h srv' h'"
proof (induction us arbitrary: srv h)
  case (Cons u us)
  obtain bs pts m where u: "u = (bs, pts, m)" by (cases u)
  obtain s1 h1 where 1: "rtsp_server_push_nal k srv s bs pts m h = Some (s1, h1)" using rtsp_server_push_ok [OF Cons.prems(1)] by blast
  have 2: "serves srv h s1 h1"
    by (rule foot_serves [where e = "[]"]) (simp_all add: rtsp_server_push_step [OF 1 Cons.prems(2)] rtsp_server_push_foot [OF 1])
  from Cons.IH [OF Cons.prems(1) serves_wf [OF 2]] obtain s2 h2 where
    "push_units k s us s1 h1 = Some (s2, h2)" "serves s1 h1 s2 h2" by blast
  with serves_trans [OF 2] show ?case by (auto simp: u 1)
qed (simp add: serves_refl)

lemma replay_round_ok:
  assumes "kernel_ok k" "clock_ok k" and "unat due \<le> 2 ^ 63" and "wf_server srv" and "r_aus st \<noteq> []"
  shows "\<exists>srv' h' w. replay_round k crypt st pts0 seq due srv h = Some (due + FRAME_INTERVAL_US, srv', h') \<and>
     serves srv h srv' h' \<and> waits (unat due) w \<and> perform k crypt (w @ picture_pushes st pts0 seq) srv h = Some (srv', h')"
proof -
  have pk: "peer_ok k" using assms(1) by (simp add: kernel_ok_def)
  obtain s1 h1 w where 1: "replay_wait k crypt due srv h = Some (s1, h1)" "serves srv h s1 h1"
    and w: "waits (unat due) w" "perform k crypt w srv h = Some (s1, h1)"
    using replay_wait_ok [OF assms(1-4)] by blast
  obtain s2 h2 where 2: "push_units k 0 (round_units st pts0 seq) s1 h1 = Some (s2, h2)" "serves s1 h1 s2 h2"
    using push_units_ok [OF pk serves_wf [OF 1(2)]] by blast
  obtain s3 h3 where 3: "push_units k 1 (round_units st pts0 seq) s2 h2 = Some (s3, h3)" "serves s2 h2 s3 h3"
    using push_units_ok [OF pk serves_wf [OF 2(2)]] by blast
  have "perform k crypt (w @ picture_pushes st pts0 seq) srv h = Some (s3, h3)"
    using 2(1) 3(1) by (simp add: picture_pushes_def perform_append w(2) push_units_perform [of k _ _ _ _ crypt])
  moreover have "serves srv h s3 h3" by (blast intro: serves_trans 1(2) 2(2) 3(2))
  ultimately show ?thesis using assms(5) w(1) by (simp add: replay_round_def 1(1) 2(1) 3(1) Let_def) blast
qed

lemma replay_rounds_ok:
  assumes "kernel_ok k" "clock_ok k" and "r_aus st \<noteq> []"
  shows "unat due + 40000 * n \<le> 2 ^ 63 \<Longrightarrow> wf_server srv \<Longrightarrow>
     \<exists>srv' h' ws. replay_rounds k crypt st pts0 (word_of_nat i) due n srv h = Some (srv', h') \<and> serves srv h srv' h' \<and>
       length ws = n \<and> (\<forall>j < n. waits (unat due + 40000 * j) (ws ! j)) \<and>
       perform k crypt (timetable st pts0 i ws) srv h = Some (srv', h')"
proof (induction n arbitrary: i due srv h)
  case (Suc n)
  obtain s1 h1 w where 1: "replay_round k crypt st pts0 (word_of_nat i) due srv h = Some (due + FRAME_INTERVAL_US, s1, h1)"
    "serves srv h s1 h1" "waits (unat due) w" "perform k crypt (w @ picture_pushes st pts0 (word_of_nat i)) srv h = Some (s1, h1)"
    using replay_round_ok [OF assms(1,2) _ Suc.prems(2) assms(3), of due crypt pts0 "word_of_nat i" h] Suc.prems(1) by auto
  have d: "unat (due + FRAME_INTERVAL_US) = unat due + 40000"
    using Suc.prems(1) by (simp add: FRAME_INTERVAL_US_def unat_word_ariths)
  then have "unat (due + FRAME_INTERVAL_US) + 40000 * n \<le> 2 ^ 63" using Suc.prems(1) by simp
  from Suc.IH [OF this serves_wf [OF 1(2)], of "Suc i" h1, unfolded d of_nat_Suc add.commute [of 1 "word_of_nat i"]]
  obtain s2 h2 ws where
    2: "replay_rounds k crypt st pts0 (word_of_nat i + 1) (due + FRAME_INTERVAL_US) n s1 h1 = Some (s2, h2)" "serves s1 h1 s2 h2"
       "length ws = n" "\<And>j. j < n \<Longrightarrow> waits (unat due + 40000 + 40000 * j) (ws ! j)"
       "perform k crypt (timetable st pts0 (Suc i) ws) s1 h1 = Some (s2, h2)"
    by blast
  have "waits (unat due + 40000 * j) ((w # ws) ! j)" if "j < Suc n" for j
    using that 1(3) 2(4) [of "j - 1"] by (cases j) (simp_all add: algebra_simps)
  moreover have "perform k crypt (timetable st pts0 i (w # ws)) srv h = Some (s2, h2)"
    using perform_append [of k crypt "w @ picture_pushes st pts0 (word_of_nat i)" "timetable st pts0 (Suc i) ws" srv h] 1(4) 2(5)
    by simp
  moreover have "replay_rounds k crypt st pts0 (word_of_nat i) due (Suc n) srv h = Some (s2, h2)" by (simp add: 1(1) 2(1))
  ultimately show ?case using serves_trans [OF 1(2) 2(2)] 2(3) by (metis length_Cons)
qed (simp add: serves_refl)

section \<open>The program\<close>

definition no_sleep :: "syscall \<Rightarrow> bool" where
  "no_sleep c \<longleftrightarrow> (\<forall>n. c \<noteq> Usleep n)"

lemma adds_no_sleep: "adds no_sleep h h' \<Longrightarrow> slept h' = slept h"
proof -
  assume "adds no_sleep h h'"
  then obtain e where e: "h' = h @ e" "list_all (\<lambda>p. no_sleep (fst p)) e" by (auto simp: adds_def)
  from e(2) have "slept e = 0" by (induction e) (auto simp: no_sleep_def split: syscall.split)
  then show ?thesis by (simp add: e(1))
qed

definition replay_server :: "rtsp_server \<Rightarrow> string list \<Rightarrow> rtsp_server" where
  "replay_server srv argv =
     rtsp_server_enable_stream (rtsp_server_enable_stream
       (rtsp_server_use_shadow srv (if length argv > 3 then argv ! 3 else ''shadow'')) 0 25) 1 25"

lemma replay_server_wf:
  "wf_server srv \<Longrightarrow> wf_server (replay_server srv argv)"
  "listen_fd (replay_server srv argv) = listen_fd srv" "clients (replay_server srv argv) = clients srv"
  by (auto simp: replay_server_def rtsp_server_enable_stream_def rtsp_server_use_shadow_def wf_server_def wf_config_def trunc_def)

text \<open>C11: Once its recording is loaded and its port is bound, the replay program serves for ever and in time: any
  number of rounds comes to an end, with a well-formed server and no descriptor beyond the listening one and
  those of its clients. What it does from the reading of the clock with which the loop begins is exactly this:
  in round i it polls the server and sleeps until the clock shows i frame intervals more than at the beginning,
  and pushes nothing before; then it pushes the units of the picture of the round to the main stream and to the
  other one, in order, each with its time and its mark, and nothing else.\<close>
theorem replay_serves:
  assumes "kernel_ok k" "clock_ok k"
    and "replay_load k (if length argv > 1 then argv ! 1 else ''input.h264'') [] = Some (Inr rp, h1)" and "r_aus rp \<noteq> []"
    and "fst (rtsp_server_init k 554 h1) = 0" and "40000 * n \<le> 2 ^ 62"
  shows "\<exists>srv0 h0 r srv h' ws. replay_main k crypt argv 0 [] = Some (Inr srv0, h0 @ [(Clock_us, r)]) \<and>
     replay_main k crypt argv n [] = Some (Inr srv, h') \<and> wf_server srv \<and>
     (\<forall>f. live h' f = held_fd (listen_fd srv) f + held_clients (clients srv) f) \<and>
     length ws = n \<and> (\<forall>i < n. waits (unat (word_of_int (rv r) :: u64) + 40000 * i) (ws ! i)) \<and>
     perform k crypt (timetable rp (if length argv > 2 then strtoull (argv ! 2) else 1000000000) 0 ws) srv0 (h0 @ [(Clock_us, r)]) =
       Some (srv, h')"
proof -
  obtain srv1 h2 where 2: "rtsp_server_init k 554 h1 = (0, srv1, h2)" using assms(5) by (metis prod.collapse)
  have l1: "slept h1 = 0" "live h1 f = 0" for f
    using assms(3) by (auto simp: replay_load_def sys_def Let_def bind_eq_Some_conv split: option.splits)
  have "adds no_sleep h1 h2"
    using rtsp_server_init_adds [of no_sleep h1 k 554] by (simp add: 2 no_sleep_def)
  then have s2: "slept h2 = 0" using l1 adds_no_sleep by simp
  note init = rtsp_server_init_facts [OF 2]
  let ?srv = "replay_server srv1 argv"
  define c where "c = Print (''replay: '' @ dec (length (r_nals rp)) @ '' NALs, '' @ dec (length (r_aus rp))
     @ '' access units, RTSP on :554'' @ [LF])"
  define h3 where "h3 = h2 @ [(c, k h2 c)]"
  define r where "r = k h3 Clock_us"
  define due where "due = fst (now_us k h3)"
  have now: "now_us k h3 = (due, h3 @ [(Clock_us, r)])" "due = word_of_int (rv r)"
    by (simp_all add: due_def now_us_def sys_def r_def)
  have "slept h3 = 0" by (simp add: h3_def s2 c_def)
  then have "unat due \<le> 2 ^ 62" using assms(2) by (simp add: clock_ok_def clock_def due_def)
  then have due: "unat due + 40000 * n \<le> 2 ^ 63" using assms(6) by simp
  define pts0 where "pts0 = (if length argv > 2 then strtoull (argv ! 2) else 1000000000)"
  have main: "replay_main k crypt argv m [] =
     map_option (apfst Inr) (replay_rounds k crypt rp pts0 0 due m ?srv (h3 @ [(Clock_us, r)]))" for m
    by (simp only: replay_main_def assms(3) 2 Let_def prod.case sum.case os_simps c_def [symmetric] h3_def [symmetric] now(1)
        replay_server_def [symmetric] pts0_def [symmetric] bind.simps) simp
  have wf: "wf_server ?srv" using init by (intro replay_server_wf(1)) blast
  obtain srv h' ws where run: "replay_rounds k crypt rp pts0 0 due n ?srv (h3 @ [(Clock_us, r)]) = Some (srv, h')"
    "serves ?srv (h3 @ [(Clock_us, r)]) srv h'"
    and ws: "length ws = n" "\<forall>i < n. waits (unat due + 40000 * i) (ws ! i)"
      "perform k crypt (timetable rp pts0 0 ws) ?srv (h3 @ [(Clock_us, r)]) = Some (srv, h')"
    using replay_rounds_ok [OF assms(1,2,4) due wf, of crypt pts0 0 "h3 @ [(Clock_us, r)]"] by auto
  have "live (h3 @ [(Clock_us, r)]) f = held_fd (listen_fd ?srv) f + held_clients (clients ?srv) f" for f
    using init l1 by (simp add: h3_def c_def replay_server_wf held_clients_def sum_list_replicate)
  then have "wf_server srv \<and> (\<forall>f. live h' f = held_fd (listen_fd srv) f + held_clients (clients srv) f)"
    using run(2) by (auto simp: serves_def server_step_def algebra_simps)
  moreover have "replay_main k crypt argv 0 [] = Some (Inr ?srv, h3 @ [(Clock_us, r)])"
    "replay_main k crypt argv n [] = Some (Inr srv, h')" by (simp_all add: main run(1))
  ultimately show ?thesis using ws unfolding now(2) pts0_def by blast
qed

text \<open>A kernel with the recording of four units and a clock that counts the sleeping.\<close>

definition k_player :: kernel where
  "k_player h c =
     (case c of
        Slurp p \<Rightarrow> (ok_reply 0)\<lparr>rtext := Some (map (char_of \<circ> unat) (stream_bytes four_units))\<rparr>
      | Clock_us \<Rightarrow> ok_reply (int (min (2 ^ 63) (slept h)))
      | _ \<Rightarrow> k_idle h c)"

lemma k_player_ok: "kernel_ok k_player"
proof -
  have "send_reliable k_player"
    by (auto simp: send_reliable_def send_bounded_def send_responsive_def k_player_def k_idle_def eintr_def intro!: exI [of _ 0])
  then show ?thesis
    by (simp add: kernel_ok_def send_reliable_def peer_ok_def recv_ok_def time_ok_def k_player_def k_idle_def)
qed

lemma k_player_clock: "clock_ok k_player"
proof -
  have "clock k_player h = min (2 ^ 63) (slept h)" for h
    by (simp add: clock_def now_us_def sys_def k_player_def of_nat_min [symmetric] unat_of_nat take_bit_nat_eq_self
        del: of_nat_min)
  then show ?thesis by (simp add: clock_ok_def)
qed

lemma replay_serves_witness:
  "\<exists>srv0 h0 r srv h' ws. replay_main k_player (\<lambda>_ _. None) [''replay'', ''a.h264''] 0 [] = Some (Inr srv0, h0 @ [(Clock_us, r)]) \<and>
     replay_main k_player (\<lambda>_ _. None) [''replay'', ''a.h264''] 1000 [] = Some (Inr srv, h') \<and> wf_server srv \<and>
     (\<forall>f. live h' f = held_fd (listen_fd srv) f + held_clients (clients srv) f) \<and>
     length ws = 1000 \<and> (\<forall>i < 1000. waits (unat (word_of_int (rv r) :: u64) + 40000 * i) (ws ! i)) \<and>
     perform k_player (\<lambda>_ _. None) (timetable four_units_replay 1000000000 0 ws) srv0 (h0 @ [(Clock_us, r)]) = Some (srv, h')"
proof -
  have "rtext (k_player [] (Slurp ''a.h264'')) = Some (map (char_of \<circ> unat) (stream_bytes four_units))"
    by (simp add: k_player_def)
  from four_units_loaded [of k_player "[]" "''a.h264''", OF this] obtain h1 where
    l: "replay_load k_player (if length [''replay'', ''a.h264''] > 1 then [''replay'', ''a.h264''] ! 1 else ''input.h264'') [] =
          Some (Inr four_units_replay, h1)" by auto
  have i: "fst (rtsp_server_init k_player 554 h1) = 0"
    by (auto simp: rtsp_server_init_def sys_def k_player_def k_idle_def ok_reply_def split: prod.splits)
  have "r_aus four_units_replay \<noteq> []" by (simp add: four_units_replay_def)
  from replay_serves [OF k_player_ok k_player_clock l this i, of 1000 "\<lambda>_ _. None"] show ?thesis by simp
qed

end
