(* ===== verification/Camera_Tools.thy ===== *)
theory Camera_Tools
  imports Sensor_Bus Isp_Init
begin

text \<open>
  The diagnostic programs of \<open>sdk/tools\<close>: \<open>dump_sensor.c\<close> prints the registers of the running sensor,
  \<open>scan_i2c.c\<close> looks for devices on the bus, \<open>dump_isp_regs.c\<close> prints registers of the image signal
  processor. Each is its \<open>main\<close>, with the exit code and the history as its result. What a program wrote to
  its standard output is \<open>printed\<close>. The lemmas show that a dump is the table of the registers' contents,
  row by row, and that looking changes nothing.
\<close>

section \<open>dump_sensor.c\<close>

definition SENSOR_ADDR :: u16 where "SENSOR_ADDR = 0x35"

definition i2c_read :: "kernel \<Rightarrow> int \<Rightarrow> u16 \<Rightarrow> u8 \<Rightarrow> hist \<Rightarrow> int \<times> u8 \<times> hist" where
  "i2c_read k fd reg val h =
     (let (r, h) = sys k (Ioctl fd I2C_RDWR (Arg_i2c (read_msgs SENSOR_ADDR reg))) h
      in (rv r, if 0 \<le> rv r then overlay (rbytes r) [0 :: u8] ! 0 else val, h))"

definition dump_key_regs :: "u16 list" where
  "dump_key_regs =
    [0x3000, 0x3020, 0x3021, 0x3024, 0x3025, 0x3030, 0x3031,
     0x3034, 0x3035, 0x3036, 0x3037, 0x3038, 0x3039, 0x303a, 0x303b,
     0x303c, 0x303d, 0x303e, 0x303f,
     0x3118, 0x3119, 0x3141, 0x3144, 0x3148,
     0x3158, 0x3159, 0x315a, 0x315b,
     0x301c, 0x320e,
     0x3300, 0x3330, 0x3338, 0x3339, 0x333b,
     0x3401, 0x3422, 0x3440, 0x3442,
     0x3670, 0x3679,
     0x3804, 0x3806,
     0x3908, 0x3909, 0x390a, 0x3929,
     0x35a1, 0x35a8, 0x35a9, 0x35aa, 0x35ab, 0x35ac, 0x35ad, 0x35ae, 0x35af,
     0x35b3]"

definition dump_key :: "kernel \<Rightarrow> int \<Rightarrow> nat \<Rightarrow> hist \<Rightarrow> hist" where
  "dump_key k fd i h =
     (let (ret, val, h) = i2c_read k fd (dump_key_regs ! i) 0 h;
          h = (if 0 \<le> ret
               then sys_h k (Print (''{0x'' @ hex_fixed 4 (unat (dump_key_regs ! i)) @ '', 0x'' @ hex_fixed 2 (unat val) @ ''},  '')) h
               else sys_h k (Print (''{0x'' @ hex_fixed 4 (unat (dump_key_regs ! i)) @ '', ERR},  '')) h)
      in if (i + 1) mod 6 = 0 then sys_h k (Print [LF]) h else h)"

definition dump_reg :: "kernel \<Rightarrow> int \<Rightarrow> u16 \<Rightarrow> hist \<Rightarrow> hist" where
  "dump_reg k fd r h =
     (let (ret, val, h) = i2c_read k fd r 0 h;
          h = (if unat r mod 16 = 0 then sys_h k (Print (''// 0x'' @ hex_fixed 4 (unat r) @ '':'')) h else h);
          h = (if 0 \<le> ret then sys_h k (Print ('' '' @ hex_fixed 2 (unat val))) h
               else sys_h k (Print '' --'') h)
      in if (unat r + 1) mod 16 = 0 then sys_h k (Print [LF]) h else h)"

text \<open>The loop \<open>for (uint16_t r = lo; r <= hi; r++)\<close>; the bounds it is called with are far from a wrap-around.\<close>

definition dump_range :: "kernel \<Rightarrow> int \<Rightarrow> nat \<Rightarrow> nat \<Rightarrow> hist \<Rightarrow> hist" where
  "dump_range k fd lo hi h = fold (\<lambda>r. dump_reg k fd (word_of_nat r)) [lo..<Suc hi] h"

definition dump_sensor_main :: "kernel \<Rightarrow> hist \<Rightarrow> int \<times> hist" where
  "dump_sensor_main k h =
     (let (f, h) = sys k (Open ''/dev/i2c-0'' O_RDWR) h
      in if rv f < 0 then (1, sys_h k (Perror ''open'') h)
         else
           let fd = rv f;
               h = sys_h k (Print (''// CV2003 (GC4201AC) live register dump'' @ [LF])) h;
               h = sys_h k (Print (''// I2C addr: 0x35, sensor running at 1920x1080'' @ [LF, LF])) h;
               h = sys_h k (Print (''// Key registers from init table:'' @ [LF])) h;
               h = fold (dump_key k fd) [0..<length dump_key_regs] h;
               h = sys_h k (Print [LF, LF]) h;
               h = sys_h k (Print (''// Full register dump 0x3000-0x30FF:'' @ [LF])) h;
               h = dump_range k fd 0x3000 0x30FF h;
               h = sys_h k (Print ([LF] @ ''// Register dump 0x3100-0x31FF:'' @ [LF])) h;
               h = dump_range k fd 0x3100 0x31FF h;
               h = sys_h k (Print ([LF] @ ''// Register dump 0x3900-0x39FF:'' @ [LF])) h;
               h = dump_range k fd 0x3900 0x39FF h;
               h = sys_h k (Close fd) h
           in (0, sys_h k (Print ([LF] @ ''// Done'' @ [LF])) h))"

section \<open>scan_i2c.c\<close>

definition scan_read :: "kernel \<Rightarrow> int \<Rightarrow> nat \<Rightarrow> hist \<Rightarrow> hist" where
  "scan_read k fd i h =
     (let (r, h) = sys k (Ioctl fd I2C_RDWR (Arg_i2c (read_msgs (word_of_nat i) 0x3000))) h
      in if 0 \<le> rv r
         then sys_h k (Print (''  FOUND device at 0x'' @ hex_fixed 2 i @ ''! reg 0x3000 = 0x''
                @ hex_fixed 2 (unat (overlay (rbytes r) [0 :: u8] ! 0)) @ [LF])) h
         else h)"

text \<open>The write of no bytes only sends the address.\<close>

definition scan_write :: "kernel \<Rightarrow> int \<Rightarrow> nat \<Rightarrow> hist \<Rightarrow> hist" where
  "scan_write k fd i h =
     (let (r, h) = ioctl_r k fd I2C_SLAVE (Arg_val (word_of_nat i)) h
      in if r < 0 then h
         else
           let (w, h) = sys k (Write fd []) h
           in if 0 \<le> rv w then sys_h k (Print (''  ACK at 0x'' @ hex_fixed 2 i @ [LF])) h else h)"

definition scan_i2c_main :: "kernel \<Rightarrow> hist \<Rightarrow> int \<times> hist" where
  "scan_i2c_main k h =
     (let (f, h) = sys k (Open ''/dev/i2c-0'' O_RDWR) h
      in if rv f < 0 then (1, sys_h k (Perror ''open'') h)
         else
           let fd = rv f;
               h = sys_h k (Print (''Scanning I2C bus 0 for sensor...'' @ [LF])) h;
               h = fold (scan_read k fd) [0x03..<0x78] h;
               h = sys_h k (Print ([LF] @ ''Write-probe scan...'' @ [LF])) h;
               h = fold (scan_write k fd) [0x03..<0x78] h
           in (0, sys_h k (Close fd) h))"

section \<open>dump_isp_regs.c\<close>

text \<open>The flags \<open>2|0x80000\<close> of the open call.\<close>

definition DUMP_OPEN_FLAGS :: nat where "DUMP_OPEN_FLAGS = 0x80002"

text \<open>One round of the loop over \<open>i\<close>; the pointer is to words, so \<open>R[i]\<close> is the word at byte \<open>4 * i\<close>.\<close>

definition dump_isp_reg :: "kernel \<Rightarrow> int \<Rightarrow> nat \<Rightarrow> hist \<Rightarrow> hist" where
  "dump_isp_reg k m i h =
     (let h = (if i mod 32 = 0 then sys_h k (Print ([LF] @ ''0x'' @ hex_fixed 3 (i * 4) @ '':'')) h else h);
          (v, h) = peek k m (4 * i) h
      in sys_h k (Print ('' '' @ hex_fixed 8 (unat v))) h)"

definition dump_isp_main :: "kernel \<Rightarrow> hist \<Rightarrow> int \<times> hist" where
  "dump_isp_main k h =
     (let (f, h) = sys k (Open ''/dev/mem'' DUMP_OPEN_FLAGS) h
      in if rv f < 0 then (1, h)
         else
           let (m, h) = sys k (Mmap (rv f) 0x3240 0xE8400000) h
           in if rv m = MAP_FAILED then (1, h)
              else
                let h = sys_h k (Print (''ISP regs from working camera:'' @ [LF])) h;
                    h = fold (dump_isp_reg k (rv m)) (map (\<lambda>j. 4 * j) [0..<128]) h
                in (0, sys_h k (Print [LF]) h))"

section \<open>What a program prints\<close>

definition printed :: "hist \<Rightarrow> string" where
  "printed h = concat (map (\<lambda>p. case fst p of Print s \<Rightarrow> s | _ \<Rightarrow> []) h)"

lemma printed_simps [simp]:
  "printed [] = []" "printed (h @ h') = printed h @ printed h'"
  "printed (p # h) = (case fst p of Print s \<Rightarrow> s | _ \<Rightarrow> []) @ printed h"
  by (simp_all add: printed_def)

text \<open>A call that neither stores into a register nor opens or closes anything.\<close>

definition peaceful :: "syscall \<Rightarrow> bool" where
  "peaceful c \<longleftrightarrow> (\<forall>a. stored a c = None) \<and> (\<forall>r f. opens c r f = 0)"

lemma peaceful_simps [simp]:
  "peaceful (Print s)" "peaceful (Ioctl fd req (Arg_i2c (read_msgs a r)))" "peaceful (Ioctl fd req (Arg_val v))"
  "peaceful (Write fd bs)" "peaceful (Peek b off)"
  by (simp_all add: peaceful_def)

text \<open>Between two histories the program printed \<open>s\<close>, and beyond that only looked.\<close>

definition says :: "string \<Rightarrow> hist \<Rightarrow> hist \<Rightarrow> bool" where
  "says s h h' \<longleftrightarrow> (\<exists>e. h' = h @ e \<and> printed e = s \<and> list_all (\<lambda>p. peaceful (fst p)) e)"

lemma says_refl: "says [] h h"
  by (simp add: says_def)

lemma says_trans: "says s h h1 \<Longrightarrow> says t h1 h2 \<Longrightarrow> says (s @ t) h h2"
  by (auto simp: says_def)

lemma says_print: "says s h (sys_h k (Print s) h)"
  by (simp add: says_def os_simps)

lemma says_look: "peaceful c \<Longrightarrow> (\<And>s. c \<noteq> Print s) \<Longrightarrow> says [] h (h @ [(c, r)])"
  by (auto simp: says_def split: syscall.split)

lemma says_printed: "says s h h' \<Longrightarrow> printed h' = printed h @ s"
  by (auto simp: says_def)

lemma says_live: "says s h h' \<Longrightarrow> live h' f = live h f"
proof -
  assume "says s h h'"
  then obtain e where e: "h' = h @ e" "list_all (\<lambda>p. peaceful (fst p)) e" by (auto simp: says_def)
  from e(2) have "live e f = 0" by (induction e) (auto simp: peaceful_def)
  then show ?thesis by (simp add: e(1))
qed

lemma says_regfile: "says s h h' \<Longrightarrow> regfile a r0 h' = regfile a r0 h"
proof -
  assume "says s h h'"
  then obtain e where e: "h' = h @ e" "list_all (\<lambda>p. peaceful (fst p)) e" by (auto simp: says_def)
  from e(2) have "regfile a R e = R" for R by (induction e) (auto simp: peaceful_def)
  then show ?thesis by (simp add: e(1))
qed

lemma says_fold:
  assumes "\<And>x h. x \<in> set xs \<Longrightarrow> regfile a r0 h = R \<Longrightarrow> says (f x) h (g x h)" and "regfile a r0 h = R"
  shows "says (concat (map f xs)) h (fold g xs h)"
  using assms
proof (induction xs arbitrary: h)
  case (Cons x xs)
  have x: "says (f x) h (g x h)" using Cons.prems by simp
  have "says (concat (map f xs)) (g x h) (fold g xs (g x h))"
    using Cons.prems says_regfile [OF x, of a r0] by (intro Cons.IH) auto
  with x show ?case by (auto intro: says_trans)
qed (simp add: says_refl)

section \<open>The sensor's registers\<close>

text \<open>The report as a table: a row holds sixteen registers, a block sixteen rows.\<close>

definition key_cell :: "(u16 \<Rightarrow> u8) \<Rightarrow> nat \<Rightarrow> string" where
  "key_cell R i = ''{0x'' @ hex_fixed 4 (unat (dump_key_regs ! i)) @ '', 0x'' @ hex_fixed 2 (unat (R (dump_key_regs ! i)))
     @ ''},  '' @ (if (i + 1) mod 6 = 0 then [LF] else [])"

definition reg_cell :: "(u16 \<Rightarrow> u8) \<Rightarrow> nat \<Rightarrow> string" where
  "reg_cell R n = '' '' @ hex_fixed 2 (unat (R (word_of_nat n)))"

definition dump_row :: "(u16 \<Rightarrow> u8) \<Rightarrow> nat \<Rightarrow> string" where
  "dump_row R n = ''// 0x'' @ hex_fixed 4 n @ '':'' @ concat (map (reg_cell R) [n..<n + 16]) @ [LF]"

definition dump_block :: "(u16 \<Rightarrow> u8) \<Rightarrow> nat \<Rightarrow> string" where
  "dump_block R n = concat (map (\<lambda>j. dump_row R (n + 16 * j)) [0..<16])"

definition sensor_report :: "(u16 \<Rightarrow> u8) \<Rightarrow> string" where
  "sensor_report R =
     ''// CV2003 (GC4201AC) live register dump'' @ [LF] @
     ''// I2C addr: 0x35, sensor running at 1920x1080'' @ [LF, LF] @
     ''// Key registers from init table:'' @ [LF] @ concat (map (key_cell R) [0..<length dump_key_regs]) @ [LF, LF] @
     ''// Full register dump 0x3000-0x30FF:'' @ [LF] @ dump_block R 0x3000 @
     [LF] @ ''// Register dump 0x3100-0x31FF:'' @ [LF] @ dump_block R 0x3100 @
     [LF] @ ''// Register dump 0x3900-0x39FF:'' @ [LF] @ dump_block R 0x3900 @
     [LF] @ ''// Done'' @ [LF]"

text \<open>What one round of the loop prints, and how the rounds make up rows.\<close>

definition reg_text :: "(u16 \<Rightarrow> u8) \<Rightarrow> nat \<Rightarrow> string" where
  "reg_text R n = (if n mod 16 = 0 then ''// 0x'' @ hex_fixed 4 n @ '':'' else []) @ reg_cell R n
     @ (if (n + 1) mod 16 = 0 then [LF] else [])"

lemma row_inside:
  "i \<le> 16 \<Longrightarrow> concat (map (reg_text R) [16 * q..<16 * q + i]) =
     (if i = 0 then [] else ''// 0x'' @ hex_fixed 4 (16 * q) @ '':'') @ concat (map (reg_cell R) [16 * q..<16 * q + i])
     @ (if i = 16 then [LF] else [])"
proof (induction i)
  case (Suc i)
  have m: "(16 * q + i) mod 16 = i" "(16 * q + i + 1) mod 16 = (if i = 15 then 0 else i + 1)"
    using Suc.prems by (auto simp: mod_Suc)
  define s t where "s = ''// 0x''" and "t = '':''"
  show ?case using Suc unfolding s_def [symmetric] t_def [symmetric]
    by (auto simp: reg_text_def m s_def [symmetric] t_def [symmetric])
qed simp

lemma rows: "concat (map (reg_text R) [16 * q..<16 * (q + m)]) = concat (map (\<lambda>j. dump_row R (16 * q + 16 * j)) [0..<m])"
proof (induction m)
  case (Suc m)
  have "[16 * q..<16 * (q + Suc m)] = [16 * q..<16 * (q + m)] @ [16 * (q + m)..<16 * (q + m) + 16]"
    by (subst upt_add_eq_append [symmetric]) (simp_all add: algebra_simps)
  moreover have "concat (map (reg_text R) [16 * (q + m)..<16 * (q + m) + 16]) = dump_row R (16 * q + 16 * m)"
    by (subst row_inside) (simp_all add: dump_row_def algebra_simps)
  ultimately show ?case using Suc.IH by simp
qed simp

lemma block_text: "concat (map (reg_text R) [16 * q..<16 * q + 256]) = dump_block R (16 * q)"
  using rows [of R q 16] by (simp add: dump_block_def algebra_simps)

lemma i2c_read_ok:
  assumes "sensor_acks k SENSOR_ADDR r0" and "regfile SENSOR_ADDR r0 h = R"
  obtains ret h' where "i2c_read k fd r v h = (ret, R r, h')" and "0 \<le> ret" and "says [] h h'"
proof -
  let ?c = "Ioctl fd I2C_RDWR (Arg_i2c (read_msgs SENSOR_ADDR r))"
  have "0 \<le> rv (k h ?c) \<and> rbytes (k h ?c) = [R r]" using assms by (simp add: sensor_acks_def Let_def)
  moreover have "says [] h (h @ [(?c, k h ?c)])" by (rule says_look) simp_all
  ultimately show ?thesis using that [of "rv (k h ?c)"] by (simp add: i2c_read_def sys_def overlay_def)
qed

lemma says_nop: "says s h h1 \<Longrightarrow> says (s @ (if b then t else [])) h (if b then sys_h k (Print t) h1 else h1)"
  using says_trans [OF _ says_print [of t h1 k], of s h] by simp

lemma says_then: "says s h h1 \<Longrightarrow> says (s @ t) h (sys_h k (Print t) h1)"
  by (rule says_trans [OF _ says_print])

lemma dump_reg_says:
  assumes "sensor_acks k SENSOR_ADDR r0" and "regfile SENSOR_ADDR r0 h = R" and "n < 2 ^ 16"
  shows "says (reg_text R n) h (dump_reg k fd (word_of_nat n) h)"
proof -
  from i2c_read_ok [OF assms(1,2), of fd "word_of_nat n" 0] obtain ret h1 where
    r: "i2c_read k fd (word_of_nat n) 0 h = (ret, R (word_of_nat n), h1)" "0 \<le> ret" "says [] h h1" .
  have n: "unat (word_of_nat n :: u16) = n" using assms(3) by (simp add: unat_of_nat take_bit_nat_eq_self)
  define s where "s = ''// 0x'' @ hex_fixed 4 n @ '':''"
  define h2 where "h2 = (if n mod 16 = 0 then sys_h k (Print s) h1 else h1)"
  have "says ((([] @ (if n mod 16 = 0 then s else [])) @ reg_cell R n) @ (if (n + 1) mod 16 = 0 then [LF] else [])) h
     (if (n + 1) mod 16 = 0 then sys_h k (Print [LF]) (sys_h k (Print (reg_cell R n)) h2) else sys_h k (Print (reg_cell R n)) h2)"
    unfolding h2_def by (intro says_nop says_then r(3))
  moreover have "dump_reg k fd (word_of_nat n) h =
     (if (n + 1) mod 16 = 0 then sys_h k (Print [LF]) (sys_h k (Print (reg_cell R n)) h2) else sys_h k (Print (reg_cell R n)) h2)"
    using r(2) by (simp only: dump_reg_def r(1) n s_def [symmetric] h2_def Let_def prod.case if_True reg_cell_def)
  ultimately show ?thesis by (simp only: reg_text_def s_def [symmetric] append_Nil append_assoc)
qed

lemma dump_key_says:
  assumes "sensor_acks k SENSOR_ADDR r0" and "regfile SENSOR_ADDR r0 h = R"
  shows "says (key_cell R i) h (dump_key k fd i h)"
proof -
  from i2c_read_ok [OF assms, of fd "dump_key_regs ! i" 0] obtain ret h1 where
    r: "i2c_read k fd (dump_key_regs ! i) 0 h = (ret, R (dump_key_regs ! i), h1)" "0 \<le> ret" "says [] h h1" .
  define s where "s = ''{0x'' @ hex_fixed 4 (unat (dump_key_regs ! i)) @ '', 0x'' @ hex_fixed 2 (unat (R (dump_key_regs ! i)))
     @ ''},  ''"
  have "says (([] @ s) @ (if (i + 1) mod 6 = 0 then [LF] else [])) h
     (if (i + 1) mod 6 = 0 then sys_h k (Print [LF]) (sys_h k (Print s) h1) else sys_h k (Print s) h1)"
    by (intro says_nop says_then r(3))
  moreover have "dump_key k fd i h =
     (if (i + 1) mod 6 = 0 then sys_h k (Print [LF]) (sys_h k (Print s) h1) else sys_h k (Print s) h1)"
    using r(2) by (simp only: dump_key_def r(1) s_def [symmetric] Let_def prod.case if_True)
  moreover have "key_cell R i = s @ (if (i + 1) mod 6 = 0 then [LF] else [])" by (simp only: key_cell_def s_def append_assoc)
  ultimately show ?thesis by simp
qed

lemma dump_range_says:
  assumes "sensor_acks k SENSOR_ADDR r0" and "regfile SENSOR_ADDR r0 h = R" and "16 * q + 255 < 2 ^ 16"
  shows "says (dump_block R (16 * q)) h (dump_range k fd (16 * q) (16 * q + 255) h)"
proof -
  have "says (concat (map (reg_text R) [16 * q..<16 * q + 256])) h
     (fold (\<lambda>r. dump_reg k fd (word_of_nat r)) [16 * q..<16 * q + 256] h)"
    by (rule says_fold [where a = SENSOR_ADDR and ?r0.0 = r0 and R = R]) (use assms dump_reg_says in auto)
  then show ?thesis by (simp add: block_text dump_range_def add.commute)
qed

lemma dump_keys_say:
  assumes "sensor_acks k SENSOR_ADDR r0" and "regfile SENSOR_ADDR r0 h = R"
  shows "says (concat (map (key_cell R) is)) h (fold (dump_key k fd) is h)"
  by (rule says_fold [where a = SENSOR_ADDR and ?r0.0 = r0 and R = R]) (use assms dump_key_says in auto)

text \<open>A step of the program that is walked with what was printed so far and the registers still as they were.\<close>

definition said :: "(u16 \<Rightarrow> u8) \<Rightarrow> string \<Rightarrow> int \<Rightarrow> hist \<Rightarrow> bool" where
  "said r0 s fd h \<longleftrightarrow> printed h = s \<and> regfile SENSOR_ADDR r0 h = r0 \<and> (\<forall>f. live h f = held_fd fd f)"

lemma said_says: "said r0 s fd h \<Longrightarrow> says t h h' \<Longrightarrow> said r0 (s @ t) fd h'"
  by (simp add: said_def says_printed says_regfile says_live)

lemma said_print: "said r0 s fd h \<Longrightarrow> said r0 (s @ t) fd (sys_h k (Print t) h)"
  by (rule said_says [OF _ says_print])

lemma said_range:
  assumes "sensor_acks k SENSOR_ADDR r0" and "said r0 s fd h" and "lo mod 16 = 0" and "lo + 255 < 2 ^ 16" and "hi = lo + 255"
  shows "said r0 (s @ dump_block r0 lo) fd (dump_range k fd' lo hi h)"
proof -
  have "lo = 16 * (lo div 16)" using assms(3) by presburger
  then show ?thesis
    using said_says [OF assms(2) dump_range_says [OF assms(1), of h r0 "lo div 16" fd']] assms by (simp add: said_def)
qed

lemma said_keys:
  assumes "sensor_acks k SENSOR_ADDR r0" and "said r0 s fd h"
  shows "said r0 (s @ concat (map (key_cell r0) is)) fd (fold (dump_key k fd') is h)"
  using said_says [OF assms(2) dump_keys_say [OF assms(1)]] assms(2) by (simp add: said_def)

text \<open>C39: On a bus where the sensor answers, the dump of the running sensor prints exactly the table of the
  contents of its registers: the key registers, then the blocks 0x30, 0x31 and 0x39 in rows of sixteen. It
  changes no register, closes its descriptor and exits with code 0.\<close>

theorem dump_sensor_reports:
  assumes "sensor_acks k SENSOR_ADDR r0" and "0 \<le> rv (k [] (Open ''/dev/i2c-0'' O_RDWR))"
  shows "\<exists>h'. dump_sensor_main k [] = (0, h') \<and> printed h' = sensor_report r0 \<and>
     regfile SENSOR_ADDR r0 h' = r0 \<and> (\<forall>f. live h' f = 0)"
proof -
  define c where "c = Open ''/dev/i2c-0'' O_RDWR"
  define fd where "fd = rv (k [] c)"
  have fd: "0 \<le> fd" using assms(2) by (simp add: fd_def c_def)
  have o: "said r0 [] fd [(c, k [] c)]" using fd by (simp add: said_def c_def fd_def held_fd_def)
  have e: "said r0 s fd h \<Longrightarrow> printed (sys_h k (Print t) (sys_h k (Close fd) h)) = s @ t \<and>
      regfile SENSOR_ADDR r0 (sys_h k (Print t) (sys_h k (Close fd) h)) = r0 \<and>
      (\<forall>f. live (sys_h k (Print t) (sys_h k (Close fd) h)) f = 0)" for s t h
    using fd by (auto simp: said_def os_simps held_fd_def)
  have S: "said r0 (((((((((([] @ (a1 @ [LF])) @ (a2 @ [LF, LF])) @ (a3 @ [LF]))
       @ concat (map (key_cell r0) js)) @ [LF, LF]) @ (b1 @ [LF])) @ dump_block r0 0x3000)
       @ ([LF] @ b2 @ [LF])) @ dump_block r0 0x3100) @ ([LF] @ b3 @ [LF]) @ dump_block r0 0x3900) fd
     (dump_range k fd 0x3900 0x39FF (sys_h k (Print ([LF] @ b3 @ [LF])) (dump_range k fd 0x3100 0x31FF
       (sys_h k (Print ([LF] @ b2 @ [LF])) (dump_range k fd 0x3000 0x30FF (sys_h k (Print (b1 @ [LF]))
       (sys_h k (Print [LF, LF]) (fold (dump_key k fd) js (sys_h k (Print (a3 @ [LF]))
       (sys_h k (Print (a2 @ [LF, LF])) (sys_h k (Print (a1 @ [LF])) [(c, k [] c)])))))))))))"
    for a1 a2 a3 b1 b2 b3 js
    unfolding append_assoc [symmetric, of _ "[LF] @ b3 @ [LF]"]
    by (intro said_print said_range [OF assms(1)] said_keys [OF assms(1)] o) simp_all
  note E = e [OF S [of "''// CV2003 (GC4201AC) live register dump''" "''// I2C addr: 0x35, sensor running at 1920x1080''"
    "''// Key registers from init table:''" "[0..<length dump_key_regs]" "''// Full register dump 0x3000-0x30FF:''"
    "''// Register dump 0x3100-0x31FF:''" "''// Register dump 0x3900-0x39FF:''"], of "[LF] @ ''// Done'' @ [LF]"]
  from fd have n: "(fd < 0) = False" by simp
  show ?thesis
    unfolding dump_sensor_main_def sys_def c_def [symmetric] fd_def [symmetric] Let_def prod.case n if_False append_Nil
    by (intro exI conjI; rule refl E [THEN conjunct1, unfolded append_assoc append_Nil, folded sensor_report_def [unfolded append_assoc]]
      E [THEN conjunct2, THEN conjunct1] E [THEN conjunct2, THEN conjunct2])
qed

theorem dump_sensor_reports_witness:
  "\<exists>h'. dump_sensor_main (k_sensor SENSOR_ADDR (\<lambda>r. ucast r)) [] = (0, h') \<and> printed h' = sensor_report (\<lambda>r. ucast r) \<and>
     regfile SENSOR_ADDR (\<lambda>r. ucast r) h' = (\<lambda>r. ucast r) \<and> (\<forall>f. live h' f = 0)"
  by (rule dump_sensor_reports [OF k_sensor_acks]) (simp add: k_sensor_def)

section \<open>The bus and the processor\<close>

text \<open>The line about a device, and the first pass of the scan: it names the one device on the bus.\<close>

definition found_line :: "nat \<Rightarrow> u8 \<Rightarrow> string" where
  "found_line i v = ''  FOUND device at 0x'' @ hex_fixed 2 i @ ''! reg 0x3000 = 0x'' @ hex_fixed 2 (unat v) @ [LF]"

lemma concat_single: "concat (map (\<lambda>i. if i = a then l else []) [m..<n]) = (if m \<le> a \<and> a < n then l else [])"
  by (induction n) auto

lemma scan_finds_sensor:
  assumes "sensor_acks k (word_of_nat a) r0" and "\<And>b. b \<noteq> word_of_nat a \<Longrightarrow> sensor_absent k b"
    and "3 \<le> a" and "a < 0x78" and "regfile (word_of_nat a) r0 h = R"
  shows "says (found_line a (R 0x3000)) h (fold (scan_read k fd) [0x03..<0x78] h)"
proof -
  have step: "says (if i = a then found_line a (R 0x3000) else []) h (scan_read k fd i h)"
    if i: "i \<in> set [0x03..<0x78]" and h: "regfile (word_of_nat a) r0 h = R" for i h
  proof -
    let ?c = "Ioctl fd I2C_RDWR (Arg_i2c (read_msgs (word_of_nat i) 0x3000))"
    have look: "says [] h (h @ [(?c, k h ?c)])" by (rule says_look) simp_all
    show ?thesis
    proof (cases "i = a")
      case True
      with assms(1) h have "0 \<le> rv (k h ?c)" "rbytes (k h ?c) = [R 0x3000]" by (simp_all add: sensor_acks_def Let_def)
      then have "scan_read k fd i h = sys_h k (Print (found_line a (R 0x3000))) (h @ [(?c, k h ?c)])"
        by (simp only: scan_read_def sys_def Let_def prod.case if_True overlay_def found_line_def True) simp
      with says_then [OF look] True show ?thesis by simp
    next
      case False
      have "(word_of_nat i :: u16) \<noteq> word_of_nat a"
        using False i assms(4) by (auto simp: word_of_nat_eq_iff take_bit_nat_eq_self)
      then have "rv (k h ?c) < 0" using assms(2) by (simp add: sensor_absent_def read_msgs_def)
      with look False show ?thesis by (simp add: scan_read_def sys_def)
    qed
  qed
  have "says (concat (map (\<lambda>i. if i = a then found_line a (R 0x3000) else []) [0x03..<0x78])) h
     (fold (scan_read k fd) [0x03..<0x78] h)"
    by (rule says_fold [OF step assms(5)])
  then show ?thesis unfolding concat_single using assms(3,4) by simp
qed

text \<open>
  The registers \<open>dump_isp_regs.c\<close> reads: the index of the array advances by four while its elements are words,
  so of the first 2048 bytes only every fourth register is read.
\<close>

definition peeks :: "hist \<Rightarrow> nat list" where
  "peeks h = concat (map (\<lambda>p. case fst p of Peek b off \<Rightarrow> [off] | _ \<Rightarrow> []) h)"

lemma peeks_simps [simp]:
  "peeks [] = []" "peeks (h @ h') = peeks h @ peeks h'"
  "peeks (p # h) = (case fst p of Peek b off \<Rightarrow> [off] | _ \<Rightarrow> []) @ peeks h"
  by (simp_all add: peeks_def)

lemma peeks_fold: "peeks (fold (dump_isp_reg k m) is h) = peeks h @ map (\<lambda>i. 4 * i) is"
  by (induction "is" arbitrary: h) (simp_all add: dump_isp_reg_def peek_def os_simps sys_def Let_def)

lemma dump_isp_every_fourth:
  "dump_isp_main k [] = (0, h') \<Longrightarrow> peeks h' = map (\<lambda>j. 16 * j) [0..<128]"
  by (auto simp: dump_isp_main_def sys_def os_simps Let_def peeks_fold comp_def simp del: upt_rec_numeral split: if_splits)

lemma dump_isp_inside: "dump_isp_main k [] = (0, h') \<Longrightarrow> off \<in> set (peeks h') \<Longrightarrow> off + 4 \<le> unat (0x3240 :: u32)"
  by (auto simp: dump_isp_every_fourth)

end
