(* ===== verification/Sdk_Types.thy ===== *)
theory Sdk_Types
  imports Fh_Mpi Libcv2003_Mipi Cv2003_Driver
begin

text \<open>
  The structures of \<open>sdk/headers\<close>. They were recovered from the original firmware, and the comment behind
  a field says at which offset the firmware has it, so what matters of a declaration is the layout the compiler
  gives it: \<open>offsets\<close> and \<open>csize\<close> follow the procedure call standard of the target (pointers and words
  of four bytes, doubles aligned to eight). The lemmas show that this layout is sound for every declaration, where the
  comments agree with it, and where they cannot.
\<close>

section \<open>Layout\<close>

datatype ctype =
    C8 | C16 | C32 | C_double | C_pointer
  | C_array ctype nat
  | C_struct "(string \<times> ctype) list"

definition align_to :: "nat \<Rightarrow> nat \<Rightarrow> nat" where
  "align_to a n = (n + a - 1) div a * a"

text \<open>Fields one after the other, each at the next offset its alignment allows; and the first free offset after them.\<close>

fun place :: "(string \<times> nat \<times> nat) list \<Rightarrow> nat \<Rightarrow> (string \<times> nat) list" where
  "place [] off = []"
| "place ((n, s, a) # fs) off = (n, align_to a off) # place fs (align_to a off + s)"

fun extent :: "(string \<times> nat \<times> nat) list \<Rightarrow> nat \<Rightarrow> nat" where
  "extent [] off = off"
| "extent ((n, s, a) # fs) off = extent fs (align_to a off + s)"

definition max_align :: "nat list \<Rightarrow> nat" where
  "max_align as = foldr max as 1"

fun calign :: "ctype \<Rightarrow> nat" where
  "calign C8 = 1"
| "calign C16 = 2"
| "calign C32 = 4"
| "calign C_double = 8"
| "calign C_pointer = 4"
| "calign (C_array t n) = calign t"
| "calign (C_struct fs) = max_align (map (\<lambda>(n, t). calign t) fs)"

fun csize :: "ctype \<Rightarrow> nat" where
  "csize C8 = 1"
| "csize C16 = 2"
| "csize C32 = 4"
| "csize C_double = 8"
| "csize C_pointer = 4"
| "csize (C_array t n) = n * csize t"
| "csize (C_struct fs) = align_to (max_align (map (\<lambda>(n, t). calign t) fs)) (extent (map (\<lambda>(n, t). (n, csize t, calign t)) fs) 0)"

definition cells :: "(string \<times> ctype) list \<Rightarrow> (string \<times> nat \<times> nat) list" where
  "cells fs = map (\<lambda>(n, t). (n, csize t, calign t)) fs"

definition offsets :: "(string \<times> ctype) list \<Rightarrow> (string \<times> nat) list" where
  "offsets fs = place (cells fs) 0"

text \<open>The comments a layout contradicts, as field and offset; comments and fields are in the same order.\<close>

fun disagree :: "(string \<times> nat) list \<Rightarrow> (string \<times> nat) list \<Rightarrow> (string \<times> nat) list" where
  "disagree [] ds = ds"
| "disagree (p # ps) [] = []"
| "disagree ((n, off) # ps) ((m, d) # ds) =
     (if n = m then (if off = d then [] else [(m, d)]) @ disagree ps ds else disagree ps ((m, d) # ds))"

definition contradicted :: "(string \<times> ctype) list \<Rightarrow> (string \<times> nat) list \<Rightarrow> (string \<times> nat) list" where
  "contradicted fs doc = disagree (offsets fs) doc"

lemma align_to_dvd: "a dvd align_to a n"
  by (simp add: align_to_def)

lemma align_to_ge: "0 < a \<Longrightarrow> n \<le> align_to a n"
proof -
  assume a: "0 < a"
  have "(n + a - 1) div a * a + (n + a - 1) mod a = n + a - 1" by simp
  moreover have "(n + a - 1) mod a < a" using a by simp
  ultimately show ?thesis unfolding align_to_def by linarith
qed

lemma max_align_pos: "0 < max_align as"
  by (induction as) (auto simp: max_align_def)

lemma calign_pos: "0 < calign t"
  by (induction t) (simp_all add: max_align_pos)

lemma extent_ge: "list_all (\<lambda>(n, s, a). 0 < a) fs \<Longrightarrow> off \<le> extent fs off"
proof (induction fs off rule: extent.induct)
  case (2 n s a fs off)
  then have "align_to a off + s \<le> extent fs (align_to a off + s)" "off \<le> align_to a off" by (auto intro: align_to_ge)
  then show ?case by simp
qed simp

lemma length_place [simp]: "length (place fs off) = length fs"
  by (induction fs off rule: place.induct) auto

text \<open>Fields are aligned, end before the first free offset, and do not overlap.\<close>

lemma place_aligned: "i < length fs \<Longrightarrow> snd (snd (fs ! i)) dvd snd (place fs off ! i)"
  by (induction fs off arbitrary: i rule: place.induct) (auto simp: align_to_dvd nth_Cons split: nat.split)

lemma place_from: "list_all (\<lambda>(n, s, a). 0 < a) fs \<Longrightarrow> i < length fs \<Longrightarrow> off \<le> snd (place fs off ! i)"
proof (induction fs off arbitrary: i rule: place.induct)
  case (2 n s a fs off)
  have "off \<le> align_to a off" using "2.prems" by (auto intro: align_to_ge)
  then show ?case using "2.IH" [of "i - 1"] "2.prems" by (cases i) auto
qed simp

lemma place_until:
  "list_all (\<lambda>(n, s, a). 0 < a) fs \<Longrightarrow> i < length fs \<Longrightarrow>
     snd (place fs off ! i) + fst (snd (fs ! i)) \<le> extent fs off"
proof (induction fs off arbitrary: i rule: place.induct)
  case (2 n s a fs off)
  then show ?case using "2.IH" [of "i - 1"] extent_ge [of fs "align_to a off + s"] by (cases i) auto
qed simp

lemma place_disjoint:
  "list_all (\<lambda>(n, s, a). 0 < a) fs \<Longrightarrow> i < j \<Longrightarrow> j < length fs \<Longrightarrow>
     snd (place fs off ! i) + fst (snd (fs ! i)) \<le> snd (place fs off ! j)"
proof (induction fs off arbitrary: i j rule: place.induct)
  case (2 n s a fs off)
  then show ?case using "2.IH" [of "i - 1" "j - 1"] place_from [of fs "j - 1" "align_to a off + s"]
    by (cases i; cases j) auto
qed simp

lemma cells_pos: "list_all (\<lambda>(n, s, a). 0 < a) (cells fs)"
  by (induction fs) (auto simp: cells_def calign_pos)

lemma max_align_dvd_size: "calign (C_struct fs) dvd csize (C_struct fs)"
  by (simp add: align_to_dvd)

text \<open>Every declaration: fields in order, aligned, apart and inside.\<close>

lemma struct_layout_sound:
  assumes "i < length fs"
  shows "calign (snd (fs ! i)) dvd snd (offsets fs ! i)"
    and "snd (offsets fs ! i) + csize (snd (fs ! i)) \<le> csize (C_struct fs)"
    and "i < j \<Longrightarrow> j < length fs \<Longrightarrow> snd (offsets fs ! i) + csize (snd (fs ! i)) \<le> snd (offsets fs ! j)"
proof -
  have c: "cells fs ! i = (fst (fs ! i), csize (snd (fs ! i)), calign (snd (fs ! i)))"
    using assms by (simp add: cells_def case_prod_beta)
  have l: "i < length (cells fs)" using assms by (simp add: cells_def)
  show "calign (snd (fs ! i)) dvd snd (offsets fs ! i)"
    using place_aligned [OF l, of 0] by (simp add: c offsets_def)
  show "snd (offsets fs ! i) + csize (snd (fs ! i)) \<le> csize (C_struct fs)"
    using place_until [OF cells_pos l, of 0] align_to_ge [OF max_align_pos, of "extent (cells fs) 0"]
    unfolding c offsets_def by (simp add: cells_def) (meson le_trans)
  show "snd (offsets fs ! i) + csize (snd (fs ! i)) \<le> snd (offsets fs ! j)" if "i < j" "j < length fs"
    using place_disjoint [OF cells_pos that(1), of fs 0] that by (simp add: c offsets_def cells_def case_prod_beta)
qed

section \<open>The declarations\<close>

text \<open>
  Each structure with its fields, and the comments of its fields as byte offsets: some count words, some bytes, and
  a field without an offset in its comment has no entry.
\<close>

definition FH_ACCOUNT :: "(string \<times> ctype) list" where
  "FH_ACCOUNT =
    [(''name'', C_array C8 32), (''password'', C_array C8 32), (''type'', C32), (''power'', C32)]"

definition FH_ACCOUNT_at :: "(string \<times> nat) list" where
  "FH_ACCOUNT_at =
    [(''name'', 0), (''password'', 0x20), (''type'', 0x40), (''power'', 0x44)]"

definition FH_DEVICE_INFO :: "(string \<times> ctype) list" where
  "FH_DEVICE_INFO =
    [(''unknown0'', C32), (''pad1'', C_array C8 12), (''devtype'', C_array C8 32),
     (''uboot_ver'', C_array C8 48), (''kernel_ver'', C_array C8 48), (''version'', C_array C8 48),
     (''devno'', C_array C8 64), (''serial'', C_array C8 32), (''nickname'', C_array C8 64),
     (''chn_name'', C_array C8 64), (''manufacturer'', C_array C8 32), (''location'', C_array C8 32),
     (''language'', C32), (''timezone'', C32), (''voice'', C32), (''chn_num'', C32), (''reserved'', C32),
     (''system_function'', C32), (''home_ipc'', C32), (''stream_num'', C32), (''cpu_type'', C_array C8 32)]"

definition FH_DEVICE_INFO_at :: "(string \<times> nat) list" where
  "FH_DEVICE_INFO_at =
    [(''unknown0'', 0), (''pad1'', 4), (''devtype'', 0x10), (''uboot_ver'', 0x30), (''kernel_ver'', 0x60),
     (''version'', 0x90), (''devno'', 0xc0), (''serial'', 0x100), (''nickname'', 0x120), (''chn_name'', 0x160),
     (''manufacturer'', 0x1a0), (''location'', 0x1c0), (''language'', 0x1e0), (''timezone'', 0x1e4),
     (''voice'', 0x1e8), (''chn_num'', 0x1ec), (''reserved'', 0x1f0), (''system_function'', 0x1f4),
     (''home_ipc'', 0x1f8), (''stream_num'', 0x1fc), (''cpu_type'', 0x200)]"

definition FH_HWINFO :: "(string \<times> ctype) list" where
  "FH_HWINFO =
    [(''pad0'', C_array C8 136), (''uboot_version_num'', C32), (''kernel_version_num'', C32),
     (''rootfs_version_num'', C32), (''pad1'', C_array C8 64), (''p2p_type'', C32), (''chn_num'', C32),
     (''sensor_type'', C32), (''pad2'', C_array C8 4), (''isp_width'', C32), (''isp_height'', C32),
     (''pad3'', C_array C8 8), (''vi_width'', C32), (''vi_height'', C32), (''cap0_width'', C32),
     (''cap0_height'', C32), (''pad4'', C_array C8 16), (''msg_queue'', C32), (''pad5'', C_array C8 8),
     (''has_wifi'', C32), (''pad6'', C_array C8 3), (''af_protocol'', C8), (''ptz_h_convert'', C8),
     (''ptz_v_convert'', C8), (''ir_lamp_level'', C8), (''white_lamp_level'', C8), (''ircut_convert'', C8),
     (''speaker_level'', C8), (''photoresistor_type'', C8), (''photoresistor_level'', C8),
     (''hw_change_lamp_mode'', C8), (''pad7'', C_array C8 3), (''max_ptz_h_step'', C32),
     (''max_ptz_v_step'', C32), (''ptz_h_speed'', C32), (''ptz_v_speed'', C32), (''ptz_move_volume'', C32),
     (''ptz_track_mode'', C32), (''custom_io_func1'', C32), (''custom_io_func2'', C32),
     (''pad8'', C_array C8 4), (''sys_function_hw'', C32), (''pad9'', C_array C8 8),
     (''af_protocol_ext'', C32), (''pad10'', C_array C8 13), (''sensor_index'', C8)]"

definition FH_HWINFO_at :: "(string \<times> nat) list" where
  "FH_HWINFO_at =
    [(''pad0'', 0), (''uboot_version_num'', 0x88), (''kernel_version_num'', 0x8c),
     (''rootfs_version_num'', 0x90), (''pad1'', 0x94), (''p2p_type'', 0xd4), (''chn_num'', 0xd8),
     (''sensor_type'', 0xdc), (''pad2'', 0xe0), (''isp_width'', 0xe4), (''isp_height'', 0xe8),
     (''pad3'', 0xec), (''vi_width'', 0xf4), (''vi_height'', 0xf8), (''cap0_width'', 0xfc),
     (''cap0_height'', 0x100), (''pad4'', 0x104), (''msg_queue'', 0x114), (''pad5'', 0x118),
     (''has_wifi'', 0x120), (''pad6'', 0x124), (''af_protocol'', 0x127), (''ptz_h_convert'', 0x128),
     (''ptz_v_convert'', 0x129), (''ir_lamp_level'', 0x12a), (''white_lamp_level'', 0x12b),
     (''ircut_convert'', 0x12c), (''speaker_level'', 0x12d), (''photoresistor_type'', 0x12e),
     (''photoresistor_level'', 0x12f), (''hw_change_lamp_mode'', 0x130), (''pad7'', 0x131),
     (''max_ptz_h_step'', 0x134), (''max_ptz_v_step'', 0x138), (''ptz_h_speed'', 0x13c),
     (''ptz_v_speed'', 0x140), (''ptz_move_volume'', 0x144), (''ptz_track_mode'', 0x148),
     (''custom_io_func1'', 0x14c), (''custom_io_func2'', 0x150), (''pad8'', 0x154),
     (''sys_function_hw'', 0x158), (''pad9'', 0x15c), (''af_protocol_ext'', 0x164), (''pad10'', 0x168),
     (''sensor_index'', 0x175)]"

definition FH_VENC_CHN_ATTR :: "(string \<times> ctype) list" where
  "FH_VENC_CHN_ATTR =
    [(''type'', C32), (''width'', C32), (''height'', C32)]"

definition FH_VENC_NALU :: "(string \<times> ctype) list" where
  "FH_VENC_NALU =
    [(''addr'', C32), (''type'', C32), (''length'', C32)]"

definition FH_VENC_NALU_at :: "(string \<times> nat) list" where
  "FH_VENC_NALU_at =
    [(''addr'', 0), (''type'', 4), (''length'', 8)]"

definition FH_VENC_STREAM :: "(string \<times> ctype) list" where
  "FH_VENC_STREAM =
    [(''type'', C32), (''chn'', C32), (''total_size'', C32), (''frame_type'', C32), (''pts_lo'', C32),
     (''dts_lo'', C32), (''dts_hi'', C32), (''nalu_count'', C32),
     (''nalus'', C_array (C_struct FH_VENC_NALU) 18), (''seq_num'', C32), (''stat'', C_array C32 6),
     (''framerate'', C_double), (''enc_width'', C32), (''enc_height'', C32)]"

definition FH_VENC_STREAM_at :: "(string \<times> nat) list" where
  "FH_VENC_STREAM_at =
    [(''type'', 0), (''chn'', 4), (''total_size'', 8), (''frame_type'', 0xc), (''pts_lo'', 0x10),
     (''dts_lo'', 0x14), (''dts_hi'', 0x18), (''nalu_count'', 0x1c), (''nalus'', 0x20), (''seq_num'', 0x110),
     (''stat'', 0x114), (''framerate'', 0x130), (''enc_width'', 0x138), (''enc_height'', 0x13c)]"

definition FH_VENC_RC_ATTR :: "(string \<times> ctype) list" where
  "FH_VENC_RC_ATTR =
    [(''type'', C32), (''bitrate'', C32), (''max_bitrate'', C32), (''gop'', C32), (''field4'', C32),
     (''field5'', C32), (''field6'', C32), (''stat_time'', C32), (''max_qp'', C32), (''min_qp'', C32),
     (''qp_delta'', C32), (''i_qp_delta'', C32), (''change_pos'', C32), (''min_i_ratio'', C32),
     (''min_qp_i'', C32), (''max_qp_i'', C32), (''reserved'', C_array C32 1)]"

definition FH_VENC_RC_ATTR_at :: "(string \<times> nat) list" where
  "FH_VENC_RC_ATTR_at =
    [(''type'', 0), (''bitrate'', 4), (''max_bitrate'', 8), (''gop'', 0xc), (''field4'', 0x10),
     (''field5'', 0x14), (''field6'', 0x18), (''stat_time'', 0x1c), (''max_qp'', 0x20), (''min_qp'', 0x24),
     (''qp_delta'', 0x28), (''i_qp_delta'', 0x2c), (''change_pos'', 0x30), (''min_i_ratio'', 0x34),
     (''min_qp_i'', 0x38), (''max_qp_i'', 0x3c), (''reserved'', 0x40)]"

definition FH_VPSS_VI_ATTR :: "(string \<times> ctype) list" where
  "FH_VPSS_VI_ATTR =
    [(''width'', C32), (''height'', C32)]"

definition FH_VPSS_CHN_ATTR :: "(string \<times> ctype) list" where
  "FH_VPSS_CHN_ATTR =
    [(''width'', C32), (''height'', C32)]"

definition FH_VPSS_FRAMECTRL :: "(string \<times> ctype) list" where
  "FH_VPSS_FRAMECTRL =
    [(''src_rate'', C16), (''dst_rate'', C16)]"

definition FH_VPSS_LDC_ATTR :: "(string \<times> ctype) list" where
  "FH_VPSS_LDC_ATTR =
    [(''enable'', C32), (''center_x'', C32), (''center_y'', C32), (''strength'', C32)]"

definition FH_VPSS_FRAME :: "(string \<times> ctype) list" where
  "FH_VPSS_FRAME =
    [(''phys_addr'', C32), (''format'', C32), (''width'', C32), (''height'', C32), (''stride_y'', C32),
     (''stride_c'', C32), (''size'', C32), (''phys_addr_c'', C32), (''virt_addr'', C32),
     (''virt_addr_c'', C32), (''pts_lo'', C32), (''pts_hi'', C32)]"

definition FH_VPSS_FRAME_at :: "(string \<times> nat) list" where
  "FH_VPSS_FRAME_at =
    [(''phys_addr'', 0), (''format'', 4), (''width'', 8), (''height'', 0xc), (''stride_y'', 0x10),
     (''stride_c'', 0x14), (''size'', 0x18), (''phys_addr_c'', 0x1c), (''virt_addr'', 0x20),
     (''virt_addr_c'', 0x24), (''pts_lo'', 0x28), (''pts_hi'', 0x2c)]"

definition FH_ISP_CONTRAST_CFG :: "(string \<times> ctype) list" where
  "FH_ISP_CONTRAST_CFG =
    [(''auto_enable'', C32), (''enable'', C32), (''strength'', C8), (''offset'', C8), (''lut'', C_array C8 4)]"

definition FH_ISP_CONTRAST_CFG_at :: "(string \<times> nat) list" where
  "FH_ISP_CONTRAST_CFG_at =
    [(''auto_enable'', 0), (''enable'', 4), (''strength'', 8), (''offset'', 9), (''lut'', 0xa)]"

definition FH_ISP_GAMMA_CFG :: "(string \<times> ctype) list" where
  "FH_ISP_GAMMA_CFG =
    [(''auto_enable'', C32), (''mode'', C32), (''curve_sel'', C32), (''strength'', C32),
     (''curve1'', C_array C16 160), (''curve2_sel'', C32), (''curve2_mode'', C32),
     (''curve2'', C_array C16 160)]"

definition FH_ISP_GAMMA_CFG_at :: "(string \<times> nat) list" where
  "FH_ISP_GAMMA_CFG_at =
    [(''auto_enable'', 0), (''mode'', 4), (''curve_sel'', 8), (''strength'', 0xc), (''curve1'', 0x10),
     (''curve2_sel'', 0x150), (''curve2_mode'', 0x154), (''curve2'', 0x158)]"

definition FH_ISP_AE_DEFAULT_CFG :: "(string \<times> ctype) list" where
  "FH_ISP_AE_DEFAULT_CFG =
    [(''flags'', C_array C32 15), (''reserved1'', C_array C8 12), (''target'', C8), (''speed_up'', C8),
     (''speed_down'', C8), (''tolerance'', C8), (''ae_params'', C_array C8 12), (''speed'', C8),
     (''compensation'', C8), (''flicker_mode'', C8), (''flicker_freq'', C8), (''exposure_min'', C8),
     (''exposure_max_h'', C8), (''gain_limit'', C_array C8 2), (''integration_max'', C16),
     (''weight_table'', C_array C8 128), (''luma_comp'', C_array C8 16), (''isp_dgain_max'', C32),
     (''gain_range'', C_array C16 4), (''frame_rate'', C16), (''hist_offset'', C_array C8 2)]"

definition FH_ISP_AE_DEFAULT_CFG_at :: "(string \<times> nat) list" where
  "FH_ISP_AE_DEFAULT_CFG_at =
    [(''flags'', 0), (''target'', 0x50), (''speed_up'', 0x51), (''speed_down'', 0x52), (''tolerance'', 0x53),
     (''ae_params'', 0x54), (''speed'', 0x5c), (''compensation'', 0x5d), (''flicker_mode'', 0x5e),
     (''flicker_freq'', 0x5f), (''exposure_min'', 0x60), (''exposure_max_h'', 0x61), (''gain_limit'', 0x62),
     (''integration_max'', 0x64), (''weight_table'', 0x66), (''luma_comp'', 0x166), (''isp_dgain_max'', 0x190),
     (''gain_range'', 0x194), (''frame_rate'', 0x19c), (''hist_offset'', 0x19e)]"

definition FH_ISP_NR3D_CFG :: "(string \<times> ctype) list" where
  "FH_ISP_NR3D_CFG =
    [(''auto_enable'', C32), (''enable'', C32), (''mode1'', C32), (''mode2'', C32), (''spatial_en'', C32),
     (''temporal_en'', C32), (''spatial_str'', C8), (''ref_en'', C32), (''motion_str'', C8),
     (''adaptive'', C32), (''blend_mode'', C32), (''max_strength'', C16), (''filter_params'', C_array C8 21),
     (''motion_lut'', C_array C16 9)]"

definition FH_ISP_NR3D_CFG_at :: "(string \<times> nat) list" where
  "FH_ISP_NR3D_CFG_at =
    [(''auto_enable'', 0), (''enable'', 4), (''mode1'', 8), (''mode2'', 0xc), (''spatial_en'', 0x10),
     (''temporal_en'', 0x14), (''spatial_str'', 0x18), (''ref_en'', 0x1c), (''motion_str'', 0x20),
     (''adaptive'', 0x24), (''blend_mode'', 0x28), (''max_strength'', 0x2c)]"

definition FH_ISP_APC_CFG :: "(string \<times> ctype) list" where
  "FH_ISP_APC_CFG =
    [(''auto_enable'', C32), (''enable'', C32), (''mode_flags'', C_array C32 6),
     (''edge_params'', C_array C8 4), (''thresholds'', C_array C16 4), (''strength_lut'', C_array C8 48),
     (''detail_params'', C_array C8 36)]"

definition FH_ISP_APC_CFG_at :: "(string \<times> nat) list" where
  "FH_ISP_APC_CFG_at =
    [(''auto_enable'', 0), (''enable'', 4), (''mode_flags'', 8), (''edge_params'', 0x20),
     (''thresholds'', 0x26)]"

definition FH_ISP_SATURATION_CFG :: "(string \<times> ctype) list" where
  "FH_ISP_SATURATION_CFG =
    [(''auto_enable'', C32), (''enable'', C32), (''global_sat'', C8), (''offset'', C8), (''range_min'', C8),
     (''range_max'', C8), (''cb_mode'', C32), (''cr_mode'', C32), (''cb_gain'', C8), (''hue_enable'', C32),
     (''hue_mode'', C32), (''hue_offset'', C8), (''sat_lut'', C_array C8 48), (''hue_lut'', C_array C8 128)]"

definition FH_ISP_SATURATION_CFG_at :: "(string \<times> nat) list" where
  "FH_ISP_SATURATION_CFG_at =
    [(''auto_enable'', 0), (''enable'', 4), (''global_sat'', 8), (''offset'', 9), (''range_min'', 0xa),
     (''range_max'', 0xb), (''cb_mode'', 0xc), (''cr_mode'', 0x10), (''cb_gain'', 0x14),
     (''hue_enable'', 0x18), (''hue_mode'', 0x1c), (''hue_offset'', 0x20)]"

definition FH_AC_CONFIG :: "(string \<times> ctype) list" where
  "FH_AC_CONFIG =
    [(''cmd_size'', C32), (''param1'', C16), (''param2'', C16), (''format'', C32), (''status'', C32),
     (''data_size'', C32), (''phys_addr'', C32)]"

definition FH_AC_AI_FRAME :: "(string \<times> ctype) list" where
  "FH_AC_AI_FRAME =
    [(''size'', C32), (''data'', C_pointer)]"

definition FH_AC_PTS :: "(string \<times> ctype) list" where
  "FH_AC_PTS =
    [(''pts_lo'', C32), (''pts_hi'', C32)]"

definition FH_AC_AO_FRAME :: "(string \<times> ctype) list" where
  "FH_AC_AO_FRAME =
    [(''size'', C32), (''data'', C_pointer)]"

definition FH_NNA_DET_PARAM :: "(string \<times> ctype) list" where
  "FH_NNA_DET_PARAM =
    [(''model_data'', C_pointer), (''num_classes'', C32), (''input_width'', C32), (''input_height'', C32),
     (''input_channels'', C32), (''batch_size'', C32), (''rotate_mode'', C32)]"

definition FH_NNA_DET_PARAM_at :: "(string \<times> nat) list" where
  "FH_NNA_DET_PARAM_at =
    [(''model_data'', 0), (''num_classes'', 4), (''input_width'', 8), (''input_height'', 0xc),
     (''input_channels'', 0x10), (''batch_size'', 0x14), (''rotate_mode'', 0x18)]"

definition cv2003_reg_t :: "(string \<times> ctype) list" where
  "cv2003_reg_t =
    [(''reg'', C16), (''val'', C16)]"

section \<open>The request numbers\<close>

definition VPSS_IOCTL_SET_VI_ATTR :: u32 where "VPSS_IOCTL_SET_VI_ATTR = 0xC0F4696A"
definition VPSS_IOCTL_ENABLE :: u32 where "VPSS_IOCTL_ENABLE = 0xC0046971"
definition VPSS_IOCTL_SET_CHN_ATTR :: u32 where "VPSS_IOCTL_SET_CHN_ATTR = 0xC00C696C"
definition VPSS_IOCTL_OPEN_CHN :: u32 where "VPSS_IOCTL_OPEN_CHN = 0xC0046973"
definition VPSS_IOCTL_SET_VO_MODE :: u32 where "VPSS_IOCTL_SET_VO_MODE = 0xC00869A4"
definition VPSS_IOCTL_SET_FRAMECTRL :: u32 where "VPSS_IOCTL_SET_FRAMECTRL = 0xC0086978"
definition VPSS_IOCTL_GET_FRAME :: u32 where "VPSS_IOCTL_GET_FRAME = 0xC0686970"
definition VENC_IOCTL_GET_STREAM :: u32 where "VENC_IOCTL_GET_STREAM = 0xC1A04D05"
definition VENC_IOCTL_CREATE_CHN :: u32 where "VENC_IOCTL_CREATE_CHN = 0xC01C5403"

text \<open>The library's requests are the headers', and what they announce is the structure behind a channel number or nothing more.\<close>

lemma header_requests_agree:
  "VPSS_SET_VI_ATTR = VPSS_IOCTL_SET_VI_ATTR" "VPSS_ENABLE = VPSS_IOCTL_ENABLE"
  "VPSS_SET_CHN_ATTR = VPSS_IOCTL_SET_CHN_ATTR" "VPSS_OPEN_CHN = VPSS_IOCTL_OPEN_CHN"
  "VPSS_SET_VO_MODE = VPSS_IOCTL_SET_VO_MODE" "VPSS_SET_FRAMECTRL = VPSS_IOCTL_SET_FRAMECTRL"
  "VPSS_GET_CHN_FRAME = VPSS_IOCTL_GET_FRAME" "VENC_GET_STREAM = VENC_IOCTL_GET_STREAM"
  "VENC_CREATE_CHN = VENC_IOCTL_CREATE_CHN"
  by (simp_all add: VPSS_SET_VI_ATTR_def VPSS_ENABLE_def VPSS_SET_CHN_ATTR_def VPSS_OPEN_CHN_def VPSS_SET_VO_MODE_def
      VPSS_SET_FRAMECTRL_def VPSS_GET_CHN_FRAME_def VENC_GET_STREAM_def VENC_CREATE_CHN_def VPSS_IOCTL_SET_VI_ATTR_def
      VPSS_IOCTL_ENABLE_def VPSS_IOCTL_SET_CHN_ATTR_def VPSS_IOCTL_OPEN_CHN_def VPSS_IOCTL_SET_VO_MODE_def
      VPSS_IOCTL_SET_FRAMECTRL_def VPSS_IOCTL_GET_FRAME_def VENC_IOCTL_GET_STREAM_def VENC_IOCTL_CREATE_CHN_def)

section \<open>The sensor's header\<close>

definition CV2003_I2C_ADDR :: u16 where "CV2003_I2C_ADDR = 0x35"
definition CV2003_I2C_ADDR_RAW :: u16 where "CV2003_I2C_ADDR_RAW = 0x6A"
definition CV2003_REG_PID1 :: u16 where "CV2003_REG_PID1 = 0x307a"
definition CV2003_REG_PID2 :: u16 where "CV2003_REG_PID2 = 0x3138"
definition CV2003_PID1_VAL_A :: u16 where "CV2003_PID1_VAL_A = 0x02"
definition CV2003_PID1_VAL_B :: u16 where "CV2003_PID1_VAL_B = 0x20"
definition CV2003_PID2_VAL :: u16 where "CV2003_PID2_VAL = 0x03"
definition CV2003_VCYCLE_DEFAULT :: nat where "CV2003_VCYCLE_DEFAULT = 2700"
definition CV2003_REG_STREAM_EN :: u16 where "CV2003_REG_STREAM_EN = 0x3141"
definition CV2003_REG_VCYCLE_LO :: u16 where "CV2003_REG_VCYCLE_LO = 0x3020"
definition CV2003_REG_VCYCLE_HI :: u16 where "CV2003_REG_VCYCLE_HI = 0x3021"
definition CV2003_REG_STANDBY :: u16 where "CV2003_REG_STANDBY = 0x3000"
definition CV2003_REG_PLL_DIV :: u16 where "CV2003_REG_PLL_DIV = 0x3031"
definition CV2003_REG_HCYCLE_LO :: u16 where "CV2003_REG_HCYCLE_LO = 0x3024"
definition CV2003_REG_HCYCLE_HI :: u16 where "CV2003_REG_HCYCLE_HI = 0x3025"
definition CV2003_FMT_1080P25 :: u32 where "CV2003_FMT_1080P25 = 0x203"
definition CV2003_FMT_1080P30 :: u32 where "CV2003_FMT_1080P30 = 0x204"

text \<open>
  The names of \<open>cv2003_sensor.h\<close> are the numbers the two drivers use, and its comment on the formats holds for the
  two tables the streamer's library has: the first thirty-six entries are the same, and the tables differ in nothing but the
  frame length, which at 25 frames a second is the default.
\<close>

lemma sensor_header_agrees:
  "CV2003_REG_PID1 = REG_PID1" "CV2003_REG_PID2 = REG_PID2" "CV2003_REG_STREAM_EN = REG_STREAM_EN"
  "CV2003_REG_VCYCLE_LO = REG_VCYC_LO" "CV2003_REG_VCYCLE_HI = REG_VCYC_HI" "CV2003_REG_STANDBY = REG_STANDBY"
  "CV2003_REG_PLL_DIV = REG_PLL_DIV" "CV2003_REG_HCYCLE_LO = REG_HCYC_LO" "CV2003_REG_HCYCLE_HI = REG_HCYC_HI"
  "CV2003_I2C_ADDR = CV2003_DEFAULT_ADDR" "CV2003_I2C_ADDR_RAW = PROBE_ADDRS_8BIT ! 0"
  "drop_bit 1 CV2003_I2C_ADDR_RAW = CV2003_I2C_ADDR"
  "format_id Sensor_Cfg_CV2003_MIPI_1080P25 = CV2003_FMT_1080P25" "format_id Sensor_Cfg_CV2003_MIPI_1080P30 = CV2003_FMT_1080P30"
  by (simp_all add: CV2003_I2C_ADDR_def CV2003_I2C_ADDR_RAW_def CV2003_REG_PID1_def CV2003_REG_PID2_def
      CV2003_REG_STREAM_EN_def CV2003_REG_VCYCLE_LO_def CV2003_REG_VCYCLE_HI_def CV2003_REG_STANDBY_def
      CV2003_REG_PLL_DIV_def CV2003_REG_HCYCLE_LO_def CV2003_REG_HCYCLE_HI_def CV2003_FMT_1080P25_def
      CV2003_FMT_1080P30_def reg_names CV2003_DEFAULT_ADDR_def PROBE_ADDRS_8BIT_def
      Sensor_Cfg_CV2003_MIPI_1080P25_def Sensor_Cfg_CV2003_MIPI_1080P30_def)

lemma sensor_identity: "is_cv2003 p q \<longleftrightarrow> (p = CV2003_PID1_VAL_A \<or> p = CV2003_PID1_VAL_B) \<and> q = CV2003_PID2_VAL"
  by (simp add: is_cv2003_def CV2003_PID1_VAL_A_def CV2003_PID1_VAL_B_def CV2003_PID2_VAL_def)

lemma formats_differ_in_length:
  "length regs_1080p25 = 52" "length regs_1080p30 = 52" "take 36 regs_1080p25 = take 36 regs_1080p30"
  "filter (\<lambda>(p, q). p \<noteq> q) (zip regs_1080p25 regs_1080p30) =
     [((CV2003_REG_VCYCLE_LO, 0x8c), (CV2003_REG_VCYCLE_LO, 0xca)), ((CV2003_REG_VCYCLE_HI, 0x0a), (CV2003_REG_VCYCLE_HI, 0x08))]"
  "0x0a * 256 + 0x8c = CV2003_VCYCLE_DEFAULT"
  by (simp_all add: regs_1080p25_def regs_1080p30_def CV2003_REG_VCYCLE_LO_def CV2003_REG_VCYCLE_HI_def CV2003_VCYCLE_DEFAULT_def)

section \<open>Agreement with the comments\<close>

lemmas layout_simps = contradicted_def offsets_def cells_def align_to_def max_align_def

lemma common_layouts:
  "contradicted FH_ACCOUNT FH_ACCOUNT_at = []" "csize (C_struct FH_ACCOUNT) = 0x48"
  "contradicted FH_DEVICE_INFO FH_DEVICE_INFO_at = []" "csize (C_struct FH_DEVICE_INFO) = 544"
  "contradicted FH_HWINFO FH_HWINFO_at = []" "csize (C_struct FH_HWINFO) = 0x178"
  by (simp_all add: layout_simps FH_ACCOUNT_def FH_ACCOUNT_at_def FH_DEVICE_INFO_def FH_DEVICE_INFO_at_def
      FH_HWINFO_def FH_HWINFO_at_def)

lemma video_layouts:
  "contradicted FH_VENC_NALU FH_VENC_NALU_at = []" "csize (C_struct FH_VENC_NALU) = 12"
  "contradicted FH_VENC_RC_ATTR FH_VENC_RC_ATTR_at = []"
  "contradicted FH_VPSS_FRAME FH_VPSS_FRAME_at = []" "csize (C_struct FH_VPSS_FRAME) = 4 * length frame_words"
  "csize (C_struct FH_VPSS_VI_ATTR) = 8" "4 + csize (C_struct FH_VPSS_CHN_ATTR) = ioc_size VPSS_SET_CHN_ATTR"
  "4 + csize (C_struct FH_VPSS_FRAMECTRL) = ioc_size VPSS_SET_FRAMECTRL"
  by (simp_all add: layout_simps FH_VENC_NALU_def FH_VENC_NALU_at_def FH_VENC_RC_ATTR_def FH_VENC_RC_ATTR_at_def
      FH_VPSS_FRAME_def FH_VPSS_FRAME_at_def frame_words_def FH_VPSS_VI_ATTR_def FH_VPSS_CHN_ATTR_def
      FH_VPSS_FRAMECTRL_def VPSS_SET_CHN_ATTR_def VPSS_SET_FRAMECTRL_def ioc_size_def)
    presburger

lemma isp_layouts:
  "contradicted FH_ISP_CONTRAST_CFG FH_ISP_CONTRAST_CFG_at = []"
  "contradicted FH_ISP_GAMMA_CFG FH_ISP_GAMMA_CFG_at = []"
  "contradicted FH_ISP_NR3D_CFG FH_ISP_NR3D_CFG_at = []"
  "contradicted FH_ISP_SATURATION_CFG FH_ISP_SATURATION_CFG_at = []"
  "contradicted FH_ISP_APC_CFG FH_ISP_APC_CFG_at = [(''thresholds'', 0x26)]"
  "contradicted FH_ISP_AE_DEFAULT_CFG FH_ISP_AE_DEFAULT_CFG_at = tl FH_ISP_AE_DEFAULT_CFG_at"
  "csize (C_struct FH_ISP_GAMMA_CFG) = 664" "csize (C_struct FH_ISP_AE_DEFAULT_CFG) = 260"
  by (simp_all add: layout_simps FH_ISP_CONTRAST_CFG_def FH_ISP_CONTRAST_CFG_at_def FH_ISP_GAMMA_CFG_def
      FH_ISP_GAMMA_CFG_at_def FH_ISP_NR3D_CFG_def FH_ISP_NR3D_CFG_at_def FH_ISP_SATURATION_CFG_def
      FH_ISP_SATURATION_CFG_at_def FH_ISP_APC_CFG_def FH_ISP_APC_CFG_at_def FH_ISP_AE_DEFAULT_CFG_def
      FH_ISP_AE_DEFAULT_CFG_at_def)

lemma other_layouts:
  "contradicted FH_NNA_DET_PARAM FH_NNA_DET_PARAM_at = []" "csize (C_struct FH_AC_CONFIG) = 0x18"
  by (simp_all add: layout_simps FH_NNA_DET_PARAM_def FH_NNA_DET_PARAM_at_def FH_AC_CONFIG_def)

text \<open>
  The encoder's stream: from the array of units on nothing is where the comments say, and it would be with
  twenty units instead of eighteen.
\<close>

lemma stream_layout:
  "contradicted FH_VENC_STREAM FH_VENC_STREAM_at = drop 9 FH_VENC_STREAM_at"
  "contradicted (FH_VENC_STREAM[8 := (''nalus'', C_array (C_struct FH_VENC_NALU) 20)]) FH_VENC_STREAM_at = []"
  by (simp_all add: layout_simps FH_VENC_STREAM_def FH_VENC_STREAM_at_def FH_VENC_NALU_def)

end
