(* ===== verification/Spec2Isabelle.thy ===== *)
theory Spec2Isabelle
  imports Rtsp_Props Isp_Props Mipi_Props Rtsp_Machine Streamer_Run Fh_Mpi_Props Oracle_Props Replay_Run Camera_Tools Sdk_Types
begin

text \<open>
  The camera software for the FH8852V201: a model of the program in \<open>src/majestic\<close>, \<open>src/sdk/lib\<close>, the comparison tools in
  \<open>src/tools/majestic-oracle\<close> and the diagnostic programs in \<open>src/sdk/tools\<close>, with the theorems about it.

  \<^bold>\<open>The program.\<close> \<open>mini_streamer.c\<close> is the streamer. Its \<open>main\<close> opens the vendor's kernel drivers, gives the video
  processor and the encoder memory, finds and starts the image sensor (\<open>cv2003_driver.c\<close>), gives the image signal processor
  its buffers (\<open>isp_buf_addr.c\<close>), writes that processor's registers (\<open>isp_init.c\<close>), starts the encoders and the RTSP
  server (\<open>rtsp_server.c\<close>), and then loops: take an encoded frame from the driver, map it, push its NAL units into the
  server, release it, poll the server. \<open>libcv2003_mipi.c\<close> is the same sensor as the plug-in the original streamer loads;
  \<open>fh_mpi.c\<close> is a small library over the same drivers. \<open>replay.c\<close> pushes a recording into the RTSP server, and
  \<open>fake_mpi.c\<close> stands in for the encoder under the original streamer and plays the same recording, so that the output of
  the two can be compared.

  \<^bold>\<open>How the code is modelled.\<close> The kernel, the drivers, the peers and the signals are not in the repository: they are the
  parameter \<open>k\<close> of type \<open>kernel\<close> (\<open>Os\<close>), any function from the history of calls and the next call to its result. Every
  function of the sources is a function of the same name that takes its arguments, the record of the static or
  caller-owned state it uses, and the history, and returns its value, the new record and the longer history. What a
  program did is read off the history: the bytes a peer received (\<open>wire\<close>), the descriptors left open (\<open>live\<close>), what is
  still mapped (\<open>mapped\<close>), the registers a device ends up with (\<open>regfile\<close>). C integers keep their width (\<open>u8\<close> to
  \<open>u64\<close>); buffers are lists of the size the C code declares, cut or overlaid as the C functions do it. Where the C code
  would leave an array, read an indeterminate value or not return, the value is \<open>None\<close>; that this does not happen is
  then a theorem. \<open>crypt\<close> is a parameter of the functions that check a password file, and \<open>bitrate\<close> stands for the
  floating-point rule of \<open>majestic_bitrate.h\<close>.

  \<^bold>\<open>The theories.\<close>

  \<^item> \<open>Prelude\<close>, \<open>C_Strings\<close>, \<open>Os\<close>, \<open>Descriptors\<close>: machine integers and buffers; the string functions of the C
    library the sources call; calls, histories and example kernels; the books on descriptors. The locale \<open>history_order\<close>
    walks through a function call by call with any reflexive and transitive relation of histories. It is interpreted as
    \<open>ad\<close> (all calls satisfy a predicate) and \<open>qt\<close> (no descriptor opened or closed on balance).
  \<^item> \<open>Rtsp_Io\<close>, \<open>Rtp\<close>, \<open>Base64\<close>, \<open>Rtsp_Request\<close>, \<open>Rtsp_Server\<close>: \<open>rtsp_server.c\<close> from the bottom of its call graph
    to the top: sending and the state records; RTP headers, fragmentation and the media clock; the Base64 coder; header
    fields, authentication, sessions and methods; initialisation, polling, pushing and closing.
  \<^item> \<open>Rtsp_Total\<close>, \<open>Rtsp_Invariant\<close>, \<open>Rtsp_Run\<close>, \<open>Rtsp_Text\<close>, \<open>Rtsp_Footprint\<close>: no request makes a function fail;
    well-formedness of the clients together with the books on their descriptors, for every operation and for runs of
    operations; requests as rendered text; the calls the server never makes, and that only a poll accepts connections.
  \<^item> \<open>Rtsp_Machine\<close>: the session machine of a client slot, an inductive step relation on what a peer can observe whose
    labels carry tracks and session numbers, and the server as a refinement of it through the abstraction \<open>slot_state\<close>:
    \<open>poll_events\<close> says which labels the connections, hang-ups and requests delivered in a poll allow.
  \<^item> \<open>Rtsp_Props\<close>: parsing and framing of requests, authentication, sessions, parameter sets, delivery to the clients.
  \<^item> \<open>Isp_Buf_Addr\<close>: sizes and addresses of the working buffers. The locale \<open>bump_allocator\<close> states the contract of the
    pool and is interpreted as \<open>pool\<close> on the code's allocator; allocations are shown to refine the abstract pool.
  \<^item> \<open>Isp_Win\<close>, \<open>Isp_Init\<close>, \<open>Isp_Props\<close>: fixed-point logarithm and the search for statistics windows; the bring-up of
    the registers; its closed register image, its bounds and its release of what it mapped.
  \<^item> \<open>Sensor_Bus\<close>, \<open>Cv2003_Driver\<close>, \<open>Libcv2003_Mipi\<close>, \<open>Sensor_Props\<close>, \<open>Mipi_Props\<close>: the register interface of the
    sensor as the locale \<open>register_device\<close>, interpreted on both drivers (\<open>sns\<close>, \<open>mipi\<close>); detection, formats, exposure,
    gain, mirroring, the agreement of the drivers, and the descriptor invariant over sequences of callbacks.
  \<^item> \<open>Mini_Streamer\<close>, \<open>Streamer_Props\<close>, \<open>Streamer_Run\<close>: the streamer, the arguments it passes to the drivers (locale
    \<open>logged_order\<close>, an extension of \<open>history_order\<close>), and the whole program from its first call to its last, its loop
    as the trace \<open>loop_run\<close>.
  \<^item> \<open>Fh_Mpi\<close>, \<open>Fh_Mpi_Props\<close>: the driver library over the record of its four descriptors, and the descriptors a client
    loses (\<open>lost\<close>) that opens the bus or the watchdog again without closing it.
  \<^item> \<open>Oracle\<close>, \<open>Fake_Mpi\<close>, \<open>Oracle_Props\<close>, \<open>Replay_Run\<close>: the two players of a recording, their agreement, and the
    replay program serving round after round, as the steps of a timetable (\<open>perform\<close>, \<open>timetable\<close>).
  \<^item> \<open>Camera_Tools\<close>: the dumps of the sensor and of the image signal processor, and the bus scan.
  \<^item> \<open>Sdk_Types\<close>: the structures of \<open>sdk/headers\<close> with the layout of the target, against the offsets in their comments.

  \<^bold>\<open>What the theorems show.\<close> For the server: any run of polls, pushes and configuration calls returns, and closing it
  leaves every descriptor it opened closed; each operation moves each client slot along the session machine, by what
  the client asked for; a client that plays
  receives exactly the NAL units from the first SPS on, and a receiver reassembles exactly the units that were sent, over
  UDP and over the interleaved connection; requests are cut out of the receive buffer and answered one by one; exactly the
  configured credentials pass and every other request gets a 401; DESCRIBE answers with the parameter sets once they are there. For the streamer: with
  drivers that answer it comes up, goes round its loop until a signal and releases what it holds; every physical range it gives to the
  hardware was granted by the memory driver; every frame is released exactly once and unmapped. For the image processor:
  its buffers are disjoint, aligned and inside the pool, its registers end up at the intended image, its accesses
  stay inside the mapping. For the sensor: both drivers leave the same registers, and exposure, gain and mirroring are what
  the registers say. For the comparison tools: both players hand on the same units with the same time stamps, and
  the replay program goes on for ever, pushes every picture when its time has come and not before, and leaks no
  descriptor. For the headers: lemmas on which of the offsets in their comments are those of the compiled structures.

  \<^bold>\<open>Hypotheses.\<close> \<open>kernel_ok\<close>, \<open>frames_ok\<close>, \<open>camera_works\<close>, \<open>files_ok\<close>, \<open>sensor_acks\<close>, \<open>sensor_absent\<close>, \<open>clock_ok\<close> and \<open>stops\<close>
  state the documented behaviour of system calls and devices (a send accepts at most what it was given, a mapped range
  can be read, the sensor answers with the content of its registers, a sleep takes at least as long as asked, a signal arrives at last). Each is met by a concrete
  kernel, on which the witnesses of the theorems run.

  \<^bold>\<open>Bounds and termination.\<close> \<open>send_all\<close> may repeat an interrupted call for ever, \<open>main_loop\<close> runs until a signal,
  \<open>win_loop\<close> and \<open>replay_wait\<close> until a condition holds: these are \<open>partial_function (option)\<close>, with theorems that they
  return. All other loops are structural or have a measure and need no fuel. \<open>replay.c\<close> never returns by itself; its model is
  the first \<open>n\<close> rounds of its loop, and the theorems hold for every \<open>n\<close>. Arrays have the sizes of the sources:
  8 clients, 16 attempts to bind a pair of ports, receive and reply buffers as declared, 8192 units and 4096 pictures in a
  recording.

  \<^bold>\<open>Not modelled.\<close> The floating-point bitrate rule; the prototypes in \<open>sdk/headers\<close>, which have no bodies; the experiments
  in \<open>sdk/tests\<close> and the \<open>test_\<close> programs in \<open>sdk/tools\<close>; \<open>hello.c\<close>, which runs a shell command; the stub functions
  in \<open>tools/majestic-chroot\<close>; Python and shell scripts, kernel modules and firmware images. Inside the modelled files, a
  signal handler runs at the marked places only (\<open>Pending_signal\<close>), the frame clock of \<open>fake_mpi.c\<close> is one turn of its
  thread at a time, and volatile register accesses are calls of the kernel parameter.
\<close>

end
